(* ===== verification/Go_Base.thy ===== *)
theory Go_Base
  imports Main "HOL-Library.Word" "HOL-Library.Char_ord" "HOL-Library.List_Lexorder"
    "HOL-Library.Multiset"
begin

text \<open>
  The part of the Go language and of its standard library that the orchestrator uses on
  plain values: \<^verbatim>\<open>error\<close> results, the string functions of package \<^verbatim>\<open>strings\<close>, the decimal
  conversions of package \<^verbatim>\<open>strconv\<close>, slices of strings, and 64-bit integers.

  Conventions of the whole library:
  \<^item> a Go \<^verbatim>\<open>string\<close> is a \<^typ>\<open>string\<close>, one \<^typ>\<open>char\<close> per byte, so that \<open><\<close> on strings is Go's
    bytewise order;
  \<^item> a Go \<^verbatim>\<open>error\<close> is a \<^typ>\<open>string option\<close> (its message; \<^const>\<open>None\<close> is \<^verbatim>\<open>nil\<close>), a result
    \<^verbatim>\<open>(T, error)\<close> is a sum whose left side is the message;
  \<^item> an instant (\<^verbatim>\<open>time.Time\<close>) and a duration are an \<^typ>\<open>int\<close> of nanoseconds; where the code
    computes on \<^verbatim>\<open>int64\<close> values that can wrap around, a \<^typ>\<open>64 word\<close>.
\<close>

named_theorems go_str "evaluation rules for the modelled string functions"

type_synonym gerror = "string option"
type_synonym 'a res = "string + 'a"
type_synonym instant = int
type_synonym int64 = "64 word"

text \<open>\<^verbatim>\<open>fmt.Errorf("msg: %w", err)\<close>: the message of the wrapped error follows the text.\<close>

definition errorf :: "string \<Rightarrow> string \<Rightarrow> string" where
  "errorf msg e = msg @ '': '' @ e"

definition Second :: int where
  "Second = 1000000000"

section \<open>Package strings\<close>

definition hasPrefix :: "string \<Rightarrow> string \<Rightarrow> bool" where
  "hasPrefix s p \<longleftrightarrow> length p \<le> length s \<and> take (length p) s = p"

definition hasSuffix :: "string \<Rightarrow> string \<Rightarrow> bool" where
  "hasSuffix s p \<longleftrightarrow> length p \<le> length s \<and> drop (length s - length p) s = p"

fun indexOf :: "string \<Rightarrow> string \<Rightarrow> nat option" where
  "indexOf sep [] = (if sep = [] then Some 0 else None)"
| "indexOf sep (c # s) =
     (if hasPrefix (c # s) sep then Some 0 else map_option Suc (indexOf sep s))"

definition contains :: "string \<Rightarrow> string \<Rightarrow> bool" where
  "contains s sep \<longleftrightarrow> indexOf sep s \<noteq> None"

lemma indexOf_less: "indexOf sep s = Some i \<Longrightarrow> i + length sep \<le> length s"
  by (induction s arbitrary: i) (auto simp: hasPrefix_def split: if_splits)

text \<open>
  \<^verbatim>\<open>strings.Split\<close>: cut at every occurrence, left to right. An empty separator explodes the
  string (per byte here; no caller passes one).
\<close>

function split :: "string \<Rightarrow> string \<Rightarrow> string list" where
  "split sep s =
     (if sep = [] then map (\<lambda>c. [c]) s
      else case indexOf sep s of
        None \<Rightarrow> [s]
      | Some i \<Rightarrow> take i s # split sep (drop (i + length sep) s))"
  by pat_completeness auto
termination
proof (relation "measure (\<lambda>(sep, s). length s)")
  fix sep s :: string and i
  assume sep: "sep \<noteq> []" and "indexOf sep s = Some i"
  then have "i + length sep \<le> length s" by (simp add: indexOf_less)
  with sep show "((sep, drop (i + length sep) s), sep, s) \<in> measure (\<lambda>(sep, s). length s)"
    by (cases sep) auto
qed simp

declare split.simps [simp del]

text \<open>\<^verbatim>\<open>strings.SplitN(s, sep, 2)\<close>: at most one cut, at the first occurrence.\<close>

definition splitN2 :: "string \<Rightarrow> string \<Rightarrow> string list" where
  "splitN2 s sep =
     (case indexOf sep s of
        None \<Rightarrow> [s]
      | Some i \<Rightarrow> [take i s, drop (i + length sep) s])"

text \<open>
  \<^verbatim>\<open>strings.TrimSpace\<close>: the white space of \<^verbatim>\<open>unicode.IsSpace\<close> in its UTF-8 encoding, the ASCII
  characters first. An encoding starts with the only byte in it that can start a character, so
  cutting encodings off the ends is cutting characters off.
\<close>

definition spaces :: "string list" where
  "spaces = [[CHR '' ''], [CHR 0x09], [CHR 0x0A], [CHR 0x0B], [CHR 0x0C], [CHR 0x0D],
     [CHR 0xC2, CHR 0x85], [CHR 0xC2, CHR 0xA0], [CHR 0xE1, CHR 0x9A, CHR 0x80],
     [CHR 0xE2, CHR 0x80, CHR 0x80], [CHR 0xE2, CHR 0x80, CHR 0x81], [CHR 0xE2, CHR 0x80, CHR 0x82],
     [CHR 0xE2, CHR 0x80, CHR 0x83], [CHR 0xE2, CHR 0x80, CHR 0x84], [CHR 0xE2, CHR 0x80, CHR 0x85],
     [CHR 0xE2, CHR 0x80, CHR 0x86], [CHR 0xE2, CHR 0x80, CHR 0x87], [CHR 0xE2, CHR 0x80, CHR 0x88],
     [CHR 0xE2, CHR 0x80, CHR 0x89], [CHR 0xE2, CHR 0x80, CHR 0x8A], [CHR 0xE2, CHR 0x80, CHR 0xA8],
     [CHR 0xE2, CHR 0x80, CHR 0xA9], [CHR 0xE2, CHR 0x80, CHR 0xAF], [CHR 0xE2, CHR 0x81, CHR 0x9F],
     [CHR 0xE3, CHR 0x80, CHR 0x80]]"

lemma spaces_not_Nil: "p \<in> set spaces \<Longrightarrow> p \<noteq> []"
  by (auto simp: spaces_def)

lemma find_space: "find P spaces = Some p \<Longrightarrow> p \<noteq> [] \<and> P p"
  using spaces_not_Nil by (metis find_Some_iff nth_mem)

function trimLeft :: "string \<Rightarrow> string" where
  "trimLeft s = (case find (hasPrefix s) spaces of None \<Rightarrow> s | Some p \<Rightarrow> trimLeft (drop (length p) s))"
  by pat_completeness auto
termination
  by (relation "measure length") (auto simp: hasPrefix_def dest!: find_space intro!: diff_less)

function trimRight :: "string \<Rightarrow> string" where
  "trimRight s =
     (case find (hasSuffix s) spaces of None \<Rightarrow> s | Some p \<Rightarrow> trimRight (take (length s - length p) s))"
  by pat_completeness auto
termination
  by (relation "measure length") (auto simp: hasSuffix_def dest!: find_space intro!: diff_less)

declare trimLeft.simps [simp del] trimRight.simps [simp del]

definition trimSpace :: "string \<Rightarrow> string" where
  "trimSpace s = trimRight (trimLeft s)"

definition trimmed :: "string \<Rightarrow> bool" where
  "trimmed s \<longleftrightarrow> (\<forall>p \<in> set spaces. \<not> hasPrefix s p \<and> \<not> hasSuffix s p)"

fun joinWith :: "string \<Rightarrow> string list \<Rightarrow> string" where
  "joinWith sep [] = []"
| "joinWith sep [x] = x"
| "joinWith sep (x # y # ys) = x @ sep @ joinWith sep (y # ys)"

lemma hasPrefix_append [simp]: "hasPrefix (p @ s) p"
  by (simp add: hasPrefix_def)

lemma hasPrefix_Cons [go_str]:
  "hasPrefix s [] = True"
  "hasPrefix [] (p # ps) = False"
  "hasPrefix (c # s) (p # ps) = (c = p \<and> hasPrefix s ps)"
  by (auto simp: hasPrefix_def)

lemma hasSuffix_append: "hasSuffix s p \<longleftrightarrow> (\<exists>q. s = q @ p)"
proof
  assume "hasSuffix s p"
  then have "s = take (length s - length p) s @ p"
    by (metis append_take_drop_id hasSuffix_def)
  then show "\<exists>q. s = q @ p" by blast
qed (auto simp: hasSuffix_def)

text \<open>A single-character separator: \<open>indexOf\<close> is the length of the part without it.\<close>

lemma indexOf_char:
  "indexOf [c] s = (if c \<in> set s then Some (length (takeWhile (\<lambda>x. x \<noteq> c) s)) else None)"
  by (induction s) (auto simp: hasPrefix_Cons)

lemma contains_char [simp]: "contains s [c] \<longleftrightarrow> c \<in> set s"
  by (simp add: contains_def indexOf_char)

lemma splitN2_char_append:
  "c \<notin> set k \<Longrightarrow> splitN2 (k @ c # v) [c] = [k, v]"
  by (simp add: splitN2_def indexOf_char takeWhile_append)

lemma splitN2_char_none: "c \<notin> set s \<Longrightarrow> splitN2 s [c] = [s]"
  by (simp add: splitN2_def indexOf_char)

lemma trimSpace_trimmed: "trimmed s \<Longrightarrow> trimSpace s = s"
proof -
  assume s: "trimmed s"
  then have "find (hasPrefix s) spaces = None" "find (hasSuffix s) spaces = None"
    unfolding find_None_iff trimmed_def by blast+
  then show ?thesis by (simp add: trimSpace_def trimLeft.simps [of s] trimRight.simps [of s])
qed

lemma affix_set: "hasPrefix s p \<or> hasSuffix s p \<Longrightarrow> set p \<subseteq> set s"
  unfolding hasPrefix_def hasSuffix_def by (metis set_drop_subset set_take_subset)

text \<open>A text without any first byte of a white space character has nothing to trim.\<close>

lemma trimmedI: "set s \<inter> hd ` set spaces = {} \<Longrightarrow> trimmed s"
  unfolding trimmed_def
proof (intro ballI)
  fix p
  assume s: "set s \<inter> hd ` set spaces = {}" and p: "p \<in> set spaces"
  have "hd p \<in> set p" using spaces_not_Nil [OF p] by simp
  then show "\<not> hasPrefix s p \<and> \<not> hasSuffix s p" using affix_set [of s p] s p by blast
qed

subsection \<open>Splitting undoes joining\<close>

text \<open>
  \<open>crlf_free x\<close>: the line \<open>x\<close> neither contains CRLF nor ends in CR, so that the first CRLF
  of \<open>x @ CRLF @ rest\<close> is the one after \<open>x\<close>.
\<close>

definition crlf :: string where
  "crlf = [CHR 0x0D, CHR 0x0A]"

definition crlf_free :: "string \<Rightarrow> bool" where
  "crlf_free x \<longleftrightarrow> CHR 0x0D \<notin> set x"

lemma crlf_not_Nil [simp]: "crlf \<noteq> []"
  by (simp add: crlf_def)

lemma indexOf_crlf_append:
  "crlf_free x \<Longrightarrow> indexOf crlf (x @ crlf @ r) = Some (length x)"
  by (induction x) (auto simp: crlf_def crlf_free_def hasPrefix_Cons)

lemma indexOf_crlf_none: "crlf_free x \<Longrightarrow> indexOf crlf x = None"
  by (induction x) (auto simp: crlf_def crlf_free_def hasPrefix_Cons)

lemma split_crlf_Cons:
  "crlf_free x \<Longrightarrow> split crlf (x @ crlf @ r) = x # split crlf r"
  by (subst split.simps) (simp add: indexOf_crlf_append)

lemma split_crlf_single: "crlf_free x \<Longrightarrow> split crlf x = [x]"
  by (subst split.simps) (simp add: indexOf_crlf_none)

lemma split_join_crlf:
  "xs \<noteq> [] \<Longrightarrow> \<forall>x \<in> set xs. crlf_free x \<Longrightarrow> split crlf (joinWith crlf xs) = xs"
  by (induction crlf xs rule: joinWith.induct) (simp_all add: split_crlf_Cons split_crlf_single)

lemma split_char_Cons:
  "c \<notin> set x \<Longrightarrow> split [c] (x @ c # r) = x # split [c] r"
  by (subst split.simps) (simp add: indexOf_char takeWhile_append)

lemma split_char_single: "c \<notin> set x \<Longrightarrow> split [c] x = [x]"
  by (subst split.simps) (simp add: indexOf_char)

lemma split_join_char:
  "xs \<noteq> [] \<Longrightarrow> \<forall>x \<in> set xs. c \<notin> set x \<Longrightarrow> split [c] (joinWith [c] xs) = xs"
proof (induction "[c]" xs rule: joinWith.induct)
  case (3 x y ys)
  then show ?case using split_char_Cons [of c x "joinWith [c] (y # ys)"] by simp
qed (simp_all add: split_char_single)

lemma split_hd: "split [c] s \<noteq> [] \<and> hd (split [c] s) = takeWhile (\<lambda>x. x \<noteq> c) s"
proof (cases "c \<in> set s")
  case True
  then show ?thesis
    by (subst (1 2) split.simps) (simp add: indexOf_char takeWhile_eq_take [symmetric])
next
  case False
  then have tw: "takeWhile (\<lambda>x. x \<noteq> c) s = s" by (auto simp: takeWhile_eq_all_conv)
  show ?thesis unfolding tw using False by (simp add: split_char_single)
qed

section \<open>Packages path and filepath\<close>

text \<open>
  \<^verbatim>\<open>path.Clean\<close>, which \<^verbatim>\<open>filepath.Clean\<close> is on Unix: empty elements and dots vanish, \<^verbatim>\<open>..\<close> takes the
  element before it away. The second argument is the stack of elements kept so far.
\<close>

fun clean_elems :: "bool \<Rightarrow> string list \<Rightarrow> string list \<Rightarrow> string list" where
  "clean_elems rooted st [] = rev st"
| "clean_elems rooted st (x # xs) =
     (if x = [] \<or> x = ''.'' then clean_elems rooted st xs
      else if x = ''..'' then
        (case st of
           [] \<Rightarrow> clean_elems rooted (if rooted then [] else [x]) xs
         | y # ys \<Rightarrow> clean_elems rooted (if y = ''..'' then x # st else ys) xs)
      else clean_elems rooted (x # st) xs)"

definition path_clean :: "string \<Rightarrow> string" where
  "path_clean p =
     (let rooted = hasPrefix p ''/''; xs = clean_elems rooted [] (split ''/'' p)
      in if rooted then ''/'' @ joinWith ''/'' xs
         else if xs = [] then ''.'' else joinWith ''/'' xs)"

text \<open>\<^verbatim>\<open>filepath.Join\<close> of two elements ignores an empty one.\<close>

definition filepath_join :: "string \<Rightarrow> string \<Rightarrow> string" where
  "filepath_join a b =
     (if a = [] then (if b = [] then [] else path_clean b)
      else path_clean (if b = [] then a else a @ ''/'' @ b))"

definition plain_elem :: "string \<Rightarrow> bool" where
  "plain_elem x \<longleftrightarrow> x \<noteq> [] \<and> x \<noteq> ''.'' \<and> x \<noteq> ''..'' \<and> CHR ''/'' \<notin> set x"

lemma clean_elems_plain: "\<forall>x \<in> set xs. plain_elem x \<Longrightarrow> clean_elems rooted st xs = rev st @ xs"
  by (induction xs arbitrary: st) (auto simp: plain_elem_def)

lemma path_clean_plain:
  assumes "xs \<noteq> []" and "\<forall>x \<in> set xs. plain_elem x"
  shows "path_clean (''/'' @ joinWith ''/'' xs) = ''/'' @ joinWith ''/'' xs"
proof -
  have "split ''/'' (joinWith ''/'' xs) = xs"
    using assms by (intro split_join_char) (auto simp: plain_elem_def)
  then have "split ''/'' ([] @ CHR ''/'' # joinWith ''/'' xs) = [] # xs"
    by (subst split_char_Cons) simp_all
  then show ?thesis
    using assms(2) by (simp add: path_clean_def hasPrefix_def clean_elems_plain Let_def)
qed

section \<open>Package strconv\<close>

text \<open>
  \<^verbatim>\<open>strconv.FormatInt(n, 10)\<close>, \<^verbatim>\<open>strconv.Itoa\<close> and the verb \<^verbatim>\<open>%d\<close>: decimal digits with a minus
  sign for negative numbers. \<^verbatim>\<open>strconv.ParseInt(s, 10, 64)\<close> and \<^verbatim>\<open>strconv.Atoi\<close> (64-bit
  \<^verbatim>\<open>int\<close>): an optional sign, at least one digit, nothing else, and a value in range.
\<close>

definition digitChar :: "nat \<Rightarrow> char" where
  "digitChar d = char_of (48 + d)"

definition digitVal :: "char \<Rightarrow> nat option" where
  "digitVal c = (if 48 \<le> (of_char c :: nat) \<and> (of_char c :: nat) \<le> 57
     then Some (of_char c - 48) else None)"

fun formatNat :: "nat \<Rightarrow> string" where
  "formatNat n = (if n < 10 then [digitChar n] else formatNat (n div 10) @ [digitChar (n mod 10)])"

declare formatNat.simps [simp del]

definition formatInt :: "int \<Rightarrow> string" where
  "formatInt n = (if n < 0 then CHR ''-'' # formatNat (nat (- n)) else formatNat (nat n))"

fun parseDigits :: "nat \<Rightarrow> string \<Rightarrow> nat option" where
  "parseDigits acc [] = Some acc"
| "parseDigits acc (c # s) =
     (case digitVal c of None \<Rightarrow> None | Some d \<Rightarrow> parseDigits (10 * acc + d) s)"

definition parseNat :: "string \<Rightarrow> nat option" where
  "parseNat s = (if s = [] then None else parseDigits 0 s)"

definition inInt64 :: "int \<Rightarrow> bool" where
  "inInt64 n \<longleftrightarrow> - (2 ^ 63) \<le> n \<and> n < 2 ^ 63"

definition parseInt :: "string \<Rightarrow> int option" where
  "parseInt s =
     (case s of
        [] \<Rightarrow> None
      | c # cs \<Rightarrow>
          (let m = (if c = CHR ''-'' then map_option (\<lambda>n. - int n) (parseNat cs)
                    else if c = CHR ''+'' then map_option int (parseNat cs)
                    else map_option int (parseNat s))
           in case m of None \<Rightarrow> None | Some n \<Rightarrow> if inInt64 n then Some n else None))"

lemma digitVal_digitChar [simp]: "d < 10 \<Longrightarrow> digitVal (digitChar d) = Some d"
  by (simp add: digitVal_def digitChar_def)

lemma parseDigits_append:
  "parseDigits acc (s @ t) =
     (case parseDigits acc s of None \<Rightarrow> None | Some a \<Rightarrow> parseDigits a t)"
  by (induction s arbitrary: acc) (auto split: option.splits)

lemma parseDigits_formatNat [simp]: "parseDigits 0 (formatNat n) = Some n"
proof (induction n rule: formatNat.induct)
  case (1 n)
  then show ?case
    by (subst formatNat.simps) (auto simp: parseDigits_append split: option.splits)
qed

lemma formatNat_not_Nil [simp]: "formatNat n \<noteq> []"
  by (subst formatNat.simps) simp

lemma parseNat_formatNat [simp]: "parseNat (formatNat n) = Some n"
  by (simp add: parseNat_def)

lemma digitVal_formatNat: "c \<in> set (formatNat n) \<Longrightarrow> digitVal c \<noteq> None"
proof (induction n arbitrary: c rule: formatNat.induct)
  case (1 n)
  then show ?case by (cases "n < 10") (auto simp: formatNat.simps [of n])
qed

lemma formatNat_no_char: "digitVal c = None \<Longrightarrow> c \<notin> set (formatNat n)"
  using digitVal_formatNat by blast

lemma formatInt_no_char: "digitVal c = None \<Longrightarrow> c \<noteq> CHR ''-'' \<Longrightarrow> c \<notin> set (formatInt n)"
  by (simp add: formatInt_def formatNat_no_char)

lemma formatInt_not_Nil [simp]: "formatInt n \<noteq> []"
  by (simp add: formatInt_def)

lemma parseInt_formatInt [simp]: "inInt64 n \<Longrightarrow> parseInt (formatInt n) = Some n"
proof (cases "n < 0")
  case True
  assume "inInt64 n"
  with True show ?thesis by (simp add: formatInt_def parseInt_def Let_def)
next
  case False
  assume n: "inInt64 n"
  obtain c cs where f: "formatNat (nat n) = c # cs" by (cases "formatNat (nat n)") auto
  have "CHR ''-'' \<notin> set (formatNat (nat n))" "CHR ''+'' \<notin> set (formatNat (nat n))"
    by (rule formatNat_no_char, simp add: digitVal_def)+
  then have "c \<noteq> CHR ''-''" "c \<noteq> CHR ''+''" using f by auto
  moreover have "parseNat (c # cs) = Some (nat n)" using f by (metis parseNat_formatNat)
  ultimately show ?thesis using False n f by (simp add: formatInt_def parseInt_def Let_def)
qed

lemma parseInt_range: "parseInt s = Some n \<Longrightarrow> inInt64 n"
  by (auto simp: parseInt_def Let_def split: list.splits option.splits if_splits)

lemma formatNat_inj: "formatNat a = formatNat b \<Longrightarrow> a = b"
  by (metis option.inject parseNat_formatNat)

lemma formatInt_inj: "formatInt m = formatInt n \<Longrightarrow> m = n"
proof -
  have "CHR ''-'' \<notin> set (formatNat k)" for k
    by (rule formatNat_no_char) (simp add: digitVal_def)
  then have minus: "CHR ''-'' # xs \<noteq> formatNat k" for xs k
    by (metis list.set_intros(1))
  assume "formatInt m = formatInt n"
  then show ?thesis
    by (auto simp: formatInt_def minus minus [symmetric] split: if_splits dest!: formatNat_inj)
qed

section \<open>Slices of strings\<close>

text \<open>\<^verbatim>\<open>s[:n]\<close> panics when \<open>n\<close> exceeds the length; \<^const>\<open>None\<close> is the panic.\<close>

definition slice_to :: "string \<Rightarrow> nat \<Rightarrow> string option" where
  "slice_to s n = (if n \<le> length s then Some (take n s) else None)"

section \<open>Maps\<close>

text \<open>
  A Go map is an association list with one entry per key; the order of the list is the
  order in which \<^verbatim>\<open>range\<close> happens to visit the entries. Reading a missing key of a
  \<^verbatim>\<open>map[string]string\<close> gives the empty string.
\<close>

type_synonym 'v gomap = "(string \<times> 'v) list"

definition map_wf :: "'v gomap \<Rightarrow> bool" where
  "map_wf m \<longleftrightarrow> distinct (map fst m)"

fun map_set :: "string \<Rightarrow> 'v \<Rightarrow> 'v gomap \<Rightarrow> 'v gomap" where
  "map_set k v [] = [(k, v)]"
| "map_set k v ((a, b) # m) = (if a = k then (k, v) # m else (a, b) # map_set k v m)"

definition map_del :: "string \<Rightarrow> 'v gomap \<Rightarrow> 'v gomap" where
  "map_del k m = filter (\<lambda>(a, b). a \<noteq> k) m"

definition map_get :: "string gomap \<Rightarrow> string \<Rightarrow> string" where
  "map_get m k = (case map_of m k of None \<Rightarrow> [] | Some v \<Rightarrow> v)"

lemma map_of_map_set [simp]: "map_of (map_set k v m) = (map_of m)(k \<mapsto> v)"
  by (induction k v m rule: map_set.induct) (auto simp: fun_eq_iff)

lemma set_map_set_keys [simp]: "fst ` set (map_set k v m) = insert k (fst ` set m)"
  by (induction k v m rule: map_set.induct) auto

lemma map_of_map_del [simp]: "map_of (map_del k m) = (map_of m)(k := None)"
  by (induction m) (auto simp: map_del_def fun_eq_iff)

lemma map_wf_set [simp]: "map_wf m \<Longrightarrow> map_wf (map_set k v m)"
  unfolding map_wf_def by (induction k v m rule: map_set.induct) auto

lemma map_wf_filter [simp]: "map_wf m \<Longrightarrow> map_wf (filter P m)"
  unfolding map_wf_def by (induction m) auto

lemma map_wf_del [simp]: "map_wf m \<Longrightarrow> map_wf (map_del k m)"
  by (simp add: map_del_def)

lemma map_wf_Nil [simp]: "map_wf []"
  by (simp add: map_wf_def)

text \<open>
  The contract the components rely on, and the loop over a second map that
  \<^verbatim>\<open>for k, v := range src { dst[k] = v }\<close> performs: the entries of \<open>src\<close> win.
\<close>

locale map_contract =
  fixes lookup :: "'m \<Rightarrow> string \<Rightarrow> 'v option"
    and insert :: "string \<Rightarrow> 'v \<Rightarrow> 'm \<Rightarrow> 'm"
    and wf :: "'m \<Rightarrow> bool"
  assumes lookup_insert: "lookup (insert k v m) = (lookup m)(k \<mapsto> v)"
    and wf_insert: "wf m \<Longrightarrow> wf (insert k v m)"
begin

lemma lookup_merge:
  "lookup (foldl (\<lambda>m (k, v). insert k v m) m src) k =
     (case map_of (rev src) k of None \<Rightarrow> lookup m k | Some v \<Rightarrow> Some v)"
  by (induction src rule: rev_induct) (auto simp: lookup_insert)

lemma wf_merge: "wf m \<Longrightarrow> wf (foldl (\<lambda>m (k, v). insert k v m) m src)"
  by (induction src arbitrary: m) (auto intro: wf_insert)

end

interpretation gm: map_contract map_of map_set map_wf
  by unfold_locales auto

lemma map_of_rev_wf: "map_wf m \<Longrightarrow> map_of (rev m) = map_of m"
  unfolding map_wf_def
  by (rule ext) (metis map_of_eq_Some_iff distinct_rev rev_map set_rev not_None_eq)

lemma map_get_set [simp]: "map_get (map_set k v m) k = v"
  by (simp add: map_get_def)

end
