(* ===== verification/Go_IO.thy ===== *)
theory Go_IO
  imports Go_Base
begin

text \<open>
  The orchestrator's effects. Everything outside the repository (the Redis server behind
  go-redis, the Kubernetes API behind client-go, the network behind net/http, the clock,
  HashiCorp Raft) is a parameter: a record of functions that answer a call from the
  history of all calls made so far. No behaviour of these systems is fixed here; a theorem
  that needs some states it as a hypothesis on the record.

  A computation takes the environment and the history, and returns a value or a panic
  together with the longer history. Errors are ordinary values (package \<^verbatim>\<open>Go_Base\<close>), as in Go.
  Logging (klog) has no modelled effect; a log argument whose evaluation can panic is kept.
\<close>

named_theorems emit_intros "rules that bound the calls a computation makes"

section \<open>Data exchanged with the outside\<close>

text \<open>
  JSON documents at the level of values. \<open>JTime t\<close> is the string that
  \<^verbatim>\<open>time.Time.MarshalJSON\<close> writes for the instant \<open>t\<close>.
\<close>

datatype json =
    JNull | JBool bool | JNum int | JStr string | JTime instant
  | JArr "json list" | JObj "(string \<times> json) list"

datatype body = Json json | Text string

record http_request =
  Method :: string
  URL :: string
  Header :: "string gomap"
  ReqBody :: body

record http_response =
  StatusCode :: nat
  RespBody :: body

abbreviation StatusOK :: nat where "StatusOK \<equiv> 200"
abbreviation StatusMovedPermanently :: nat where "StatusMovedPermanently \<equiv> 301"
abbreviation StatusBadRequest :: nat where "StatusBadRequest \<equiv> 400"
abbreviation StatusUnauthorized :: nat where "StatusUnauthorized \<equiv> 401"
abbreviation StatusNotFound :: nat where "StatusNotFound \<equiv> 404"
abbreviation StatusInternalServerError :: nat where "StatusInternalServerError \<equiv> 500"
abbreviation StatusServiceUnavailable :: nat where "StatusServiceUnavailable \<equiv> 503"

text \<open>\<^verbatim>\<open>http.Error\<close>: a plain text body with the given status.\<close>

definition http_error :: "string \<Rightarrow> nat \<Rightarrow> http_response" where
  "http_error msg code = \<lparr>StatusCode = code, RespBody = Text msg\<rparr>"

text \<open>
  \<^verbatim>\<open>req.URL.Path\<close>: after scheme and authority (a server sees the path only), up to the query or
  the fragment (no percent-decoding: the program's own paths contain no percent sign).
\<close>

definition url_path :: "string \<Rightarrow> string" where
  "url_path u =
     (let rest = (if hasPrefix u ''/'' then u
                  else case indexOf ''://'' u of None \<Rightarrow> u | Some i \<Rightarrow> drop (i + 3) u);
          no_frag = takeWhile (\<lambda>c. c \<noteq> CHR ''#'') rest
      in dropWhile (\<lambda>c. c \<noteq> CHR ''/'') (takeWhile (\<lambda>c. c \<noteq> CHR ''?'') no_frag))"

lemma url_path_http:
  assumes "\<forall>c \<in> set host. c \<noteq> CHR ''/'' \<and> c \<noteq> CHR ''?'' \<and> c \<noteq> CHR ''#''"
    and "\<forall>c \<in> set p. c \<noteq> CHR ''?'' \<and> c \<noteq> CHR ''#''"
  shows "url_path (''http://'' @ host @ ''/'' @ p) = ''/'' @ p"
proof -
  have i: "indexOf ''://'' (''http://'' @ s) = Some 4" for s :: string
    by (simp add: hasPrefix_def)
  have w: "takeWhile (\<lambda>c. c \<noteq> CHR ''#'') (host @ ''/'' @ p) = host @ ''/'' @ p"
    "takeWhile (\<lambda>c. c \<noteq> CHR ''?'') (host @ ''/'' @ p) = host @ ''/'' @ p"
    "dropWhile (\<lambda>c. c \<noteq> CHR ''/'') (host @ ''/'' @ p) = ''/'' @ p"
    using assms by (auto simp: takeWhile_eq_all_conv dropWhile_append)
  have "\<not> hasPrefix (''http://'' @ s) ''/''" "drop (4 + 3) (''http://'' @ s) = s" for s :: string
    by (simp_all add: hasPrefix_def)
  then show ?thesis unfolding url_path_def Let_def i by (simp only: if_False option.case w)
qed

text \<open>The path \<^verbatim>\<open>http.ServeMux\<close> looks up: rooted and cleaned, a trailing slash kept.\<close>

definition mux_path :: "string \<Rightarrow> string" where
  "mux_path p =
     (if p = [] then ''/''
      else let q = (if hasPrefix p ''/'' then p else CHR ''/'' # p); np = path_clean q
        in if last q = CHR ''/'' \<and> np \<noteq> ''/'' then np @ ''/'' else np)"

lemma joinWith_last:
  "xs \<noteq> [] \<Longrightarrow> last xs \<noteq> [] \<Longrightarrow> joinWith sep xs \<noteq> [] \<and> last (joinWith sep xs) = last (last xs)"
proof (induction sep xs rule: joinWith.induct)
  case (3 sep x y ys)
  then have "joinWith sep (y # ys) \<noteq> []" "last (joinWith sep (y # ys)) = last (last (y # ys))" by simp_all
  then show ?case by simp
qed simp_all

lemma mux_path_plain:
  assumes "xs \<noteq> []" and "\<forall>x \<in> set xs. plain_elem x"
  shows "mux_path (''/'' @ joinWith ''/'' xs) = ''/'' @ joinWith ''/'' xs"
proof -
  have l: "plain_elem (last xs)" using assms by simp
  then have "last (last xs) \<noteq> CHR ''/''" "last xs \<noteq> []" unfolding plain_elem_def by (metis last_in_set)+
  then have "joinWith ''/'' xs \<noteq> []" "last (joinWith ''/'' xs) \<noteq> CHR ''/''"
    using joinWith_last [OF assms(1)] by simp_all
  then show ?thesis
    using path_clean_plain [OF assms] by (simp add: mux_path_def hasPrefix_def Let_def)
qed

text \<open>Kubernetes objects, with the fields the program reads or writes.\<close>

record kube_pod =
  kName :: string
  kUID :: string
  kLabels :: "string gomap option"
  kPhase :: string
  kPodIP :: string

record ingress =
  IP :: string
  Hostname :: string

record service =
  sName :: string
  sType :: string
  sSelector :: "string gomap"
  sIngress :: "ingress list"

text \<open>Values of the Raft library.\<close>

datatype raft_role = Follower | Candidate | Leader | Shutdown

fun role_string :: "raft_role \<Rightarrow> string" where
  "role_string Follower = ''Follower''"
| "role_string Candidate = ''Candidate''"
| "role_string Leader = ''Leader''"
| "role_string Shutdown = ''Shutdown''"

datatype suffrage = Voter | Nonvoter | Staging

fun suffrage_string :: "suffrage \<Rightarrow> string" where
  "suffrage_string Voter = ''Voter''"
| "suffrage_string Nonvoter = ''Nonvoter''"
| "suffrage_string Staging = ''Staging''"

record raft_server =
  srvID :: string
  srvAddress :: string
  srvSuffrage :: suffrage

datatype setup_step =
    MkdirAll string | ResolveTCPAddr string | NewTCPTransport string string
  | NewFileSnapshotStore string | NewBoltStore string | NewRaft string

section \<open>Calls, histories, environments\<close>

datatype event =
    ClockRead
  | Sleep instant
  | CtxDone
  | RedisConnect string string bool bool
  | RedisPing
  | RedisInfo string
  | RedisDo "string list"
  | RedisClose
  | PodGet string string
  | PodList string string
  | PodUpdate string kube_pod
  | ServiceList string
  | HttpDo http_request
  | HttpListen
  | HttpShutdown
  | RaftSetup setup_step
  | RaftLastIndex
  | RaftState
  | RaftLeader
  | RaftGetConfiguration
  | RaftBootstrap "raft_server list"
  | RaftAdd suffrage string string
  | RaftShutdown
  | GoStmt string

type_synonym trace = "event list"

record env =
  x_now :: "trace \<Rightarrow> instant"
  x_ctx_done :: "trace \<Rightarrow> bool"
  x_redis_ping :: "trace \<Rightarrow> gerror"
  x_redis_info :: "trace \<Rightarrow> string \<Rightarrow> string res"
  x_redis_do :: "trace \<Rightarrow> string list \<Rightarrow> gerror"
  x_redis_close :: "trace \<Rightarrow> gerror"
  x_pod_get :: "trace \<Rightarrow> string \<Rightarrow> string \<Rightarrow> kube_pod res"
  x_pod_list :: "trace \<Rightarrow> string \<Rightarrow> string \<Rightarrow> kube_pod list res"
  x_pod_update :: "trace \<Rightarrow> string \<Rightarrow> kube_pod \<Rightarrow> gerror"
  x_svc_list :: "trace \<Rightarrow> string \<Rightarrow> service list res"
  x_url :: "string \<Rightarrow> gerror"
  x_http :: "trace \<Rightarrow> http_request \<Rightarrow> http_response res"
  x_http_shutdown :: "trace \<Rightarrow> gerror"
  x_raft_setup :: "trace \<Rightarrow> setup_step \<Rightarrow> gerror"
  x_raft_last_index :: "trace \<Rightarrow> nat"
  x_raft_state :: "trace \<Rightarrow> raft_role"
  x_raft_leader :: "trace \<Rightarrow> string \<times> string"
  x_raft_configuration :: "trace \<Rightarrow> raft_server list res"
  x_raft_bootstrap :: "trace \<Rightarrow> raft_server list \<Rightarrow> gerror"
  x_raft_add :: "trace \<Rightarrow> suffrage \<Rightarrow> string \<Rightarrow> string \<Rightarrow> gerror"
  x_raft_shutdown :: "trace \<Rightarrow> gerror"

text \<open>What a \<^verbatim>\<open>select\<close> on the context and a ticker delivers.\<close>

datatype wakeup = Tick | Cancelled

section \<open>Computations\<close>

datatype 'a go = Ret 'a | Panic string

type_synonym 'a io = "env \<Rightarrow> trace \<Rightarrow> 'a go \<times> trace"

definition ret :: "'a \<Rightarrow> 'a io" where
  "ret a E t = (Ret a, t)"

definition panic :: "string \<Rightarrow> 'a io" where
  "panic p E t = (Panic p, t)"

definition bnd :: "'a io \<Rightarrow> ('a \<Rightarrow> 'b io) \<Rightarrow> 'b io" where
  "bnd m f E t = (case m E t of (Ret a, t') \<Rightarrow> f a E t' | (Panic p, t') \<Rightarrow> (Panic p, t'))"

definition call :: "event \<Rightarrow> (env \<Rightarrow> trace \<Rightarrow> 'a) \<Rightarrow> 'a io" where
  "call e f E t = (Ret (f E t), e # t)"

text \<open>\<^verbatim>\<open>x, err := m; if err != nil { return err }\<close>, and the same with a bare error.\<close>

definition attempt :: "'a res io \<Rightarrow> ('a \<Rightarrow> 'b res io) \<Rightarrow> 'b res io" where
  "attempt m f = bnd m (\<lambda>r. case r of Inl e \<Rightarrow> ret (Inl e) | Inr a \<Rightarrow> f a)"

definition check :: "gerror io \<Rightarrow> gerror io \<Rightarrow> gerror io" where
  "check m k = bnd m (\<lambda>r. case r of Some e \<Rightarrow> ret (Some e) | None \<Rightarrow> k)"

definition wrap_err :: "string \<Rightarrow> gerror io \<Rightarrow> gerror io" where
  "wrap_err msg m = bnd m (\<lambda>r. ret (map_option (errorf msg) r))"

definition wrap_res :: "string \<Rightarrow> 'a res io \<Rightarrow> 'a res io" where
  "wrap_res msg m = bnd m (\<lambda>r. ret (case r of Inl e \<Rightarrow> Inl (errorf msg e) | Inr a \<Rightarrow> Inr a))"

definition slice8 :: "string \<Rightarrow> string io" where
  "slice8 s = (case slice_to s 8 of None \<Rightarrow> panic ''slice bounds out of range'' | Some x \<Rightarrow> ret x)"

subsection \<open>The external calls\<close>

definition now :: "instant io" where
  "now = call ClockRead (\<lambda>E t. x_now E t)"

definition sleep :: "instant \<Rightarrow> unit io" where
  "sleep d = call (Sleep d) (\<lambda>E t. ())"

definition ctxDone :: "bool io" where
  "ctxDone = call CtxDone (\<lambda>E t. x_ctx_done E t)"

definition redisConnect :: "string \<Rightarrow> string \<Rightarrow> bool \<Rightarrow> bool \<Rightarrow> unit io" where
  "redisConnect addr pw tls skip = call (RedisConnect addr pw tls skip) (\<lambda>E t. ())"

definition redisPing :: "gerror io" where
  "redisPing = call RedisPing (\<lambda>E t. x_redis_ping E t)"

definition redisInfo :: "string \<Rightarrow> string res io" where
  "redisInfo s = call (RedisInfo s) (\<lambda>E t. x_redis_info E t s)"

definition redisDo :: "string list \<Rightarrow> gerror io" where
  "redisDo args = call (RedisDo args) (\<lambda>E t. x_redis_do E t args)"

definition redisClose :: "gerror io" where
  "redisClose = call RedisClose (\<lambda>E t. x_redis_close E t)"

definition podGet :: "string \<Rightarrow> string \<Rightarrow> kube_pod res io" where
  "podGet ns name = call (PodGet ns name) (\<lambda>E t. x_pod_get E t ns name)"

definition podList :: "string \<Rightarrow> string \<Rightarrow> kube_pod list res io" where
  "podList ns sel = call (PodList ns sel) (\<lambda>E t. x_pod_list E t ns sel)"

definition podUpdate :: "string \<Rightarrow> kube_pod \<Rightarrow> gerror io" where
  "podUpdate ns p = call (PodUpdate ns p) (\<lambda>E t. x_pod_update E t ns p)"

definition serviceList :: "string \<Rightarrow> service list res io" where
  "serviceList ns = call (ServiceList ns) (\<lambda>E t. x_svc_list E t ns)"

definition httpDo :: "http_request \<Rightarrow> http_response res io" where
  "httpDo r = call (HttpDo r) (\<lambda>E t. x_http E t r)"

text \<open>\<^verbatim>\<open>http.NewRequestWithContext\<close>: fails when the URL does not parse.\<close>

definition newRequest :: "string \<Rightarrow> string \<Rightarrow> body \<Rightarrow> http_request res io" where
  "newRequest meth url b E t =
     (Ret (case x_url E url of
        Some e \<Rightarrow> Inl e
      | None \<Rightarrow> Inr \<lparr>Method = meth, URL = url, Header = [], ReqBody = b\<rparr>), t)"

definition httpShutdown :: "gerror io" where
  "httpShutdown = call HttpShutdown (\<lambda>E t. x_http_shutdown E t)"

definition raftSetup :: "setup_step \<Rightarrow> gerror io" where
  "raftSetup s = call (RaftSetup s) (\<lambda>E t. x_raft_setup E t s)"

definition raftLastIndex :: "nat io" where
  "raftLastIndex = call RaftLastIndex (\<lambda>E t. x_raft_last_index E t)"

definition raftState :: "raft_role io" where
  "raftState = call RaftState (\<lambda>E t. x_raft_state E t)"

definition raftLeaderWithID :: "(string \<times> string) io" where
  "raftLeaderWithID = call RaftLeader (\<lambda>E t. x_raft_leader E t)"

definition raftGetConfiguration :: "raft_server list res io" where
  "raftGetConfiguration = call RaftGetConfiguration (\<lambda>E t. x_raft_configuration E t)"

definition raftBootstrap :: "raft_server list \<Rightarrow> gerror io" where
  "raftBootstrap ss = call (RaftBootstrap ss) (\<lambda>E t. x_raft_bootstrap E t ss)"

definition raftAdd :: "suffrage \<Rightarrow> string \<Rightarrow> string \<Rightarrow> gerror io" where
  "raftAdd s i a = call (RaftAdd s i a) (\<lambda>E t. x_raft_add E t s i a)"

definition raftShutdown :: "gerror io" where
  "raftShutdown = call RaftShutdown (\<lambda>E t. x_raft_shutdown E t)"

text \<open>A \<^verbatim>\<open>go\<close> statement: the goroutine's body is a computation of its own.\<close>

definition goStmt :: "string \<Rightarrow> unit io" where
  "goStmt name = call (GoStmt name) (\<lambda>E t. ())"

lemma slice8_cases:
  "8 \<le> length s \<Longrightarrow> slice8 s = ret (take 8 s)"
  "length s < 8 \<Longrightarrow> slice8 s = panic ''slice bounds out of range''"
  by (simp_all add: slice8_def slice_to_def)

section \<open>Reasoning about computations\<close>

lemmas io_defs = ret_def panic_def bnd_def call_def attempt_def check_def wrap_err_def
  wrap_res_def

lemmas call_defs = now_def sleep_def ctxDone_def redisConnect_def redisPing_def redisInfo_def
  redisDo_def redisClose_def podGet_def podList_def podUpdate_def serviceList_def httpDo_def
  httpShutdown_def raftSetup_def raftLastIndex_def raftState_def raftLeaderWithID_def
  raftGetConfiguration_def raftBootstrap_def raftAdd_def raftShutdown_def goStmt_def

lemma bnd_ret [simp]: "bnd (ret a) f = f a"
  by (simp add: fun_eq_iff io_defs)

lemma bnd_panic [simp]: "bnd (panic p) f = panic p"
  by (simp add: fun_eq_iff io_defs)

lemma bnd_ret_right [simp]: "bnd m ret = m"
  by (simp add: fun_eq_iff io_defs split: prod.splits go.splits)

lemma bnd_assoc: "bnd (bnd m f) g = bnd m (\<lambda>a. bnd (f a) g)"
  by (simp add: fun_eq_iff io_defs split: prod.splits go.splits)

lemma bnd_call [simp]: "bnd (call e h) f E t = f (h E t) E (e # t)"
  by (simp add: io_defs)

lemma ret_app [simp]: "ret a E t = (Ret a, t)"
  by (simp add: ret_def)

lemma panic_app [simp]: "panic p E t = (Panic p, t)"
  by (simp add: panic_def)

lemma call_app [simp]: "call e h E t = (Ret (h E t), e # t)"
  by (simp add: call_def)

text \<open>The same with \<^const>\<open>ret\<close> and \<^const>\<open>panic\<close> already applied.\<close>

lemma bnd_Pair [simp]:
  "bnd (\<lambda>E. Pair (Ret a)) f = f a" "bnd (\<lambda>E. Pair (Panic p)) f = (\<lambda>E. Pair (Panic p))"
  by (simp_all add: fun_eq_iff bnd_def)

lemma bnd_cases:
  obtains (Ret) a t' where "m E t = (Ret a, t')" and "bnd m f E t = f a E t'"
    | (Panic) p t' where "m E t = (Panic p, t')" and "bnd m f E t = (Panic p, t')"
proof -
  obtain g t' where m: "m E t = (g, t')" by (cases "m E t")
  show thesis
  proof (cases g)
    case (Ret a)
    with m show thesis by (intro that(1)) (auto simp: bnd_def)
  next
    case (Panic p)
    with m show thesis by (intro that(2)) (auto simp: bnd_def)
  qed
qed

lemma bnd_RetE:
  assumes "bnd m f E t = (Ret b, t')"
  obtains a t1 where "m E t = (Ret a, t1)" and "f a E t1 = (Ret b, t')"
proof (cases rule: bnd_cases [of m E t f])
  case (Ret a t1)
  then show thesis using assms that by simp
next
  case (Panic p t1)
  then show thesis using assms by simp
qed

subsection \<open>Which calls a computation makes\<close>

text \<open>
  \<open>emits Q m\<close>: whatever the environment answers, the history only grows, and only by calls
  that satisfy \<open>Q\<close>. Panicking runs are included.
\<close>

definition emits :: "(event \<Rightarrow> bool) \<Rightarrow> 'a io \<Rightarrow> bool" where
  "emits Q m \<longleftrightarrow> (\<forall>E t. \<exists>es. snd (m E t) = es @ t \<and> (\<forall>e \<in> set es. Q e))"

lemma emits_ret [emit_intros]: "emits Q (ret a)"
  by (simp add: emits_def)

lemma emits_panic [emit_intros]: "emits Q (panic p)"
  by (simp add: emits_def)

lemma emits_call: "emits Q (call e f) \<longleftrightarrow> Q e"
  by (simp add: emits_def)

lemma emits_bnd [emit_intros]:
  assumes m: "emits Q m" and f: "\<And>a. emits Q (f a)"
  shows "emits Q (bnd m f)"
  unfolding emits_def
proof (intro allI)
  fix E t
  obtain es where es: "snd (m E t) = es @ t" "\<forall>e \<in> set es. Q e"
    using m unfolding emits_def by blast
  show "\<exists>es. snd (bnd m f E t) = es @ t \<and> (\<forall>e \<in> set es. Q e)"
  proof (cases rule: bnd_cases [of m E t f])
    case (Ret a t')
    obtain fs where "snd (f a E t') = fs @ t'" "\<forall>e \<in> set fs. Q e"
      using f unfolding emits_def by blast
    with Ret es show ?thesis by (intro exI [of _ "fs @ es"]) auto
  next
    case (Panic p t')
    with es show ?thesis by (intro exI [of _ es]) auto
  qed
qed

lemma emits_if [emit_intros]:
  "(b \<Longrightarrow> emits Q m) \<Longrightarrow> (\<not> b \<Longrightarrow> emits Q n) \<Longrightarrow> emits Q (if b then m else n)"
  by simp

lemma emits_option [emit_intros]:
  "(x = None \<Longrightarrow> emits Q m) \<Longrightarrow> (\<And>a. x = Some a \<Longrightarrow> emits Q (f a)) \<Longrightarrow>
     emits Q (case x of None \<Rightarrow> m | Some a \<Rightarrow> f a)"
  by (cases x) auto

lemma emits_sum [emit_intros]:
  "(\<And>a. x = Inl a \<Longrightarrow> emits Q (f a)) \<Longrightarrow> (\<And>b. x = Inr b \<Longrightarrow> emits Q (g b)) \<Longrightarrow>
     emits Q (case x of Inl a \<Rightarrow> f a | Inr b \<Rightarrow> g b)"
  by (cases x) auto

lemma emits_prod [emit_intros]:
  "(\<And>a b. x = (a, b) \<Longrightarrow> emits Q (f a b)) \<Longrightarrow> emits Q (case x of (a, b) \<Rightarrow> f a b)"
  by (cases x) auto

lemma emits_list [emit_intros]:
  "(x = [] \<Longrightarrow> emits Q m) \<Longrightarrow> (\<And>a b. x = a # b \<Longrightarrow> emits Q (f a b)) \<Longrightarrow>
     emits Q (case x of [] \<Rightarrow> m | a # b \<Rightarrow> f a b)"
  by (cases x) auto

lemma emits_Let [emit_intros]: "emits Q (f a) \<Longrightarrow> emits Q (let x = a in f x)"
  by simp

lemma emits_attempt [emit_intros]:
  "emits Q m \<Longrightarrow> (\<And>a. emits Q (f a)) \<Longrightarrow> emits Q (attempt m f)"
  unfolding attempt_def by (intro emit_intros)

lemma emits_check [emit_intros]: "emits Q m \<Longrightarrow> emits Q k \<Longrightarrow> emits Q (check m k)"
  unfolding check_def by (intro emit_intros)

lemma emits_wrap [emit_intros]:
  "emits Q m \<Longrightarrow> emits Q (wrap_err s m)" "emits Q n \<Longrightarrow> emits Q (wrap_res s n)"
  unfolding wrap_err_def wrap_res_def by (intro emit_intros; assumption)+

lemma emits_newRequest [emit_intros]: "emits Q (newRequest m u b)"
  by (simp add: emits_def newRequest_def)

lemma emits_slice8 [emit_intros]: "emits Q (slice8 s)"
  unfolding slice8_def by (intro emit_intros)

lemma emits_mono: "emits P m \<Longrightarrow> (\<And>e. P e \<Longrightarrow> Q e) \<Longrightarrow> emits Q m"
  unfolding emits_def by meson

lemma emits_trace:
  assumes "emits Q m" and "m E t = (r, t')"
  obtains es where "t' = es @ t" and "\<forall>e \<in> set es. Q e"
  using assms unfolding emits_def by (metis snd_conv)

text \<open>The calls of one run, the latest first.\<close>

definition calls :: "'a io \<Rightarrow> env \<Rightarrow> trace \<Rightarrow> trace" where
  "calls m E t = (let t' = snd (m E t) in take (length t' - length t) t')"

lemma calls_eq: "snd (m E t) = es @ t \<Longrightarrow> calls m E t = es"
  by (simp add: calls_def)

lemma emits_calls: "emits Q m \<Longrightarrow> e \<in> set (calls m E t) \<Longrightarrow> Q e"
  unfolding emits_def by (metis calls_eq)

definition is_sleep :: "event \<Rightarrow> bool" where
  "is_sleep e \<longleftrightarrow> (\<exists>d. e = Sleep d)"

subsection \<open>Returning without a panic\<close>

text \<open>\<open>wp m Q E t\<close>: run in \<open>E\<close> from \<open>t\<close>, \<open>m\<close> returns (no panic) a value that satisfies \<open>Q\<close>.\<close>

definition wp :: "'a io \<Rightarrow> ('a \<Rightarrow> trace \<Rightarrow> bool) \<Rightarrow> env \<Rightarrow> trace \<Rightarrow> bool" where
  "wp m Q E t = (case m E t of (Ret a, t') \<Rightarrow> Q a t' | (Panic p, t') \<Rightarrow> False)"

lemma wp_ret [simp]: "wp (ret a) Q E t = Q a t"
  by (simp add: wp_def)

lemma wp_panic [simp]: "wp (panic p) Q E t = False"
  by (simp add: wp_def)

lemma wp_call [simp]: "wp (call e f) Q E t = Q (f E t) (e # t)"
  by (simp add: wp_def)

lemma wp_bnd [simp]: "wp (bnd m f) Q E t = wp m (\<lambda>a t'. wp (f a) Q E t') E t"
  by (simp add: wp_def bnd_def split: prod.splits go.splits)

lemma wp_attempt [simp]:
  "wp (attempt m f) Q E t =
     wp m (\<lambda>r t'. case r of Inl e \<Rightarrow> Q (Inl e) t' | Inr a \<Rightarrow> wp (f a) Q E t') E t"
  by (simp add: attempt_def wp_def bnd_def split: prod.splits go.splits sum.splits)

lemma wp_check [simp]:
  "wp (check m k) Q E t =
     wp m (\<lambda>r t'. case r of Some e \<Rightarrow> Q (Some e) t' | None \<Rightarrow> wp k Q E t') E t"
  by (simp add: check_def wp_def bnd_def split: prod.splits go.splits option.splits)

lemma wp_wrap_err [simp]: "wp (wrap_err s m) Q E t = wp m (\<lambda>r. Q (map_option (errorf s) r)) E t"
  by (simp add: wrap_err_def)

lemma wp_wrap_res [simp]:
  "wp (wrap_res s m) Q E t =
     wp m (\<lambda>r. Q (case r of Inl e \<Rightarrow> Inl (errorf s e) | Inr a \<Rightarrow> Inr a)) E t"
  by (simp add: wrap_res_def)

lemma wp_slice8 [simp]: "wp (slice8 s) Q E t = (8 \<le> length s \<and> Q (take 8 s) t)"
  by (simp add: slice8_def slice_to_def)

lemma wp_newRequest [simp]:
  "wp (newRequest m u b) Q E t = Q (case x_url E u of Some e \<Rightarrow> Inl e
     | None \<Rightarrow> Inr \<lparr>Method = m, URL = u, Header = [], ReqBody = b\<rparr>) t"
  by (simp add: wp_def newRequest_def)

lemma wp_mono: "wp m P E t \<Longrightarrow> (\<And>a t'. P a t' \<Longrightarrow> Q a t') \<Longrightarrow> wp m Q E t"
  by (auto simp: wp_def split: prod.splits go.splits)

lemma wp_result: "m E t = (r, t') \<Longrightarrow> wp m Q E t = (\<exists>a. r = Ret a \<and> Q a t')"
  by (auto simp: wp_def split: go.splits)

definition returns :: "'a io \<Rightarrow> bool" where
  "returns m \<longleftrightarrow> (\<forall>E t. wp m (\<lambda>_ _. True) E t)"

lemma returnsD: "returns m \<Longrightarrow> (\<And>a t'. Q a t') \<Longrightarrow> wp m Q E t"
  unfolding returns_def by (meson wp_mono)

lemma returns_obtain:
  assumes "returns m"
  obtains a t' where "m E t = (Ret a, t')"
  using assms unfolding returns_def wp_def
  by (metis (mono_tags, lifting) case_prod_conv go.exhaust go.simps(6) surj_pair)

lemma returns_ret [simp]: "returns (ret a)"
  by (simp add: returns_def)

lemma returns_Pair [simp]: "returns (\<lambda>E. Pair (Ret a))"
  by (simp add: returns_def wp_def)

lemma returns_call [simp]: "returns (call e f)"
  by (simp add: returns_def)

lemma returns_bnd: "returns m \<Longrightarrow> (\<And>a. returns (f a)) \<Longrightarrow> returns (bnd m f)"
  by (simp add: returns_def)

lemma returns_split:
  "(b \<Longrightarrow> returns m) \<Longrightarrow> (\<not> b \<Longrightarrow> returns n) \<Longrightarrow> returns (if b then m else n)"
  "(x = None \<Longrightarrow> returns m) \<Longrightarrow> (\<And>a. x = Some a \<Longrightarrow> returns (f a)) \<Longrightarrow>
     returns (case x of None \<Rightarrow> m | Some a \<Rightarrow> f a)"
  "(\<And>a. y = Inl a \<Longrightarrow> returns (g a)) \<Longrightarrow> (\<And>b. y = Inr b \<Longrightarrow> returns (h b)) \<Longrightarrow>
     returns (case y of Inl a \<Rightarrow> g a | Inr b \<Rightarrow> h b)"
  "(\<And>a b. z = (a, b) \<Longrightarrow> returns (k a b)) \<Longrightarrow> returns (case z of (a, b) \<Rightarrow> k a b)"
  by (auto split: option.splits sum.splits prod.splits)

lemma returns_check: "returns m \<Longrightarrow> returns k \<Longrightarrow> returns (check m k)"
  unfolding check_def by (intro returns_bnd) (auto split: option.splits)

lemma returns_attempt: "returns m \<Longrightarrow> (\<And>a. returns (f a)) \<Longrightarrow> returns (attempt m f)"
  unfolding attempt_def by (intro returns_bnd) (auto split: sum.splits)

lemma returns_wrap: "returns m \<Longrightarrow> returns (wrap_err s m)" "returns n \<Longrightarrow> returns (wrap_res s n)"
  unfolding wrap_err_def wrap_res_def by (auto intro: returns_bnd)

lemma returns_newRequest [simp]: "returns (newRequest m u b)"
  by (simp add: returns_def)

section \<open>A concrete environment\<close>

text \<open>
  An environment in which nothing is reachable and the clock stands still, as a base for
  concrete runs.
\<close>

definition dead_env :: env where
  "dead_env = \<lparr>x_now = (\<lambda>t. 0), x_ctx_done = (\<lambda>t. False), x_redis_ping = (\<lambda>t. Some ''refused''),
     x_redis_info = (\<lambda>t s. Inl ''refused''), x_redis_do = (\<lambda>t a. Some ''refused''),
     x_redis_close = (\<lambda>t. None), x_pod_get = (\<lambda>t ns n. Inl ''not found''),
     x_pod_list = (\<lambda>t ns s. Inl ''refused''), x_pod_update = (\<lambda>t ns p. Some ''refused''),
     x_svc_list = (\<lambda>t ns. Inl ''refused''), x_url = (\<lambda>u. None),
     x_http = (\<lambda>t r. Inl ''refused''), x_http_shutdown = (\<lambda>t. None),
     x_raft_setup = (\<lambda>t s. None), x_raft_last_index = (\<lambda>t. 0),
     x_raft_state = (\<lambda>t. Follower), x_raft_leader = (\<lambda>t. ([], [])),
     x_raft_configuration = (\<lambda>t. Inr []), x_raft_bootstrap = (\<lambda>t s. None),
     x_raft_add = (\<lambda>t s i a. None), x_raft_shutdown = (\<lambda>t. None)\<rparr>"

lemma dead_env_simps [simp]:
  "x_now dead_env t = 0" "x_ctx_done dead_env t = False" "x_redis_ping dead_env t = Some ''refused''"
  "x_redis_info dead_env t s = Inl ''refused''" "x_redis_do dead_env t a = Some ''refused''"
  "x_pod_get dead_env t ns n = Inl ''not found''" "x_pod_list dead_env t ns s = Inl ''refused''"
  "x_pod_update dead_env t ns p = Some ''refused''" "x_svc_list dead_env t ns = Inl ''refused''"
  "x_url dead_env u = None" "x_http dead_env t r = Inl ''refused''"
  "x_raft_setup dead_env t st = None" "x_raft_last_index dead_env t = 0"
  "x_raft_state dead_env t = Follower" "x_raft_leader dead_env t = ([], [])"
  "x_raft_configuration dead_env t = Inr []" "x_raft_bootstrap dead_env t ss = None"
  "x_raft_add dead_env t su i ad = None" "x_raft_shutdown dead_env t = None"
  by (simp_all add: dead_env_def)

end
