(* ===== verification/Election.thy ===== *)
theory Election
  imports Go_IO
begin

text \<open>
  Pod states (\<^verbatim>\<open>pkg/orchestrator/state/state.go\<close>) and the deterministic election
  (\<^verbatim>\<open>pkg/election/deterministic.go\<close>): the order of pods by start time, name and UID, the call of
  \<^verbatim>\<open>sort.Slice\<close> with it, and the strategy object that remembers the last winner.
\<close>

section \<open>Pod states\<close>

record pod_state =
  PodName :: string
  PodIP :: string
  PodUID :: string
  Namespace :: string
  IsMaster :: bool
  IsHealthy :: bool
  IsWitness :: bool
  StartupTime :: instant
  LastSeen :: instant

section \<open>The election order\<close>

definition pod_less :: "pod_state \<Rightarrow> pod_state \<Rightarrow> bool" where
  "pod_less a b =
     (if StartupTime a = StartupTime b
      then (if PodName a = PodName b then PodUID a < PodUID b else PodName a < PodName b)
      else StartupTime a < StartupTime b)"

text \<open>What the order compares, as a type of its own with a linear order.\<close>

datatype rank = Rank (rank_time: instant) (rank_name: string) (rank_uid: string)

instantiation rank :: linorder
begin

fun less_rank :: "rank \<Rightarrow> rank \<Rightarrow> bool" where
  "less_rank (Rank t n u) (Rank t' n' u') \<longleftrightarrow> t < t' \<or> t = t' \<and> (n < n' \<or> n = n' \<and> u < u')"

definition less_eq_rank :: "rank \<Rightarrow> rank \<Rightarrow> bool" where
  "less_eq_rank a b \<longleftrightarrow> a = b \<or> a < b"

instance
proof
  fix a b c :: rank
  show "(a < b) = (a \<le> b \<and> \<not> b \<le> a)"
    by (cases a; cases b) (auto simp: less_eq_rank_def)
  show "a \<le> a" by (simp add: less_eq_rank_def)
  show "a \<le> b \<Longrightarrow> b \<le> c \<Longrightarrow> a \<le> c"
    by (cases a; cases b; cases c) (auto simp: less_eq_rank_def)
  show "a \<le> b \<Longrightarrow> b \<le> a \<Longrightarrow> a = b"
    by (cases a; cases b) (auto simp: less_eq_rank_def)
  show "a \<le> b \<or> b \<le> a"
    by (cases a; cases b) (auto simp: less_eq_rank_def)
qed

end

definition rank_of :: "pod_state \<Rightarrow> rank" where
  "rank_of p = Rank (StartupTime p) (PodName p) (PodUID p)"

lemma pod_less_rank: "pod_less a b \<longleftrightarrow> rank_of a < rank_of b"
  by (auto simp: pod_less_def rank_of_def)

lemma rank_of_eq_uid: "rank_of a = rank_of b \<Longrightarrow> PodUID a = PodUID b"
  by (simp add: rank_of_def)

section \<open>sort.Slice\<close>

text \<open>
  The insertion sort that \<^verbatim>\<open>sort.Slice\<close> runs on short slices: each element moves left past
  its predecessors while it is less than them. The sorted prefix is kept reversed.
\<close>

fun sink :: "('a \<Rightarrow> 'a \<Rightarrow> bool) \<Rightarrow> 'a \<Rightarrow> 'a list \<Rightarrow> 'a list" where
  "sink lt x [] = [x]"
| "sink lt x (y # ys) = (if lt x y then y # sink lt x ys else x # y # ys)"

definition sort_slice :: "('a \<Rightarrow> 'a \<Rightarrow> bool) \<Rightarrow> 'a list \<Rightarrow> 'a list" where
  "sort_slice lt xs = rev (foldl (\<lambda>r x. sink lt x r) [] xs)"

lemma mset_sink [simp]: "mset (sink lt x ys) = add_mset x (mset ys)"
  by (induction lt x ys rule: sink.induct) auto

lemma set_sink [simp]: "set (sink lt x ys) = insert x (set ys)"
  by (induction lt x ys rule: sink.induct) auto

lemma mset_sort_slice: "mset (sort_slice lt xs) = mset xs"
proof -
  have "mset (foldl (\<lambda>r x. sink lt x r) r xs) = mset r + mset xs" for r
    by (induction xs arbitrary: r) auto
  then show ?thesis by (simp add: sort_slice_def)
qed

text \<open>
  What callers of \<^verbatim>\<open>sort.Slice\<close> may rely on, for a comparison given by a key: a permutation in
  which no element is less than an earlier one. Stability is not promised, and nothing
  below uses it.
\<close>

locale sort_contract =
  fixes lt :: "'a \<Rightarrow> 'a \<Rightarrow> bool" and key :: "'a \<Rightarrow> 'k::linorder"
    and srt :: "'a list \<Rightarrow> 'a list"
  assumes lt_key: "lt a b \<longleftrightarrow> key a < key b"
    and perm: "mset (srt xs) = mset xs"
    and ordered: "sorted_wrt (\<lambda>a b. \<not> lt b a) (srt xs)"
begin

lemma set_srt [simp]: "set (srt xs) = set xs"
  by (metis perm set_mset_mset)

lemma length_srt [simp]: "length (srt xs) = length xs"
  by (metis perm size_mset)

lemma srt_Nil_iff [simp]: "srt xs = [] \<longleftrightarrow> xs = []"
  by (metis length_0_conv length_srt)

lemma sorted_keys: "sorted (map key (srt xs))"
  using ordered [of xs] by (simp add: sorted_wrt_map lt_key not_less)

lemma first_in: "srt xs = y # ys \<Longrightarrow> y \<in> set xs"
  by (metis list.set_intros(1) set_srt)

lemma first_least: "srt xs = y # ys \<Longrightarrow> x \<in> set xs \<Longrightarrow> key y \<le> key x"
  using sorted_keys [of xs] set_srt [of xs] by auto

lemma first_key_Min: "srt xs = y # ys \<Longrightarrow> key y = Min (key ` set xs)"
  by (rule Min_eqI [symmetric]) (auto dest: first_in first_least)

lemma keys_unique: "mset xs = mset ys \<Longrightarrow> map key (srt xs) = map key (srt ys)"
proof -
  assume "mset xs = mset ys"
  then have "mset (map key (srt xs)) = mset (map key (srt ys))" by (simp add: perm)
  then have "sort (map key (srt ys)) = map key (srt xs)"
    by (rule properties_for_sort) (rule sorted_keys)
  then show ?thesis by (simp add: sorted_keys sorted_sort_id)
qed

end

lemma sorted_sink:
  assumes key: "\<And>a b. lt a b \<longleftrightarrow> key a < (key b :: 'k::linorder)"
    and "sorted_wrt (\<lambda>a b. key b \<le> key a) ys"
  shows "sorted_wrt (\<lambda>a b. key b \<le> key a) (sink lt x ys)"
  using assms(2) by (induction ys) (auto simp: key not_less)

lemma sorted_sort_slice:
  assumes key: "\<And>a b. lt a b \<longleftrightarrow> key a < (key b :: 'k::linorder)"
  shows "sorted_wrt (\<lambda>a b. \<not> lt b a) (sort_slice lt xs)"
proof -
  have "sorted_wrt (\<lambda>a b. key b \<le> key a) (foldl (\<lambda>r x. sink lt x r) r xs)"
    if "sorted_wrt (\<lambda>a b. key b \<le> key a) r" for r
    using that
  proof (induction xs arbitrary: r)
    case (Cons x xs)
    then show ?case by (simp add: sorted_sink [OF key])
  qed simp
  then show ?thesis by (simp add: sort_slice_def sorted_wrt_rev key not_less)
qed

interpretation pods: sort_contract pod_less rank_of "sort_slice pod_less"
  by unfold_locales (rule pod_less_rank mset_sort_slice sorted_sort_slice [OF pod_less_rank])+

section \<open>DeterministicStrategy\<close>

record det_strategy =
  det_localPodName :: string
  det_localPodUID :: string
  det_debug :: bool
  det_currentLeader :: "pod_state option"

definition NewDeterministicStrategy :: "string \<Rightarrow> string \<Rightarrow> bool \<Rightarrow> det_strategy" where
  "NewDeterministicStrategy name uid dbg =
     \<lparr>det_localPodName = name, det_localPodUID = uid, det_debug = dbg, det_currentLeader = None\<rparr>"

definition det_Start :: "det_strategy \<Rightarrow> gerror io" where
  "det_Start d = ret None"

definition det_Stop :: "det_strategy \<Rightarrow> gerror io" where
  "det_Stop d = ret None"

definition det_IsLeader :: "det_strategy \<Rightarrow> bool" where
  "det_IsLeader d =
     (case det_currentLeader d of None \<Rightarrow> False | Some l \<Rightarrow> PodUID l = det_localPodUID d)"

definition det_GetLeader :: "det_strategy \<Rightarrow> (string \<times> string) res" where
  "det_GetLeader d =
     (case det_currentLeader d of
        None \<Rightarrow> Inl ''no leader elected''
      | Some l \<Rightarrow> Inr (PodName l, PodUID l))"

text \<open>
  \<^verbatim>\<open>getElectionReason\<close>, with the formatted message kept as its arguments. The last case
  takes \<^verbatim>\<open>PodUID[:8]\<close> of both pods, which panics on a shorter UID.
\<close>

datatype reason =
    OnlyCandidate | OldestStartup instant instant | NameTie string string | UidTie string string

definition getElectionReason :: "pod_state list \<Rightarrow> reason io" where
  "getElectionReason sortedStates =
     (case sortedStates of
        elected # runner # _ \<Rightarrow>
          if StartupTime elected \<noteq> StartupTime runner
          then ret (OldestStartup (StartupTime elected) (StartupTime runner))
          else if PodName elected \<noteq> PodName runner
          then ret (NameTie (PodName elected) (PodName runner))
          else bnd (slice8 (PodUID elected)) (\<lambda>a.
               bnd (slice8 (PodUID runner)) (\<lambda>b. ret (UidTie a b)))
      | _ \<Rightarrow> ret OnlyCandidate)"

text \<open>The debug log of the winner: the reason is computed (and may panic), then discarded.\<close>

definition log_reason :: "bool \<Rightarrow> pod_state list \<Rightarrow> unit io" where
  "log_reason dbg xs = (if dbg then bnd (getElectionReason xs) (\<lambda>_. ret ()) else ret ())"

text \<open>
  \<^verbatim>\<open>ElectLeader\<close> sorts the caller's slice in place; the sorted slice is part of the result.
\<close>

definition det_ElectLeader ::
  "det_strategy \<Rightarrow> pod_state list \<Rightarrow> pod_state \<Rightarrow>
     (det_strategy \<times> pod_state list \<times> pod_state res) io" where
  "det_ElectLeader d allStates localState =
     (case sort_slice pod_less allStates of
        [] \<Rightarrow> ret (d, allStates, Inl ''no healthy pods available for election'')
      | elected # rest \<Rightarrow>
          bnd (log_reason (det_debug d) (elected # rest)) (\<lambda>_.
          ret (d\<lparr>det_currentLeader := Some elected\<rparr>, elected # rest, Inr elected)))"

definition det_Name :: string where
  "det_Name = ''deterministic''"

definition uids8 :: "pod_state list \<Rightarrow> bool" where
  "uids8 xs \<longleftrightarrow> (\<forall>p \<in> set xs. 8 \<le> length (PodUID p))"

lemma wp_getElectionReason:
  "uids8 xs \<Longrightarrow> (\<And>r. Q r t) \<Longrightarrow> wp (getElectionReason xs) Q E t"
  by (auto simp: getElectionReason_def uids8_def split: list.splits)

lemma wp_log_reason: "dbg \<longrightarrow> uids8 xs \<Longrightarrow> Q () t \<Longrightarrow> wp (log_reason dbg xs) Q E t"
  by (auto simp: log_reason_def intro: wp_getElectionReason)

lemma emits_getElectionReason [emit_intros]: "emits Q (getElectionReason xs)"
  unfolding getElectionReason_def
  by (auto split: list.splits intro!: emit_intros)

lemma emits_log_reason [emit_intros]: "emits Q (log_reason dbg xs)"
  unfolding log_reason_def by (intro emit_intros)

lemma log_reason_off [simp]: "log_reason False xs = ret ()"
  by (simp add: log_reason_def)

lemma log_reason_trace [simp]: "snd (log_reason dbg xs E t) = t"
  by (auto simp: log_reason_def getElectionReason_def slice8_def slice_to_def bnd_def
      split: list.splits)

section \<open>Properties\<close>

lemma det_ElectLeader_runs:
  assumes "sort_slice pod_less xs = e # ys" and "det_debug d \<longrightarrow> uids8 xs"
  shows "det_ElectLeader d xs l E t = (Ret (d\<lparr>det_currentLeader := Some e\<rparr>, e # ys, Inr e), t)"
proof -
  have "set (e # ys) = set xs" using pods.set_srt [of xs] unfolding assms(1) .
  then have "det_debug d \<longrightarrow> uids8 (e # ys)" using assms(2) by (simp add: uids8_def)
  then have "wp (log_reason (det_debug d) (e # ys)) (\<lambda>_ t'. t' = t) E t"
    by (rule wp_log_reason) simp
  then show ?thesis
    using assms(1) by (auto simp: det_ElectLeader_def bnd_def wp_def split: prod.splits go.splits)
qed

text \<open>
  C11. An election among at least one candidate succeeds without outside calls: it elects a
  candidate of least rank (oldest start, then name, then UID), leaves the caller's slice
  sorted, and afterwards the strategy reports exactly that winner, to itself as leader
  exactly when the winner has its UID.
\<close>

theorem elected_is_least:
  assumes "xs \<noteq> []" and "det_debug d \<longrightarrow> uids8 xs"
  shows "\<exists>e d' ys. det_ElectLeader d xs l E t = (Ret (d', ys, Inr e), t) \<and>
     e \<in> set xs \<and> (\<forall>p \<in> set xs. rank_of e \<le> rank_of p) \<and>
     mset ys = mset xs \<and> sorted (map rank_of ys) \<and>
     det_GetLeader d' = Inr (PodName e, PodUID e) \<and>
     (det_IsLeader d' \<longleftrightarrow> PodUID e = det_localPodUID d)"
proof -
  obtain e ys where s: "sort_slice pod_less xs = e # ys"
    using assms(1) pods.srt_Nil_iff [of xs] by (cases "sort_slice pod_less xs") auto
  show ?thesis
    using det_ElectLeader_runs [OF s assms(2), of l E t] pods.first_in [OF s]
      pods.first_least [OF s] pods.sorted_keys [of xs] pods.perm [of xs]
    by (intro exI) (auto simp: s det_GetLeader_def det_IsLeader_def)
qed

definition demo_pod :: "string \<Rightarrow> instant \<Rightarrow> bool \<Rightarrow> pod_state" where
  "demo_pod name start master = \<lparr>PodName = name, PodIP = ''10.0.0.1'', PodUID = ''uid-of-'' @ name,
     Namespace = ''default'', IsMaster = master, IsHealthy = True, IsWitness = False,
     StartupTime = start, LastSeen = 0\<rparr>"

definition demo_strategy :: det_strategy where
  "demo_strategy = NewDeterministicStrategy ''redis-1'' ''uid-of-redis-1'' True"

theorem elected_is_least_witness:
  "\<exists>e d' ys. det_ElectLeader demo_strategy [demo_pod ''redis-0'' 7 False, demo_pod ''redis-1'' 5 False]
       (demo_pod ''redis-1'' 5 False) dead_env [] = (Ret (d', ys, Inr e), []) \<and>
     e \<in> set [demo_pod ''redis-0'' 7 False, demo_pod ''redis-1'' 5 False] \<and>
     (\<forall>p \<in> set [demo_pod ''redis-0'' 7 False, demo_pod ''redis-1'' 5 False]. rank_of e \<le> rank_of p) \<and>
     mset ys = mset [demo_pod ''redis-0'' 7 False, demo_pod ''redis-1'' 5 False] \<and>
     sorted (map rank_of ys) \<and> det_GetLeader d' = Inr (PodName e, PodUID e) \<and>
     (det_IsLeader d' \<longleftrightarrow> PodUID e = det_localPodUID demo_strategy)"
  by (rule elected_is_least) (simp_all add: uids8_def demo_pod_def)

text \<open>
  C12. Two pods that hold the same candidates, in whatever order their maps deliver them, elect
  the same pod, provided that UIDs tell the candidates apart.
\<close>

theorem election_agreement:
  assumes "mset xs = mset ys" and "xs \<noteq> []" and "inj_on PodUID (set xs)"
    and "det_debug d \<longrightarrow> uids8 xs" and "det_debug d' \<longrightarrow> uids8 ys"
  shows "\<exists>e. fst (det_ElectLeader d xs l E t) =
       Ret (d\<lparr>det_currentLeader := Some e\<rparr>, sort_slice pod_less xs, Inr e) \<and>
     fst (det_ElectLeader d' ys l' E' t') =
       Ret (d'\<lparr>det_currentLeader := Some e\<rparr>, sort_slice pod_less ys, Inr e)"
proof -
  obtain e xs' where x: "sort_slice pod_less xs = e # xs'"
    using assms(2) pods.srt_Nil_iff [of xs] by (cases "sort_slice pod_less xs") auto
  have "ys \<noteq> []" using assms(1,2) by auto
  then obtain e' ys' where y: "sort_slice pod_less ys = e' # ys'"
    using pods.srt_Nil_iff [of ys] by (cases "sort_slice pod_less ys") auto
  have "rank_of e = rank_of e'" using pods.keys_unique [OF assms(1)] by (simp add: x y)
  then have "PodUID e = PodUID e'" by (rule rank_of_eq_uid)
  moreover have "e \<in> set xs" "e' \<in> set xs"
    using pods.first_in [OF x] pods.first_in [OF y] mset_eq_setD [OF assms(1)] by auto
  ultimately have "e = e'" using assms(3) by (simp add: inj_on_def)
  then show ?thesis
    using det_ElectLeader_runs [OF x assms(4)] det_ElectLeader_runs [OF y assms(5)] x y by auto
qed

theorem election_agreement_witness:
  "\<exists>e. fst (det_ElectLeader demo_strategy [demo_pod ''a'' 7 False, demo_pod ''b'' 7 True]
         (demo_pod ''a'' 7 False) dead_env []) =
       Ret (demo_strategy\<lparr>det_currentLeader := Some e\<rparr>,
         sort_slice pod_less [demo_pod ''a'' 7 False, demo_pod ''b'' 7 True], Inr e) \<and>
     fst (det_ElectLeader demo_strategy [demo_pod ''b'' 7 True, demo_pod ''a'' 7 False]
         (demo_pod ''b'' 7 True) dead_env []) =
       Ret (demo_strategy\<lparr>det_currentLeader := Some e\<rparr>,
         sort_slice pod_less [demo_pod ''b'' 7 True, demo_pod ''a'' 7 False], Inr e)"
  by (rule election_agreement) (simp_all add: uids8_def demo_pod_def)

text \<open>
  With debug logging, an election panics exactly when the two best candidates started at
  the same instant under the same name and one of their UIDs is shorter than the eight
  characters the log message takes of it.
\<close>

lemma debug_election_panic:
  assumes "det_debug d" and "sort_slice pod_less xs = a # b # rest"
  shows "(\<exists>p. fst (det_ElectLeader d xs l E t) = Panic p) \<longleftrightarrow>
     StartupTime a = StartupTime b \<and> PodName a = PodName b \<and>
     (length (PodUID a) < 8 \<or> length (PodUID b) < 8)"
  using assms
  by (auto simp: det_ElectLeader_def log_reason_def getElectionReason_def slice8_def slice_to_def
      bnd_assoc)

end
