(* ===== verification/Crypto.thy ===== *)
theory Crypto
  imports Go_Base
begin

text \<open>
  What \<^verbatim>\<open>auth.go\<close> uses of \<^verbatim>\<open>crypto/sha256\<close>, \<^verbatim>\<open>crypto/hmac\<close> and \<^verbatim>\<open>encoding/hex\<close>: SHA-256
  (FIPS 180-4), HMAC with a 64-byte block (FIPS 198-1), lower-case hexadecimal.
\<close>

unbundle bit_operations_syntax

type_synonym byte = "8 word"
type_synonym w32 = "32 word"

definition bytes_of :: "string \<Rightarrow> byte list" where
  "bytes_of s = map (\<lambda>c. word_of_nat (of_char c)) s"

section \<open>SHA-256\<close>

text \<open>
  The constants of the standard are the first 32 bits of the fractional parts of the cube
  roots of the first 64 primes and of the square roots of the first eight. \<open>iroot k n b r\<close>
  finds the remaining \<open>b\<close> bits of an integer \<open>k\<close>-th root of \<open>n\<close>, most significant first.
\<close>

fun iroot :: "nat \<Rightarrow> int \<Rightarrow> nat \<Rightarrow> int \<Rightarrow> int" where
  "iroot k n 0 r = r"
| "iroot k n (Suc b) r = iroot k n b (if (r + 2 ^ b) ^ k \<le> n then r + 2 ^ b else r)"

lemma iroot_bounds:
  "r ^ k \<le> n \<Longrightarrow> n < (r + 2 ^ b) ^ k \<Longrightarrow> iroot k n b r ^ k \<le> n \<and> n < (iroot k n b r + 1) ^ k"
proof (induction k n b r rule: iroot.induct)
  case (2 k n b r)
  then show ?case by (simp add: add.assoc)
qed simp

definition primes :: "int \<Rightarrow> int list" where
  "primes m = filter (\<lambda>p. list_all (\<lambda>d. p mod d \<noteq> 0) [2..p - 1]) [2..m]"

definition root_fraction :: "nat \<Rightarrow> int \<Rightarrow> w32" where
  "root_fraction k p = word_of_int (iroot k (p * 2 ^ (32 * k)) 40 0)"

definition sha_k :: "w32 list" where
  "sha_k = map (root_fraction 3) (primes 311)"

datatype sha_state = Sha w32 w32 w32 w32 w32 w32 w32 w32

definition sha_init :: sha_state where
  "sha_init = (let r = root_fraction 2 in Sha (r 2) (r 3) (r 5) (r 7) (r 11) (r 13) (r 17) (r 19))"

definition rotr :: "nat \<Rightarrow> w32 \<Rightarrow> w32" where
  "rotr n x = drop_bit n x OR push_bit (32 - n) x"

definition Sigma0 :: "w32 \<Rightarrow> w32" where
  "Sigma0 x = rotr 2 x XOR rotr 13 x XOR rotr 22 x"

definition Sigma1 :: "w32 \<Rightarrow> w32" where
  "Sigma1 x = rotr 6 x XOR rotr 11 x XOR rotr 25 x"

definition sigma0 :: "w32 \<Rightarrow> w32" where
  "sigma0 x = rotr 7 x XOR rotr 18 x XOR drop_bit 3 x"

definition sigma1 :: "w32 \<Rightarrow> w32" where
  "sigma1 x = rotr 17 x XOR rotr 19 x XOR drop_bit 10 x"

fun sha_round :: "sha_state \<Rightarrow> w32 \<times> w32 \<Rightarrow> sha_state" where
  "sha_round (Sha a b c d e f g h) (k, w) =
     (let t1 = h + Sigma1 e + ((e AND f) XOR (NOT e AND g)) + k + w;
          t2 = Sigma0 a + ((a AND b) XOR (a AND c) XOR (b AND c))
      in Sha (t1 + t2) a b c (d + t1) e f g)"

text \<open>The message schedule, newest word first.\<close>

fun schedule :: "nat \<Rightarrow> w32 list \<Rightarrow> w32 list" where
  "schedule 0 ws = ws"
| "schedule (Suc n) ws =
     schedule n ((sigma1 (ws ! 1) + ws ! 6 + sigma0 (ws ! 14) + ws ! 15) # ws)"

fun be32 :: "byte list \<Rightarrow> w32 list" where
  "be32 (a # b # c # d # bs) =
     (push_bit 24 (ucast a) OR push_bit 16 (ucast b) OR push_bit 8 (ucast c) OR ucast d) # be32 bs"
| "be32 _ = []"

definition unbe32 :: "w32 \<Rightarrow> byte list" where
  "unbe32 w = [ucast (drop_bit 24 w), ucast (drop_bit 16 w), ucast (drop_bit 8 w), ucast w]"

fun sha_add :: "sha_state \<Rightarrow> sha_state \<Rightarrow> sha_state" where
  "sha_add (Sha a b c d e f g h) (Sha a' b' c' d' e' f' g' h') =
     Sha (a + a') (b + b') (c + c') (d + d') (e + e') (f + f') (g + g') (h + h')"

definition sha_block :: "sha_state \<Rightarrow> byte list \<Rightarrow> sha_state" where
  "sha_block s block =
     (let ws = rev (schedule 48 (rev (be32 block)))
      in sha_add s (foldl sha_round s (zip sha_k ws)))"

fun sha_blocks :: "nat \<Rightarrow> sha_state \<Rightarrow> byte list \<Rightarrow> sha_state" where
  "sha_blocks 0 s bs = s"
| "sha_blocks (Suc n) s bs = sha_blocks n (sha_block s (take 64 bs)) (drop 64 bs)"

definition be64 :: "nat \<Rightarrow> byte list" where
  "be64 n = map (\<lambda>i. ucast (drop_bit (8 * i) (word_of_nat n :: 64 word))) [7, 6, 5, 4, 3, 2, 1, 0]"

definition sha_pad :: "byte list \<Rightarrow> byte list" where
  "sha_pad m =
     m @ [0x80] @ replicate ((119 - length m mod 64) mod 64) 0 @ be64 (8 * length m)"

definition sha256 :: "byte list \<Rightarrow> byte list" where
  "sha256 m =
     (let p = sha_pad m
      in case sha_blocks (length p div 64) sha_init p of
           Sha a b c d e f g h \<Rightarrow> concat (map unbe32 [a, b, c, d, e, f, g, h]))"

section \<open>HMAC and hexadecimal\<close>

definition hmac_key :: "byte list \<Rightarrow> byte list" where
  "hmac_key k =
     (let k' = (if 64 < length k then sha256 k else k) in k' @ replicate (64 - length k') 0)"

definition hmac_sha256 :: "byte list \<Rightarrow> byte list \<Rightarrow> byte list" where
  "hmac_sha256 k m =
     (let k' = hmac_key k
      in sha256 (map (\<lambda>b. b XOR 0x5c) k' @ sha256 (map (\<lambda>b. b XOR 0x36) k' @ m)))"

definition hex_digit :: "nat \<Rightarrow> char" where
  "hex_digit n = ''0123456789abcdef'' ! n"

definition hexEncode :: "byte list \<Rightarrow> string" where
  "hexEncode bs = concat (map (\<lambda>b. [hex_digit (unat b div 16), hex_digit (unat b mod 16)]) bs)"

lemma length_unbe32 [simp]: "length (unbe32 w) = 4"
  by (simp add: unbe32_def)

lemma length_sha256 [simp]: "length (sha256 m) = 32"
  by (simp add: sha256_def Let_def split: sha_state.splits)

lemma length_hexEncode [simp]: "length (hexEncode bs) = 2 * length bs"
  by (induction bs) (auto simp: hexEncode_def)

text \<open>Padding completes the last block, so that no byte is dropped.\<close>

lemma length_sha_pad: "length (sha_pad m) mod 64 = 0 \<and> length m < length (sha_pad m)"
proof -
  have "length (sha_pad m) = length m + 1 + (119 - length m mod 64) mod 64 + 8"
    by (simp add: sha_pad_def be64_def)
  moreover have "(n + 1 + (119 - n mod 64) mod 64 + 8) mod 64 = 0" for n :: nat
  proof -
    define a where "a = 119 - n mod 64"
    have "n mod 64 < 64" by simp
    then have "n mod 64 + a = 119" unfolding a_def by linarith
    moreover have "(n + 1 + a mod 64 + 8) mod 64 = (n mod 64 + a + 9) mod 64"
      using mod_add_right_eq [of "n + 9" a 64] mod_add_left_eq [of n 64 "a + 9"]
      by (simp add: ac_simps)
    ultimately show ?thesis unfolding a_def [symmetric] by simp
  qed
  ultimately show ?thesis by simp
qed

lemma length_hmac_key [simp]: "length (hmac_key k) = 64"
  by (simp add: hmac_key_def Let_def)

lemma length_hmac [simp]: "length (hmac_sha256 k m) = 32"
  by (simp add: hmac_sha256_def Let_def)

end
