(* ===== verification/Auth.thy ===== *)
theory Auth
  imports Crypto Go_IO
begin

text \<open>
  Peer authentication (\<^verbatim>\<open>pkg/auth/auth.go\<close>): requests are signed with an HMAC over method,
  path and time, and rejected when the time is too far away or the signature differs. The
  times are \<^verbatim>\<open>int64\<close> values and the arithmetic on them wraps around as in Go.
\<close>

definition HeaderTimestamp :: string where
  "HeaderTimestamp = ''X-Orchestrator-Timestamp''"

definition HeaderSignature :: string where
  "HeaderSignature = ''X-Orchestrator-Signature''"

definition MaxClockSkew :: int64 where
  "MaxClockSkew = 30000000000"

record authenticator =
  sharedSecret :: string

definition NewAuthenticator :: "string \<Rightarrow> authenticator" where
  "NewAuthenticator secret = \<lparr>sharedSecret = secret\<rparr>"

definition sign_message :: "string \<Rightarrow> string \<Rightarrow> int64 \<Rightarrow> string" where
  "sign_message method path timestamp = method @ '':'' @ path @ '':'' @ formatInt (sint timestamp)"

definition generateSignature :: "authenticator \<Rightarrow> string \<Rightarrow> string \<Rightarrow> int64 \<Rightarrow> string" where
  "generateSignature a method path timestamp =
     hexEncode (hmac_sha256 (bytes_of (sharedSecret a)) (bytes_of (sign_message method path timestamp)))"

text \<open>\<^verbatim>\<open>time.Now().Unix()\<close>: whole seconds, rounded down.\<close>

definition unix :: "instant \<Rightarrow> int64" where
  "unix n = word_of_int (n div Second)"

definition sign_at :: "authenticator \<Rightarrow> instant \<Rightarrow> http_request \<Rightarrow> http_request" where
  "sign_at a n req =
     (let timestamp = unix n
      in req\<lparr>Header :=
           map_set HeaderSignature (generateSignature a (Method req) (url_path (URL req)) timestamp)
             (map_set HeaderTimestamp (formatInt (sint timestamp)) (Header req))\<rparr>)"

definition SignRequest :: "authenticator \<Rightarrow> http_request \<Rightarrow> http_request res io" where
  "SignRequest a req =
     (if sharedSecret a = [] then ret (Inr req)
      else bnd now (\<lambda>n. ret (Inr (sign_at a n req))))"

text \<open>The absolute difference of two times in seconds, and the window test on it.\<close>

definition skew :: "int64 \<Rightarrow> int64 \<Rightarrow> int64" where
  "skew nw timestamp = (let diff = nw - timestamp in if diff <s 0 then - diff else diff)"

definition outside_window :: "int64 \<Rightarrow> int64 \<Rightarrow> bool" where
  "outside_window nw timestamp \<longleftrightarrow> MaxClockSkew <s skew nw timestamp * word_of_int Second"

text \<open>
  \<^verbatim>\<open>ValidateRequest\<close> after the clock has been read. \<^verbatim>\<open>hmac.Equal\<close> is equality of the byte
  strings. The text of a \<^verbatim>\<open>strconv\<close> error is reduced to the function's name.
\<close>

definition verdict :: "authenticator \<Rightarrow> int64 \<Rightarrow> int64 \<Rightarrow> http_request \<Rightarrow> gerror" where
  "verdict a nw timestamp req =
     (if outside_window nw timestamp
      then Some (''timestamp outside allowed window (skew: '' @ formatInt (sint (skew nw timestamp)) @ ''s)'')
      else if generateSignature a (Method req) (url_path (URL req)) timestamp
            \<noteq> map_get (Header req) HeaderSignature
      then Some ''invalid signature''
      else None)"

definition ValidateRequest :: "authenticator \<Rightarrow> http_request \<Rightarrow> gerror io" where
  "ValidateRequest a req =
     (if sharedSecret a = [] then ret None
      else let timestampStr = map_get (Header req) HeaderTimestamp
        in if timestampStr = [] then ret (Some ''missing timestamp header'')
           else case parseInt timestampStr of
               None \<Rightarrow> ret (Some (errorf ''invalid timestamp'' ''strconv.ParseInt''))
             | Some timestamp \<Rightarrow>
                 bnd now (\<lambda>n. ret (verdict a (unix n) (word_of_int timestamp) req)))"

type_synonym handler = "http_request \<Rightarrow> http_response io"

definition Middleware :: "authenticator \<Rightarrow> handler \<Rightarrow> handler" where
  "Middleware a nxt req =
     bnd (ValidateRequest a req) (\<lambda>err. case err of
        Some e \<Rightarrow> ret (http_error (''Authentication failed: '' @ e) StatusUnauthorized)
      | None \<Rightarrow> nxt req)"

section \<open>The window\<close>

lemma signed63: "inInt64 k \<Longrightarrow> signed_take_bit 63 k = k"
  by (simp add: inInt64_def signed_take_bit_int_eq_self)

lemma sint_skew:
  assumes "inInt64 (sint nw - sint ts)" and "sint nw - sint ts \<noteq> - (2 ^ 63)"
  shows "sint (skew nw ts) = \<bar>sint nw - sint ts\<bar>"
proof -
  have d: "sint (nw - ts) = sint nw - sint ts"
    using assms(1) by (simp add: sint_word_ariths inInt64_def signed_take_bit_int_eq_self)
  have m: "sint (- (nw - ts)) = - (sint nw - sint ts)" if "sint nw - sint ts < 0"
    using assms that by (simp add: sint_word_ariths d inInt64_def signed_take_bit_int_eq_self)
  show ?thesis
    using d m by (auto simp: skew_def Let_def word_sless_alt)
qed

text \<open>Where the product with \<^verbatim>\<open>time.Second\<close> does not overflow, the test is the intended one.\<close>

lemma outside_window_exact:
  assumes "\<bar>sint nw - sint ts\<bar> \<le> 9223372036"
  shows "outside_window nw ts \<longleftrightarrow> 30 < \<bar>sint nw - sint ts\<bar>"
proof -
  have s: "sint (skew nw ts) = \<bar>sint nw - sint ts\<bar>"
    using assms by (intro sint_skew) (auto simp: inInt64_def)
  have "0 \<le> d \<Longrightarrow> d \<le> 9223372036 \<Longrightarrow> inInt64 (d * Second)" for d
    by (simp add: inInt64_def Second_def)
  with assms have "inInt64 (\<bar>sint nw - sint ts\<bar> * Second)" by simp
  then have "sint (skew nw ts * word_of_int Second) = \<bar>sint nw - sint ts\<bar> * Second"
    by (simp add: sint_word_ariths s Second_def signed63)
  then show ?thesis
    by (simp add: outside_window_def word_sless_alt MaxClockSkew_def Second_def)
qed

section \<open>Signing and validating\<close>

lemma parseInt_sint [simp]: "parseInt (formatInt (sint (w :: int64))) = Some (sint w)"
  using sint_greater_eq [of w] sint_less [of w] by (intro parseInt_formatInt) (simp add: inInt64_def)

lemma headers_distinct [simp]: "HeaderTimestamp \<noteq> HeaderSignature" "HeaderSignature \<noteq> HeaderTimestamp"
  by (simp_all add: HeaderTimestamp_def HeaderSignature_def)

lemma sign_at_fields [simp]:
  "Method (sign_at a n r) = Method r" "URL (sign_at a n r) = URL r"
  "ReqBody (sign_at a n r) = ReqBody r"
  "map_get (Header (sign_at a n r)) HeaderTimestamp = formatInt (sint (unix n))"
  "map_get (Header (sign_at a n r)) HeaderSignature =
     generateSignature a (Method r) (url_path (URL r)) (unix n)"
  by (simp_all add: sign_at_def Let_def map_get_def)

lemma ValidateRequest_signed:
  "sharedSecret a \<noteq> [] \<Longrightarrow>
     ValidateRequest a (sign_at a n r) = bnd now (\<lambda>m. ret (verdict a (unix m) (unix n) (sign_at a n r)))"
  by (simp add: ValidateRequest_def)

lemma verdict_signed: "verdict a m (unix n) (sign_at a n r) = None \<longleftrightarrow> \<not> outside_window m (unix n)"
  by (simp add: verdict_def)

text \<open>
  The interface the HTTP components rely on: what one side seals, the other side opens, as
  long as their clocks agree; and a guard built on it lets sealed requests through.
\<close>

locale sealed_requests =
  fixes seal :: "'k \<Rightarrow> instant \<Rightarrow> http_request \<Rightarrow> http_request"
    and opens :: "'k \<Rightarrow> http_request \<Rightarrow> gerror io"
    and guard :: "'k \<Rightarrow> handler \<Rightarrow> handler"
    and keyed :: "'k \<Rightarrow> bool"
    and close :: "instant \<Rightarrow> instant \<Rightarrow> bool"
  assumes opens_seal: "keyed k \<Longrightarrow> close (x_now E t) n \<Longrightarrow> opens k (seal k n r) E t = (Ret None, ClockRead # t)"
    and guard_pass: "opens k r E t = (Ret None, t') \<Longrightarrow> guard k h r E t = h r E t'"
    and guard_stop: "opens k r E t = (Ret (Some e), t') \<Longrightarrow>
      \<exists>resp. guard k h r E t = (Ret resp, t') \<and> StatusCode resp = StatusUnauthorized"
begin

lemma guard_seal:
  "keyed k \<Longrightarrow> close (x_now E t) n \<Longrightarrow> guard k h (seal k n r) E t = h (seal k n r) E (ClockRead # t)"
  by (rule guard_pass) (rule opens_seal)

end

definition clocks_close :: "instant \<Rightarrow> instant \<Rightarrow> bool" where
  "clocks_close m n \<longleftrightarrow> \<bar>m div Second - n div Second\<bar> \<le> 30 \<and> inInt64 (m div Second) \<and> inInt64 (n div Second)"

lemma sint_unix: "inInt64 (n div Second) \<Longrightarrow> sint (unix n) = n div Second"
  by (simp add: unix_def sint_sbintrunc' signed63)

lemma in_window: "clocks_close m n \<Longrightarrow> \<not> outside_window (unix m) (unix n)"
  by (simp add: clocks_close_def outside_window_exact sint_unix)

lemma ValidateRequest_sealed:
  "sharedSecret a \<noteq> [] \<Longrightarrow> clocks_close (x_now E t) n \<Longrightarrow>
     ValidateRequest a (sign_at a n r) E t = (Ret None, ClockRead # t)"
  by (simp add: ValidateRequest_signed now_def verdict_signed in_window)

interpretation au: sealed_requests sign_at ValidateRequest Middleware
  "\<lambda>a. sharedSecret a \<noteq> []" clocks_close
  by unfold_locales (auto simp: ValidateRequest_sealed Middleware_def bnd_def http_error_def)

lemma emits_SignRequest: "Q ClockRead \<Longrightarrow> emits Q (SignRequest a r)"
  unfolding SignRequest_def now_def by (intro emit_intros) (simp add: emits_call)

lemma emits_ValidateRequest: "Q ClockRead \<Longrightarrow> emits Q (ValidateRequest a r)"
  unfolding ValidateRequest_def now_def by (intro emit_intros) (simp add: emits_call)

lemma emits_Middleware: "Q ClockRead \<Longrightarrow> emits Q (h r) \<Longrightarrow> emits Q (Middleware a h r)"
  unfolding Middleware_def by (intro emit_intros emits_ValidateRequest)

lemma returns_SignRequest [simp]: "returns (SignRequest a r)"
  by (simp add: SignRequest_def now_def returns_bnd)

lemma returns_ValidateRequest [simp]: "returns (ValidateRequest a r)"
  by (auto simp: ValidateRequest_def now_def Let_def intro!: returns_bnd split: option.splits)

lemma SignRequest_preserves:
  "SignRequest a r E t = (Ret (Inr r'), t') \<Longrightarrow>
     Method r' = Method r \<and> URL r' = URL r \<and> ReqBody r' = ReqBody r"
  by (auto simp: SignRequest_def now_def split: if_splits)

section \<open>Properties\<close>

text \<open>
  C22. A request signed by one pod passes the validation of every pod with the same shared
  secret whose clock, in whole seconds, is at most 30 seconds away, and signing does not
  touch method, URL or body.
\<close>

theorem sign_validate_roundtrip:
  assumes "sharedSecret a \<noteq> []" and "clocks_close (x_now E' t') (x_now E t)"
  shows "\<exists>r'. SignRequest a r E t = (Ret (Inr r'), ClockRead # t) \<and>
     ValidateRequest a r' E' t' = (Ret None, ClockRead # t') \<and>
     Method r' = Method r \<and> URL r' = URL r \<and> ReqBody r' = ReqBody r"
  using assms by (simp add: SignRequest_def now_def ValidateRequest_sealed)

definition demo_request :: http_request where
  "demo_request = \<lparr>Method = ''GET'', URL = ''http://10.0.0.2:8080/state'', Header = [], ReqBody = Text []\<rparr>"

theorem sign_validate_roundtrip_witness:
  "\<exists>r'. SignRequest (NewAuthenticator ''s3cret'') demo_request (dead_env\<lparr>x_now := \<lambda>t. 100 * Second\<rparr>) [] =
       (Ret (Inr r'), [ClockRead]) \<and>
     ValidateRequest (NewAuthenticator ''s3cret'') r' (dead_env\<lparr>x_now := \<lambda>t. 130 * Second\<rparr>) [] =
       (Ret None, [ClockRead]) \<and>
     Method r' = Method demo_request \<and> URL r' = URL demo_request \<and> ReqBody r' = ReqBody demo_request"
  by (rule sign_validate_roundtrip)
    (simp_all add: NewAuthenticator_def clocks_close_def Second_def inInt64_def)

text \<open>
  C23. When a secret is configured, a request is accepted only if it carries a readable
  timestamp inside the window and exactly the signature of its method, path and timestamp
  under that secret.
\<close>

theorem accepted_is_signed:
  assumes "ValidateRequest a r E t = (Ret None, t')" and "sharedSecret a \<noteq> []"
  shows "\<exists>ts. parseInt (map_get (Header r) HeaderTimestamp) = Some ts \<and>
     \<not> outside_window (unix (x_now E t)) (word_of_int ts) \<and>
     map_get (Header r) HeaderSignature =
       generateSignature a (Method r) (url_path (URL r)) (word_of_int ts)"
  using assms
  by (auto simp: ValidateRequest_def verdict_def now_def Let_def split: if_splits option.splits)

theorem accepted_is_signed_witness:
  "\<exists>ts. parseInt (map_get (Header (sign_at (NewAuthenticator ''k'') 0 demo_request)) HeaderTimestamp) = Some ts \<and>
     \<not> outside_window (unix (x_now dead_env [])) (word_of_int ts) \<and>
     map_get (Header (sign_at (NewAuthenticator ''k'') 0 demo_request)) HeaderSignature =
       generateSignature (NewAuthenticator ''k'') (Method (sign_at (NewAuthenticator ''k'') 0 demo_request))
         (url_path (URL (sign_at (NewAuthenticator ''k'') 0 demo_request))) (word_of_int ts)"
proof (rule accepted_is_signed)
  show "ValidateRequest (NewAuthenticator ''k'') (sign_at (NewAuthenticator ''k'') 0 demo_request)
      dead_env [] = (Ret None, [ClockRead])"
    by (rule ValidateRequest_sealed) (simp_all add: NewAuthenticator_def clocks_close_def inInt64_def)
qed (simp add: NewAuthenticator_def)

text \<open>
  C24. The text that is signed determines method, path and timestamp, so that a signature
  made for one request cannot be read as one for another (a method contains no colon).
\<close>

theorem sign_message_inj:
  assumes "sign_message m p ts = sign_message m' p' ts'"
    and "CHR '':'' \<notin> set m" and "CHR '':'' \<notin> set m'"
  shows "m = m' \<and> p = p' \<and> ts = ts'"
proof -
  define f where "f = formatInt (sint ts)"
  define f' where "f' = formatInt (sint ts')"
  have nf: "CHR '':'' \<notin> set f" "CHR '':'' \<notin> set f'"
    unfolding f_def f'_def by (rule formatInt_no_char; simp add: digitVal_def)+
  have eq: "m @ CHR '':'' # (p @ CHR '':'' # f) = m' @ CHR '':'' # (p' @ CHR '':'' # f')"
    using assms(1) by (simp add: sign_message_def f_def f'_def)
  have "takeWhile (\<lambda>c. c \<noteq> CHR '':'') (m @ CHR '':'' # (p @ CHR '':'' # f)) = m"
    "takeWhile (\<lambda>c. c \<noteq> CHR '':'') (m' @ CHR '':'' # (p' @ CHR '':'' # f')) = m'"
    using assms(2,3) by (auto simp: takeWhile_append)
  with eq have m: "m = m'" by simp
  with eq have r: "p @ CHR '':'' # f = p' @ CHR '':'' # f'" by simp
  have "takeWhile (\<lambda>c. c \<noteq> CHR '':'') (rev (p @ CHR '':'' # f)) = rev f"
    "takeWhile (\<lambda>c. c \<noteq> CHR '':'') (rev (p' @ CHR '':'' # f')) = rev f'"
    using nf by (auto simp: takeWhile_append)
  with r have "f = f'" by simp
  moreover from this r have "p = p'" by simp
  ultimately show ?thesis
    using m formatInt_inj [of "sint ts" "sint ts'"] by (simp add: f_def f'_def signed_word_eqI)
qed

theorem sign_message_inj_witness:
  "sign_message ''GET'' ''/state:7'' 5 = sign_message ''GET'' ''/state:7'' 5 \<and>
     ''GET'' = ''GET'' \<and> ''/state:7'' = ''/state:7'' \<and> (5 :: int64) = 5"
  using sign_message_inj [of "''GET''" "''/state:7''" 5 "''GET''" "''/state:7''" 5] by simp

text \<open>
  C25. For clocks less than 292 years apart the window test is exact: a correctly signed
  request is accepted exactly when the two clocks differ by at most 30 whole seconds, in
  either direction.
\<close>

theorem window_exact:
  assumes "sharedSecret a \<noteq> []" and "inInt64 (x_now E t div Second)" and "inInt64 (n div Second)"
    and "\<bar>x_now E t div Second - n div Second\<bar> \<le> 9223372036"
  shows "fst (ValidateRequest a (sign_at a n r) E t) = Ret None \<longleftrightarrow>
     \<bar>x_now E t div Second - n div Second\<bar> \<le> 30"
  using assms
  by (simp add: ValidateRequest_signed now_def verdict_signed outside_window_exact sint_unix not_less)

theorem window_exact_witness:
  "fst (ValidateRequest (NewAuthenticator ''k'') (sign_at (NewAuthenticator ''k'') (131 * Second) demo_request)
      (dead_env\<lparr>x_now := \<lambda>t. 100 * Second\<rparr>) []) = Ret None \<longleftrightarrow> False"
  using window_exact [of "NewAuthenticator ''k''" "dead_env\<lparr>x_now := \<lambda>t. 100 * Second\<rparr>" "[]"
      "131 * Second" demo_request]
  by (simp add: NewAuthenticator_def Second_def inInt64_def)

lemma far_not_outside:
  assumes "9223372037 \<le> sint nw - sint ts" and "sint nw - sint ts \<le> 18446744073"
  shows "\<not> outside_window nw ts"
proof -
  define d where "d = sint nw - sint ts"
  have d: "9223372037 \<le> d" "d \<le> 18446744073" using assms by (simp_all add: d_def)
  have s: "sint (skew nw ts) = d"
    using d by (subst sint_skew) (auto simp: inInt64_def d_def)
  have "signed_take_bit 63 (d * 1000000000) = d * 1000000000 - 2 ^ 64"
  proof -
    have "take_bit 64 (d * 1000000000 + 2 ^ 63) = d * 1000000000 + 2 ^ 63 - 2 ^ 64"
      using d by (simp add: take_bit_eq_mod mod_pos_geq)
    then show ?thesis by (simp add: signed_take_bit_eq_take_bit_shift)
  qed
  then have "sint (skew nw ts * word_of_int Second) = d * 1000000000 - 2 ^ 64"
    by (simp add: sint_word_ariths s Second_def signed63 inInt64_def)
  then show ?thesis using d
    by (simp add: outside_window_def word_sless_alt MaxClockSkew_def)
qed

text \<open>
  C26. Beyond that the multiplication by \<^verbatim>\<open>time.Second\<close> overflows: a request whose signature is
  between 9223372037 and 18446744073 seconds old is accepted, although the window is 30
  seconds.
\<close>

theorem window_overflow:
  assumes "sharedSecret a \<noteq> []" and "inInt64 (x_now E t div Second)" and "inInt64 (n div Second)"
    and "9223372037 \<le> x_now E t div Second - n div Second"
    and "x_now E t div Second - n div Second \<le> 18446744073"
  shows "ValidateRequest a (sign_at a n r) E t = (Ret None, ClockRead # t)"
  using assms
  by (simp add: ValidateRequest_signed now_def verdict_signed far_not_outside sint_unix)

theorem window_overflow_witness:
  "ValidateRequest (NewAuthenticator ''k'')
     (sign_at (NewAuthenticator ''k'') (- 8000000000 * Second) demo_request)
     (dead_env\<lparr>x_now := \<lambda>t. 1700000000 * Second\<rparr>) [] = (Ret None, [ClockRead])"
  by (rule window_overflow) (simp_all add: NewAuthenticator_def Second_def inInt64_def)

text \<open>
  C40. Validation keeps no memory and looks at method, path and headers only: a request that
  was accepted is accepted again with any other body and any other query, at every time
  whose distance from its timestamp is inside the window.
\<close>

theorem replay_accepted:
  assumes "ValidateRequest a r E t = (Ret None, t1)" and "sharedSecret a \<noteq> []"
    and "url_path u = url_path (URL r)"
    and "\<not> outside_window (unix (x_now E' t'))
      (word_of_int (the (parseInt (map_get (Header r) HeaderTimestamp))))"
  shows "ValidateRequest a (r\<lparr>URL := u, ReqBody := b\<rparr>) E' t' = (Ret None, ClockRead # t')"
  using assms
  by (auto simp: ValidateRequest_def verdict_def now_def Let_def split: if_splits option.splits)

theorem replay_accepted_witness:
  "ValidateRequest (NewAuthenticator ''k'')
     ((sign_at (NewAuthenticator ''k'') 0 demo_request)
        \<lparr>URL := ''http://10.0.0.2:8080/state?x=1'', ReqBody := Text ''other''\<rparr>)
     (dead_env\<lparr>x_now := \<lambda>t. 20 * Second\<rparr>) [] = (Ret None, [ClockRead])"
proof (rule replay_accepted)
  show "ValidateRequest (NewAuthenticator ''k'') (sign_at (NewAuthenticator ''k'') 0 demo_request)
      dead_env [] = (Ret None, [ClockRead])"
    by (rule ValidateRequest_sealed) (simp_all add: NewAuthenticator_def clocks_close_def inInt64_def)
  show "url_path ''http://10.0.0.2:8080/state?x=1'' = url_path (URL (sign_at (NewAuthenticator ''k'') 0 demo_request))"
    by (simp add: demo_request_def url_path_def go_str Let_def)
  show "\<not> outside_window (unix (x_now (dead_env\<lparr>x_now := \<lambda>t. 20 * Second\<rparr>) []))
     (word_of_int (the (parseInt (map_get (Header (sign_at (NewAuthenticator ''k'') 0 demo_request)) HeaderTimestamp))))"
    using in_window [of "20 * Second" 0] by (simp add: clocks_close_def Second_def inInt64_def)
qed (simp add: NewAuthenticator_def)

end
