(* ===== verification/Json.thy ===== *)
theory Json
  imports Go_IO
begin

text \<open>
  What the program uses of \<^verbatim>\<open>encoding/json\<close>: decoding a document into a struct. The decoder
  walks over the members of the object; a member whose name equals a field's tag up to
  letter case is stored in that field, others are skipped, a later member overwrites an
  earlier one, \<^verbatim>\<open>null\<close> leaves a field alone, and a value of the wrong kind makes the decoding
  fail. A field of a struct is described by its tag and a setter.
\<close>

definition lower_char :: "char \<Rightarrow> char" where
  "lower_char c = (let n = (of_char c :: nat) in if 65 \<le> n \<and> n \<le> 90 then char_of (n + 32) else c)"

definition same_tag :: "string \<Rightarrow> string \<Rightarrow> bool" where
  "same_tag a b \<longleftrightarrow> map lower_char a = map lower_char b"

type_synonym 's field = "string \<times> (json \<Rightarrow> 's \<Rightarrow> 's option)"

fun decode_string :: "(string \<Rightarrow> 's \<Rightarrow> 's) \<Rightarrow> json \<Rightarrow> 's \<Rightarrow> 's option" where
  "decode_string upd (JStr v) s = Some (upd v s)"
| "decode_string upd JNull s = Some s"
| "decode_string upd _ s = None"

fun decode_bool :: "(bool \<Rightarrow> 's \<Rightarrow> 's) \<Rightarrow> json \<Rightarrow> 's \<Rightarrow> 's option" where
  "decode_bool upd (JBool v) s = Some (upd v s)"
| "decode_bool upd JNull s = Some s"
| "decode_bool upd _ s = None"

fun decode_time :: "(instant \<Rightarrow> 's \<Rightarrow> 's) \<Rightarrow> json \<Rightarrow> 's \<Rightarrow> 's option" where
  "decode_time upd (JTime v) s = Some (upd v s)"
| "decode_time upd JNull s = Some s"
| "decode_time upd _ s = None"

text \<open>A \<^verbatim>\<open>[]string\<close> field: an array of strings; \<^verbatim>\<open>null\<close> as an element is the empty string.\<close>

fun json_strings :: "json list \<Rightarrow> string list option" where
  "json_strings [] = Some []"
| "json_strings (JStr s # js) = map_option (\<lambda>l. s # l) (json_strings js)"
| "json_strings (JNull # js) = map_option (\<lambda>l. [] # l) (json_strings js)"
| "json_strings (_ # js) = None"

fun decode_strings :: "(string list \<Rightarrow> 's \<Rightarrow> 's) \<Rightarrow> json \<Rightarrow> 's \<Rightarrow> 's option" where
  "decode_strings upd (JArr js) s = map_option (\<lambda>l. upd l s) (json_strings js)"
| "decode_strings upd JNull s = Some (upd [] s)"
| "decode_strings upd _ s = None"

definition decode_member :: "'s field list \<Rightarrow> string \<times> json \<Rightarrow> 's option \<Rightarrow> 's option" where
  "decode_member fs kv acc =
     (case acc of
        None \<Rightarrow> None
      | Some s \<Rightarrow>
          (case find (\<lambda>f. same_tag (fst f) (fst kv)) fs of
             None \<Rightarrow> Some s
           | Some f \<Rightarrow> snd f (snd kv) s))"

fun decode_struct :: "'s field list \<Rightarrow> 's \<Rightarrow> json \<Rightarrow> 's option" where
  "decode_struct fs z (JObj kvs) = fold (decode_member fs) kvs (Some z)"
| "decode_struct fs z JNull = Some z"
| "decode_struct fs z _ = None"

text \<open>\<^verbatim>\<open>json.NewDecoder(body).Decode(&v)\<close>; a body that is not JSON is a syntax error.\<close>

fun decode_body :: "'s field list \<Rightarrow> 's \<Rightarrow> body \<Rightarrow> 's res" where
  "decode_body fs z (Json j) =
     (case decode_struct fs z j of None \<Rightarrow> Inl ''json: cannot unmarshal'' | Some s \<Rightarrow> Inr s)"
| "decode_body fs z (Text s) = Inl ''invalid character''"

lemma same_tag_refl [simp]: "same_tag a a"
  by (simp add: same_tag_def)

lemma json_strings_map [simp]: "json_strings (map JStr xs) = Some xs"
  by (induction xs) auto

lemma decode_member_simps [simp]:
  "decode_member fs kv None = None"
  "decode_member [] kv (Some s) = Some s"
  "decode_member (f # fs) (k, v) (Some s) =
     (if same_tag (fst f) k then snd f v s else decode_member fs (k, v) (Some s))"
  by (simp_all add: decode_member_def)

end
