(* ===== verification/Net_Addr.thy ===== *)
theory Net_Addr
  imports Go_Base
begin

text \<open>
  \<^verbatim>\<open>net.SplitHostPort\<close> and \<^verbatim>\<open>net.JoinHostPort\<close>, and the wrapper of the former in
  \<^verbatim>\<open>raft_discovery.go\<close> that supplies the default port.
\<close>

text \<open>Everything before and after the last colon.\<close>

definition before_last :: "char \<Rightarrow> string \<Rightarrow> string" where
  "before_last c s = rev (tl (dropWhile (\<lambda>x. x \<noteq> c) (rev s)))"

definition after_last :: "char \<Rightarrow> string \<Rightarrow> string" where
  "after_last c s = rev (takeWhile (\<lambda>x. x \<noteq> c) (rev s))"

definition netSplitHostPort :: "string \<Rightarrow> (string \<times> string) res" where
  "netSplitHostPort addr =
     (let missing = Inl (''address '' @ addr @ '': missing port in address'');
          colons = Inl (''address '' @ addr @ '': too many colons in address'')
      in if CHR '':'' \<notin> set addr then missing
         else if hasPrefix addr ''['' then
           (let host = takeWhile (\<lambda>c. c \<noteq> CHR '']'') (tl addr);
                rest = drop (length host + 1) addr \<comment> \<open>from the closing bracket on\<close>
            in if rest = [] then Inl (''address '' @ addr @ '': missing ']' in address'')
               else (case tl rest of
                   [] \<Rightarrow> missing
                 | c # port \<Rightarrow>
                     if c \<noteq> CHR '':'' then missing
                     else if CHR '':'' \<in> set port then colons
                     else if CHR ''['' \<in> set (tl addr) then
                       Inl (''address '' @ addr @ '': unexpected '[' in address'')
                     else if CHR '']'' \<in> set port then
                       Inl (''address '' @ addr @ '': unexpected ']' in address'')
                     else Inr (host, port)))
         else
           (let host = before_last (CHR '':'') addr; port = after_last (CHR '':'') addr
            in if CHR '':'' \<in> set host then colons
               else if CHR ''['' \<in> set addr then
                 Inl (''address '' @ addr @ '': unexpected '[' in address'')
               else if CHR '']'' \<in> set addr then
                 Inl (''address '' @ addr @ '': unexpected ']' in address'')
               else Inr (host, port)))"

definition joinHostPort :: "string \<Rightarrow> string \<Rightarrow> string" where
  "joinHostPort host port =
     (if CHR '':'' \<in> set host then ''['' @ host @ '']:'' @ port else host @ '':'' @ port)"

definition splitHostPort :: "string \<Rightarrow> (string \<times> string) res" where
  "splitHostPort addr =
     (if \<not> contains addr '':'' then Inr (addr, ''7000'') else netSplitHostPort addr)"

lemma before_last_append: "c \<notin> set p \<Longrightarrow> before_last c (h @ c # p) = h"
  unfolding before_last_def by (simp, subst dropWhile_append2) auto

lemma after_last_append: "c \<notin> set p \<Longrightarrow> after_last c (h @ c # p) = p"
  by (simp add: after_last_def takeWhile_append)

definition plain_part :: "string \<Rightarrow> bool" where
  "plain_part s \<longleftrightarrow> CHR ''['' \<notin> set s \<and> CHR '']'' \<notin> set s"

lemma netSplit_join:
  assumes "plain_part h" and "plain_part p" and "CHR '':'' \<notin> set p"
  shows "netSplitHostPort (joinHostPort h p) = Inr (h, p)"
proof (cases "CHR '':'' \<in> set h")
  case True
  have "takeWhile (\<lambda>c. c \<noteq> CHR '']'') (h @ '']:'' @ p) = h"
    using assms(1) by (subst takeWhile_append2) (auto simp: plain_part_def)
  with True assms show ?thesis
    by (auto simp: joinHostPort_def netSplitHostPort_def Let_def go_str plain_part_def)
next
  case False
  have "\<not> hasPrefix (h @ '':'' @ p) ''[''"
    using assms(1) by (cases h) (auto simp: go_str plain_part_def)
  with False assms show ?thesis
    by (simp add: joinHostPort_def netSplitHostPort_def Let_def before_last_append
        after_last_append plain_part_def)
qed

section \<open>Properties\<close>

text \<open>
  A host and a port without brackets, joined the way the program advertises its Raft
  address (IPv6 hosts in brackets), are taken apart again unchanged by the parser of peer
  addresses; a bare host name gets the default port.
\<close>

lemma peer_address_roundtrip:
  assumes "plain_part h" and "plain_part p" and "CHR '':'' \<notin> set p"
  shows "splitHostPort (joinHostPort h p) = Inr (h, p) \<and>
    (CHR '':'' \<notin> set h \<longrightarrow> splitHostPort h = Inr (h, ''7000''))"
proof -
  have "contains (joinHostPort h p) '':''" by (simp add: joinHostPort_def)
  then show ?thesis using netSplit_join [OF assms] by (simp add: splitHostPort_def)
qed

end
