(* ===== verification/Raft_Strategy.thy ===== *)
theory Raft_Strategy
  imports Election Auth Json Net_Addr
begin

text \<open>
  The Raft strategy (\<^verbatim>\<open>pkg/election/raft.go\<close>, \<^verbatim>\<open>raft_discovery.go\<close>, \<^verbatim>\<open>raft_handlers.go\<close>): start-up,
  discovery and joining of a cluster, the HTTP handlers that change its membership, and the
  queries for the leader. The Raft library itself is part of the environment.
\<close>

section \<open>RaftStrategy\<close>

text \<open>\<open>rs_raft\<close> tells whether the pointer to the library object is set.\<close>

record raft_strategy =
  rs_localPodName :: string
  rs_localPodUID :: string
  rs_localPodIP :: string
  rs_bindAddr :: string
  rs_peers :: "string list"
  rs_dataDir :: string
  rs_debug :: bool
  rs_bootstrap :: bool
  rs_standalone :: bool
  rs_authenticator :: "authenticator option"
  rs_raft :: bool
  rs_currentLeader :: "pod_state option"
  rs_allStates :: "pod_state gomap"

definition NewRaftStrategy ::
  "string \<Rightarrow> string \<Rightarrow> string \<Rightarrow> string \<Rightarrow> string list \<Rightarrow> string \<Rightarrow> bool \<Rightarrow> bool \<Rightarrow> bool \<Rightarrow>
     authenticator \<Rightarrow> raft_strategy" where
  "NewRaftStrategy podName podUID podIP bindAddr peers dataDir bootstrap debug standalone a =
     \<lparr>rs_localPodName = podName, rs_localPodUID = podUID, rs_localPodIP = podIP,
      rs_bindAddr = bindAddr, rs_peers = peers, rs_dataDir = dataDir, rs_debug = debug,
      rs_bootstrap = bootstrap, rs_standalone = standalone, rs_authenticator = Some a,
      rs_raft = False, rs_currentLeader = None, rs_allStates = []\<rparr>"

section \<open>Discovery\<close>

record cluster_info =
  LeaderAddr :: string
  LeaderID :: string
  ciState :: string
  ciPodName :: string
  ciPodUID :: string
  ciPeers :: "string list"

definition empty_cluster_info :: cluster_info where
  "empty_cluster_info = \<lparr>LeaderAddr = [], LeaderID = [], ciState = [], ciPodName = [],
     ciPodUID = [], ciPeers = []\<rparr>"

definition cluster_info_fields :: "cluster_info field list" where
  "cluster_info_fields =
     [(''leader_addr'', decode_string (\<lambda>v s. s\<lparr>LeaderAddr := v\<rparr>)),
      (''leader_id'', decode_string (\<lambda>v s. s\<lparr>LeaderID := v\<rparr>)),
      (''state'', decode_string (\<lambda>v s. s\<lparr>ciState := v\<rparr>)),
      (''pod_name'', decode_string (\<lambda>v s. s\<lparr>ciPodName := v\<rparr>)),
      (''pod_uid'', decode_string (\<lambda>v s. s\<lparr>ciPodUID := v\<rparr>)),
      (''peers'', decode_strings (\<lambda>v s. s\<lparr>ciPeers := v\<rparr>))]"

text \<open>A \<^verbatim>\<open>nil\<close> slice (no peers configured) is written as \<^verbatim>\<open>null\<close>.\<close>

definition encode_cluster_info :: "cluster_info \<Rightarrow> json" where
  "encode_cluster_info i =
     JObj [(''leader_addr'', JStr (LeaderAddr i)), (''leader_id'', JStr (LeaderID i)),
       (''state'', JStr (ciState i)), (''pod_name'', JStr (ciPodName i)),
       (''pod_uid'', JStr (ciPodUID i)),
       (''peers'', if ciPeers i = [] then JNull else JArr (map JStr (ciPeers i)))]"

definition decode_cluster_info :: "body \<Rightarrow> cluster_info res" where
  "decode_cluster_info b = decode_body cluster_info_fields empty_cluster_info b"

text \<open>\<^verbatim>\<open>if r.authenticator != nil { r.authenticator.SignRequest(req) }\<close>\<close>

definition sign_opt :: "authenticator option \<Rightarrow> http_request \<Rightarrow> http_request res io" where
  "sign_opt a req = (case a of None \<Rightarrow> ret (Inr req) | Some x \<Rightarrow> SignRequest x req)"

definition status_url :: "string \<Rightarrow> string" where
  "status_url host = ''http://'' @ host @ '':8080/raft/status''"

text \<open>One pass of the loop: the answer of one peer, or \<^const>\<open>None\<close> for \<^verbatim>\<open>continue\<close>.\<close>

definition query_status :: "raft_strategy \<Rightarrow> string \<Rightarrow> cluster_info option io" where
  "query_status r peerAddr =
     (case splitHostPort peerAddr of
        Inl _ \<Rightarrow> ret None
      | Inr (host, _) \<Rightarrow>
          bnd (newRequest ''GET'' (status_url host) (Text [])) (\<lambda>rq. case rq of
            Inl _ \<Rightarrow> ret None
          | Inr req \<Rightarrow>
              bnd (sign_opt (rs_authenticator r) req) (\<lambda>sr. case sr of
                Inl _ \<Rightarrow> ret None
              | Inr req' \<Rightarrow>
                  bnd (httpDo req') (\<lambda>rr. case rr of
                    Inl _ \<Rightarrow> ret None
                  | Inr resp \<Rightarrow>
                      if StatusCode resp \<noteq> StatusOK then ret None
                      else case decode_cluster_info (RespBody resp) of
                          Inl _ \<Rightarrow> ret None
                        | Inr info \<Rightarrow> ret (Some info)))))"

fun DiscoverCluster :: "raft_strategy \<Rightarrow> string list \<Rightarrow> cluster_info res io" where
  "DiscoverCluster r [] = ret (Inl ''no existing Raft cluster found'')"
| "DiscoverCluster r (peerAddr # rest) =
     bnd (query_status r peerAddr) (\<lambda>q. case q of
        None \<Rightarrow> DiscoverCluster r rest
      | Some info \<Rightarrow>
          if LeaderAddr info \<noteq> [] then ret (Inr info)
          else if ciState info = ''Leader'' then ret (Inr (info\<lparr>LeaderAddr := peerAddr\<rparr>))
          else DiscoverCluster r rest)"

section \<open>Joining\<close>

definition join_endpoint :: "raft_strategy \<Rightarrow> string" where
  "join_endpoint r = (if rs_standalone r then ''/raft/add-nonvoter'' else ''/raft/add-voter'')"

definition join_url :: "raft_strategy \<Rightarrow> string \<Rightarrow> string" where
  "join_url r leaderAddr = ''http://'' @ hd (split '':'' leaderAddr) @ '':8080'' @ join_endpoint r"

text \<open>\<^verbatim>\<open>_, port, _ := splitHostPort(r.bindAddr)\<close>: an error leaves the port empty.\<close>

definition local_advertise :: "raft_strategy \<Rightarrow> string" where
  "local_advertise r =
     rs_localPodIP r @ '':'' @ (case splitHostPort (rs_bindAddr r) of Inl _ \<Rightarrow> [] | Inr (_, port) \<Rightarrow> port)"

text \<open>\<^verbatim>\<open>json.Marshal\<close> of a map writes the keys in sorted order.\<close>

definition join_body :: "raft_strategy \<Rightarrow> body" where
  "join_body r =
     Json (JObj [(''address'', JStr (local_advertise r)), (''id'', JStr (rs_localPodUID r))])"

definition JoinCluster :: "raft_strategy \<Rightarrow> string \<Rightarrow> gerror io" where
  "JoinCluster r leaderAddr =
     (if \<not> rs_raft r then ret (Some ''Raft not initialized'')
      else bnd (if rs_debug r then bnd (slice8 (rs_localPodUID r)) (\<lambda>_. ret ()) else ret ()) (\<lambda>_.
        bnd (newRequest ''POST'' (join_url r leaderAddr) (join_body r)) (\<lambda>rq. case rq of
          Inl e \<Rightarrow> ret (Some (errorf ''failed to create join request'' e))
        | Inr req0 \<Rightarrow>
            let req = req0\<lparr>Header := map_set ''Content-Type'' ''application/json'' (Header req0)\<rparr>
            in bnd (sign_opt (rs_authenticator r) req) (\<lambda>sr. case sr of
                Inl e \<Rightarrow> ret (Some (errorf ''failed to sign join request'' e))
              | Inr req' \<Rightarrow>
                  bnd (httpDo req') (\<lambda>rr. case rr of
                    Inl e \<Rightarrow> ret (Some (errorf ''failed to contact leader'' e))
                  | Inr resp \<Rightarrow>
                      if StatusCode resp \<noteq> StatusOK
                      then ret (Some (''join request failed with status '' @ formatNat (StatusCode resp)))
                      else ret None)))))"

section \<open>Start\<close>

text \<open>The construction of the library object: seven calls, each of which can fail.\<close>

definition create_raft :: "raft_strategy \<Rightarrow> gerror io" where
  "create_raft r =
     check (wrap_err ''failed to create Raft data directory'' (raftSetup (MkdirAll (rs_dataDir r))))
     (case netSplitHostPort (rs_bindAddr r) of
        Inl e \<Rightarrow> ret (Some (errorf ''failed to parse bind address'' e))
      | Inr (_, bindPort) \<Rightarrow>
          (let advertiseAddr = joinHostPort (rs_localPodIP r) bindPort
           in check (wrap_err ''failed to resolve advertise address'' (raftSetup (ResolveTCPAddr advertiseAddr)))
             (check (wrap_err ''failed to create Raft transport''
                (raftSetup (NewTCPTransport (rs_bindAddr r) advertiseAddr)))
             (check (wrap_err ''failed to create snapshot store'' (raftSetup (NewFileSnapshotStore (rs_dataDir r))))
             (check (wrap_err ''failed to create log store'' (raftSetup (NewBoltStore (filepath_join (rs_dataDir r) ''raft-log.db''))))
             (check (wrap_err ''failed to create stable store''
                (raftSetup (NewBoltStore (filepath_join (rs_dataDir r) ''raft-stable.db''))))
              (wrap_err ''failed to create Raft'' (raftSetup (NewRaft (rs_localPodUID r))))))))))"

text \<open>
  The bootstrap of a one-node cluster. A failure is logged and otherwise ignored. In debug
  mode the log takes \<^verbatim>\<open>localPodUID[:8]\<close> first.
\<close>

definition bootstrap_self :: "raft_strategy \<Rightarrow> unit io" where
  "bootstrap_self r =
     (let port = (case netSplitHostPort (rs_bindAddr r) of Inl _ \<Rightarrow> [] | Inr (_, p) \<Rightarrow> p);
          me = \<lparr>srvID = rs_localPodUID r, srvAddress = joinHostPort (rs_localPodIP r) port,
                srvSuffrage = Voter\<rparr>
      in bnd (if rs_debug r then bnd (slice8 (rs_localPodUID r)) (\<lambda>_. ret ()) else ret ()) (\<lambda>_.
         bnd (raftBootstrap [me]) (\<lambda>_. ret ())))"

text \<open>Look for an existing cluster and join it; bootstrap when there is none or joining fails.\<close>

definition join_or_bootstrap :: "raft_strategy \<Rightarrow> unit io" where
  "join_or_bootstrap r =
     bnd (DiscoverCluster r (rs_peers r)) (\<lambda>d. case d of
        Inr info \<Rightarrow>
          bnd (JoinCluster r (LeaderAddr info)) (\<lambda>err. case err of
            Some _ \<Rightarrow> bootstrap_self r
          | None \<Rightarrow> ret ())
      | Inl _ \<Rightarrow> bootstrap_self r)"

definition raft_Start :: "raft_strategy \<Rightarrow> (raft_strategy \<times> gerror) io" where
  "raft_Start r0 =
     bnd (create_raft r0) (\<lambda>err. case err of
        Some e \<Rightarrow> ret (r0, Some e)
      | None \<Rightarrow>
          let r = r0\<lparr>rs_raft := True\<rparr>
          in bnd raftLastIndex (\<lambda>lastIndex.
             let hasExistingState = lastIndex > 0
             in bnd (if rs_debug r then bnd raftLastIndex (\<lambda>_. ret ()) else ret ()) (\<lambda>_.
                bnd (if \<not> hasExistingState \<and> rs_bootstrap r \<and> rs_peers r \<noteq> [] \<and> \<not> rs_standalone r
                     then join_or_bootstrap r else ret ()) (\<lambda>_.
                bnd (goStmt ''monitorLeadership'') (\<lambda>_.
                bnd (if \<not> hasExistingState \<and> \<not> rs_bootstrap r \<and> rs_peers r \<noteq> []
                     then goStmt ''autoJoinCluster''
                     else if rs_standalone r \<and> \<not> hasExistingState \<and> rs_peers r \<noteq> []
                     then goStmt ''autoJoinCluster''
                     else ret ()) (\<lambda>_. ret (r, None)))))))"

section \<open>autoJoinCluster\<close>

text \<open>
  The body of the goroutine: at most 18 attempts, five seconds apart. The result tells
  whether it returned from inside the loop. Log messages read the library's state again, and
  the one after a successful discovery takes \<^verbatim>\<open>clusterInfo.LeaderID[:8]\<close>.
\<close>

fun autoJoin_loop :: "raft_strategy \<Rightarrow> nat \<Rightarrow> bool io" where
  "autoJoin_loop r 0 = ret False"
| "autoJoin_loop r (Suc n) =
     bnd ctxDone (\<lambda>cancelled. if cancelled then ret True else
     bnd raftLeaderWithID (\<lambda>(leaderAddr, leaderID).
     bnd raftState (\<lambda>st.
       if st \<noteq> Follower \<or> leaderAddr \<noteq> [] then bnd raftState (\<lambda>_. ret True)
       else bnd raftState (\<lambda>_. bnd (DiscoverCluster r (rs_peers r)) (\<lambda>d. case d of
           Inl _ \<Rightarrow> bnd (sleep (5 * Second)) (\<lambda>_. autoJoin_loop r n)
         | Inr info \<Rightarrow>
             bnd (slice8 (LeaderID info)) (\<lambda>_.
             bnd (JoinCluster r (LeaderAddr info)) (\<lambda>err. case err of
                 Some _ \<Rightarrow> bnd (sleep (5 * Second)) (\<lambda>_. autoJoin_loop r n)
               | None \<Rightarrow>
                   bnd (sleep (2 * Second)) (\<lambda>_. bnd raftLeaderWithID (\<lambda>_.
                   bnd raftState (\<lambda>_. ret True))))))))))"

definition autoJoinCluster :: "raft_strategy \<Rightarrow> bool io" where
  "autoJoinCluster r = bnd (sleep (10 * Second)) (\<lambda>_. autoJoin_loop r 18)"

section \<open>monitorLeadership\<close>

definition raft_IsLeader :: "raft_strategy \<Rightarrow> bool io" where
  "raft_IsLeader r = (if \<not> rs_raft r then ret False else bnd raftState (\<lambda>s. ret (s = Leader)))"

text \<open>The monitor goroutine, fed with the wake-ups its \<^verbatim>\<open>select\<close> delivers; it only logs.\<close>

fun monitorLeadership :: "raft_strategy \<Rightarrow> wakeup list \<Rightarrow> unit io" where
  "monitorLeadership r [] = ret ()"
| "monitorLeadership r (Cancelled # _) = ret ()"
| "monitorLeadership r (Tick # ws) =
     bnd (if rs_debug r then bnd raftState (\<lambda>_. bnd raftLeaderWithID (\<lambda>_. bnd (raft_IsLeader r) (\<lambda>_. ret ())))
          else ret ()) (\<lambda>_. monitorLeadership r ws)"

section \<open>Queries for the leader\<close>

definition raft_Stop :: "raft_strategy \<Rightarrow> gerror io" where
  "raft_Stop r = (if rs_raft r then raftShutdown else ret None)"

definition raft_GetLeader :: "raft_strategy \<Rightarrow> (string \<times> string) res io" where
  "raft_GetLeader r =
     (if \<not> rs_raft r then ret (Inl ''Raft not initialized'')
      else bnd raftLeaderWithID (\<lambda>(leaderAddr, leaderID).
        if leaderAddr = [] then ret (Inl ''no Raft leader elected'')
        else case find (\<lambda>(_, st). PodUID st = leaderID) (rs_allStates r) of
            Some (_, st) \<Rightarrow> ret (Inr (PodName st, PodUID st))
          | None \<Rightarrow> ret (Inr (leaderID, leaderID))))"

definition raft_ElectLeader ::
  "raft_strategy \<Rightarrow> pod_state list \<Rightarrow> pod_state \<Rightarrow> (raft_strategy \<times> pod_state res) io" where
  "raft_ElectLeader r0 allStates localState =
     (let r = r0\<lparr>rs_allStates := foldl (\<lambda>m st. map_set (PodUID st) st m) (rs_allStates r0) allStates\<rparr>
      in if \<not> rs_raft r then panic ''nil pointer dereference''
         else bnd raftLeaderWithID (\<lambda>(leaderAddr, leaderID).
           if leaderAddr = [] then ret (r, Inl ''no Raft leader'')
           else case find (\<lambda>st. PodUID st = leaderID) allStates of
               Some st \<Rightarrow> ret (r\<lparr>rs_currentLeader := Some st\<rparr>, Inr st)
             | None \<Rightarrow>
                 bnd (raft_IsLeader r) (\<lambda>b.
                   if b then ret (r\<lparr>rs_currentLeader := Some localState\<rparr>, Inr localState)
                   else ret (r, Inl ''Raft leader not found in pod states''))))"

definition raft_Name :: string where
  "raft_Name = ''raft''"

section \<open>Handlers\<close>

record add_request =
  reqID :: string
  reqAddress :: string

definition add_request_fields :: "add_request field list" where
  "add_request_fields =
     [(''id'', decode_string (\<lambda>v s. s\<lparr>reqID := v\<rparr>)),
      (''address'', decode_string (\<lambda>v s. s\<lparr>reqAddress := v\<rparr>))]"

definition decode_add_request :: "body \<Rightarrow> add_request res" where
  "decode_add_request b = decode_body add_request_fields \<lparr>reqID = [], reqAddress = []\<rparr> b"

definition ok_json :: "json \<Rightarrow> http_response" where
  "ok_json j = \<lparr>StatusCode = StatusOK, RespBody = Json j\<rparr>"

definition status_json :: "string \<Rightarrow> http_response" where
  "status_json s = ok_json (JObj [(''status'', JStr s)])"

definition not_initialized :: http_response where
  "not_initialized = http_error ''Raft not initialized'' StatusServiceUnavailable"

definition HandleRaftStatus :: "raft_strategy \<Rightarrow> handler" where
  "HandleRaftStatus r req =
     (if \<not> rs_raft r then ret not_initialized
      else bnd raftLeaderWithID (\<lambda>(leaderAddr, leaderID).
           bnd raftState (\<lambda>st.
             ret (ok_json (encode_cluster_info
               \<lparr>LeaderAddr = leaderAddr, LeaderID = leaderID, ciState = role_string st,
                ciPodName = rs_localPodName r, ciPodUID = rs_localPodUID r, ciPeers = rs_peers r\<rparr>)))))"

text \<open>
  \<^verbatim>\<open>HandleAddVoter\<close> and \<^verbatim>\<open>HandleAddNonvoter\<close> differ in the library call and the texts only. The
  logs after that call take \<^verbatim>\<open>request.ID[:8]\<close> in every mode.
\<close>

definition add_server :: "suffrage \<Rightarrow> string \<Rightarrow> raft_strategy \<Rightarrow> handler" where
  "add_server suf what r req =
     (if \<not> rs_raft r then ret not_initialized
      else bnd raftState (\<lambda>st.
        if st \<noteq> Leader then
          bnd raftLeaderWithID (\<lambda>(leaderAddr, _).
            ret (http_error (''Not the leader, leader is: '' @ leaderAddr) StatusBadRequest))
        else case decode_add_request (ReqBody req) of
            Inl e \<Rightarrow> ret (http_error (''Invalid request: '' @ e) StatusBadRequest)
          | Inr request \<Rightarrow>
              if reqID request = [] \<or> reqAddress request = []
              then ret (http_error ''ID and Address are required'' StatusBadRequest)
              else bnd (if rs_debug r then bnd (slice8 (reqID request)) (\<lambda>_. ret ()) else ret ()) (\<lambda>_.
                bnd raftGetConfiguration (\<lambda>cf. case cf of
                  Inl e \<Rightarrow> ret (http_error (''Failed to get configuration: '' @ e) StatusInternalServerError)
                | Inr servers \<Rightarrow>
                    if \<exists>s \<in> set servers. srvID s = reqID request
                    then ret (status_json ''already_member'')
                    else bnd (raftAdd suf (reqID request) (reqAddress request)) (\<lambda>err.
                      bnd (slice8 (reqID request)) (\<lambda>_. case err of
                        Some e \<Rightarrow> ret (http_error (''Failed to add '' @ what @ '': '' @ e) StatusInternalServerError)
                      | None \<Rightarrow> ret (status_json ''added'')))))))"

definition HandleAddVoter :: "raft_strategy \<Rightarrow> handler" where
  "HandleAddVoter r = add_server Voter ''voter'' r"

definition HandleAddNonvoter :: "raft_strategy \<Rightarrow> handler" where
  "HandleAddNonvoter r = add_server Nonvoter ''non-voter'' r"

definition HandleRaftPeers :: "raft_strategy \<Rightarrow> handler" where
  "HandleRaftPeers r req =
     (if \<not> rs_raft r then ret not_initialized
      else bnd raftGetConfiguration (\<lambda>cf. case cf of
          Inl e \<Rightarrow> ret (http_error (''Failed to get configuration: '' @ e) StatusInternalServerError)
        | Inr servers \<Rightarrow>
            ret (ok_json (JObj
              [(''count'', JNum (int (length servers))),
               (''servers'', JArr (map (\<lambda>s. JObj
                  [(''address'', JStr (srvAddress s)), (''id'', JStr (srvID s)),
                   (''suffrage'', JStr (suffrage_string (srvSuffrage s)))]) servers))]))))"

end
