(* ===== verification/Redis_Client.thy ===== *)
theory Redis_Client
  imports Go_IO
begin

text \<open>
  The Redis client (\<^verbatim>\<open>pkg/redis/client.go\<close>): the parser for the output of \<^verbatim>\<open>INFO replication\<close>
  and the commands sent to the local Redis server.
\<close>

section \<open>ReplicationInfo and its parser\<close>

record replication_info =
  Role :: string
  MasterHost :: string
  MasterPort :: int
  ConnectedSlaves :: int
  MasterLinkStatus :: string

definition empty_info :: replication_info where
  "empty_info = \<lparr>Role = [], MasterHost = [], MasterPort = 0, ConnectedSlaves = 0,
     MasterLinkStatus = []\<rparr>"

text \<open>The \<^verbatim>\<open>switch\<close> on a trimmed key: an unreadable number leaves the field as it was.\<close>

definition set_field :: "string \<Rightarrow> string \<Rightarrow> replication_info \<Rightarrow> replication_info" where
  "set_field key v r =
     (if key = ''role'' then r\<lparr>Role := v\<rparr>
      else if key = ''master_host'' then r\<lparr>MasterHost := v\<rparr>
      else if key = ''master_port'' then
        (case parseInt v of None \<Rightarrow> r | Some p \<Rightarrow> r\<lparr>MasterPort := p\<rparr>)
      else if key = ''connected_slaves'' then
        (case parseInt v of None \<Rightarrow> r | Some c \<Rightarrow> r\<lparr>ConnectedSlaves := c\<rparr>)
      else if key = ''master_link_status'' then r\<lparr>MasterLinkStatus := v\<rparr>
      else r)"

definition parse_line :: "string \<Rightarrow> replication_info \<Rightarrow> replication_info" where
  "parse_line line r =
     (if line = [] \<or> hasPrefix line ''#'' then r
      else case splitN2 line '':'' of
          [k, v] \<Rightarrow> set_field (trimSpace k) (trimSpace v) r
        | _ \<Rightarrow> r)"

definition parseReplicationInfo :: "string \<Rightarrow> replication_info res" where
  "parseReplicationInfo info =
     (let result = fold parse_line (split crlf info) empty_info
      in if Role result = [] then Inl ''could not parse role from replication info''
         else Inr result)"

section \<open>Client\<close>

record redis_client =
  useTLS :: bool

definition NewClient ::
  "string \<Rightarrow> int \<Rightarrow> string \<Rightarrow> bool \<Rightarrow> bool \<Rightarrow> redis_client res io" where
  "NewClient host port password tls skipVerify =
     bnd (redisConnect (host @ '':'' @ formatInt port) password tls (tls \<and> skipVerify)) (\<lambda>_.
     bnd redisPing (\<lambda>err. case err of
        Some e \<Rightarrow> ret (Inl (errorf ''failed to connect to Redis'' e))
      | None \<Rightarrow> ret (Inr \<lparr>useTLS = tls\<rparr>)))"

definition GetReplicationInfo :: "redis_client \<Rightarrow> replication_info res io" where
  "GetReplicationInfo c =
     bnd (redisInfo ''replication'') (\<lambda>r. case r of
        Inl e \<Rightarrow> ret (Inl (errorf ''failed to get replication info'' e))
      | Inr info \<Rightarrow> ret (parseReplicationInfo info))"

definition PromoteToMaster :: "redis_client \<Rightarrow> gerror io" where
  "PromoteToMaster c =
     wrap_err ''failed to promote to master'' (redisDo [''REPLICAOF'', ''NO'', ''ONE''])"

definition SetReplicaOf :: "redis_client \<Rightarrow> string \<Rightarrow> int \<Rightarrow> gerror io" where
  "SetReplicaOf c masterHost masterPort =
     wrap_err ''failed to set replica''
       (redisDo [''REPLICAOF'', masterHost, formatInt masterPort])"

definition IsHealthyRedis :: "redis_client \<Rightarrow> bool io" where
  "IsHealthyRedis c = bnd redisPing (\<lambda>err. ret (err = None))"

definition CloseRedis :: "redis_client \<Rightarrow> gerror io" where
  "CloseRedis c = redisClose"

text \<open>
  \<^verbatim>\<open>o.redisClient.M(...)\<close> on a pointer that may be \<^verbatim>\<open>nil\<close>: the methods read a field of the
  receiver, so a nil client panics.
\<close>

definition with_client :: "redis_client option \<Rightarrow> (redis_client \<Rightarrow> 'a io) \<Rightarrow> 'a io" where
  "with_client p f = (case p of None \<Rightarrow> panic ''nil pointer dereference'' | Some c \<Rightarrow> f c)"

lemma with_client_simps [simp]:
  "with_client (Some c) f = f c" "with_client None f = panic ''nil pointer dereference''"
  by (simp_all add: with_client_def)

lemmas redis_ops = NewClient_def GetReplicationInfo_def PromoteToMaster_def SetReplicaOf_def
  IsHealthyRedis_def CloseRedis_def

section \<open>Lemmas on the parser\<close>

text \<open>
  A well-formed line is \<open>k:v\<close> with a key free of colons and of white space at its ends; what
  the parser makes of it is \<open>set_field\<close>.
\<close>


definition good_key :: "string \<Rightarrow> bool" where
  "good_key k \<longleftrightarrow> k \<noteq> [] \<and> trimmed k \<and> hd k \<noteq> CHR ''#'' \<and> CHR '':'' \<notin> set k \<and> crlf_free k"

definition good_value :: "string \<Rightarrow> bool" where
  "good_value v \<longleftrightarrow> trimmed v \<and> crlf_free v"

definition info_line :: "string \<times> string \<Rightarrow> string" where
  "info_line kv = fst kv @ '':'' @ snd kv"

text \<open>What a Redis server prints for \<^verbatim>\<open>INFO replication\<close>: a title and one line per field.\<close>

definition render_info :: "(string \<times> string) list \<Rightarrow> string" where
  "render_info kvs = joinWith crlf (''# Replication'' # map info_line kvs @ [[]])"


lemma parse_line_info_line:
  assumes "good_key k" and "good_value v"
  shows "parse_line (info_line (k, v)) r = set_field k v r"
proof -
  obtain c cs where k: "k = c # cs" using assms(1) by (cases k) (auto simp: good_key_def)
  have "splitN2 (k @ '':'' @ v) '':'' = [k, v]"
    using assms(1) by (simp add: good_key_def splitN2_char_append)
  moreover have "trimSpace k = k" "trimSpace v = v"
    using assms by (simp_all add: good_key_def good_value_def trimSpace_trimmed)
  moreover have "\<not> hasPrefix (k @ '':'' @ v) ''#''"
    using assms(1) k by (simp add: good_key_def go_str)
  ultimately show ?thesis using k by (simp add: parse_line_def info_line_def)
qed

lemma parse_line_comment: "parse_line (CHR ''#'' # s) r = r"
  by (simp add: parse_line_def go_str)

lemma parse_line_Nil [simp]: "parse_line [] r = r"
  by (simp add: parse_line_def)

lemma fold_info_lines:
  "\<forall>(k, v) \<in> set kvs. good_key k \<and> good_value v \<Longrightarrow>
     fold parse_line (map info_line kvs) r = fold (\<lambda>(k, v). set_field k v) kvs r"
  by (induction kvs arbitrary: r) (auto simp: parse_line_info_line)

lemma split_render_info:
  assumes "\<forall>(k, v) \<in> set kvs. good_key k \<and> good_value v"
  shows "split crlf (render_info kvs) = ''# Replication'' # map info_line kvs @ [[]]"
  unfolding render_info_def
proof (rule split_join_crlf)
  show "\<forall>x \<in> set (''# Replication'' # map info_line kvs @ [[]]). crlf_free x"
    using assms by (fastforce simp: crlf_free_def info_line_def good_key_def good_value_def)
qed simp

text \<open>The fields of a fold of \<open>set_field\<close>: the last line with the key decides.\<close>

definition last_value :: "string \<Rightarrow> (string \<times> string) list \<Rightarrow> string \<Rightarrow> string" where
  "last_value key kvs d = (case map_of (rev kvs) key of None \<Rightarrow> d | Some v \<Rightarrow> v)"

lemma last_value_snoc [simp]:
  "last_value key (kvs @ [(k, v)]) d = (if k = key then v else last_value key kvs d)"
  by (simp add: last_value_def)

lemma set_field_other:
  "Role (set_field k v r) = (if k = ''role'' then v else Role r)"
  "MasterHost (set_field k v r) = (if k = ''master_host'' then v else MasterHost r)"
  "MasterLinkStatus (set_field k v r) =
     (if k = ''master_link_status'' then v else MasterLinkStatus r)"
  by (auto simp: set_field_def split: option.splits)

lemma fold_set_field_strings:
  "Role (fold (\<lambda>(k, v). set_field k v) kvs r) = last_value ''role'' kvs (Role r)"
  "MasterHost (fold (\<lambda>(k, v). set_field k v) kvs r) = last_value ''master_host'' kvs (MasterHost r)"
  "MasterLinkStatus (fold (\<lambda>(k, v). set_field k v) kvs r) =
     last_value ''master_link_status'' kvs (MasterLinkStatus r)"
proof (induction kvs rule: rev_induct)
  case (snoc kv kvs)
  obtain k v where kv: "kv = (k, v)" by force
  {
    case 1
    show ?case using snoc by (simp add: kv set_field_other)
  next
    case 2
    show ?case using snoc by (simp add: kv set_field_other)
  next
    case 3
    show ?case using snoc by (simp add: kv set_field_other)
  }
qed (simp_all add: last_value_def)

lemma MasterPort_set_field:
  "MasterPort (set_field k v r) =
     (if k = ''master_port'' then (case parseInt v of None \<Rightarrow> MasterPort r | Some p \<Rightarrow> p)
      else MasterPort r)"
  by (auto simp: set_field_def split: option.splits)

lemma ConnectedSlaves_set_field:
  "ConnectedSlaves (set_field k v r) =
     (if k = ''connected_slaves'' then (case parseInt v of None \<Rightarrow> ConnectedSlaves r | Some p \<Rightarrow> p)
      else ConnectedSlaves r)"
  by (auto simp: set_field_def split: option.splits)

lemma fold_set_field_absent:
  "''master_port'' \<notin> fst ` set kvs \<Longrightarrow>
     MasterPort (fold (\<lambda>(k, v). set_field k v) kvs r) = MasterPort r"
  by (induction kvs arbitrary: r) (auto simp: MasterPort_set_field)

lemma parseReplicationInfo_render:
  assumes "\<forall>(k, v) \<in> set kvs. good_key k \<and> good_value v"
  shows "parseReplicationInfo (render_info kvs) =
    (let r = fold (\<lambda>(k, v). set_field k v) kvs empty_info
     in if last_value ''role'' kvs [] = [] then Inl ''could not parse role from replication info''
        else Inr r)"
proof -
  have "fold parse_line (split crlf (render_info kvs)) empty_info =
      fold (\<lambda>(k, v). set_field k v) kvs empty_info"
    using assms by (simp add: split_render_info parse_line_comment fold_info_lines)
  then show ?thesis
    by (simp add: parseReplicationInfo_def Let_def fold_set_field_strings empty_info_def)
qed

section \<open>Calls and panics\<close>

text \<open>What each operation returns and which call it makes.\<close>

lemma redis_runs:
  "GetReplicationInfo c E t =
     (Ret (case x_redis_info E t ''replication'' of
        Inl e \<Rightarrow> Inl (errorf ''failed to get replication info'' e)
      | Inr s \<Rightarrow> parseReplicationInfo s), RedisInfo ''replication'' # t)"
  "SetReplicaOf c h p E t =
     (Ret (map_option (errorf ''failed to set replica'') (x_redis_do E t [''REPLICAOF'', h, formatInt p])),
      RedisDo [''REPLICAOF'', h, formatInt p] # t)"
  "PromoteToMaster c E t =
     (Ret (map_option (errorf ''failed to promote to master'') (x_redis_do E t [''REPLICAOF'', ''NO'', ''ONE''])),
      RedisDo [''REPLICAOF'', ''NO'', ''ONE''] # t)"
  "IsHealthyRedis c E t = (Ret (x_redis_ping E t = None), RedisPing # t)"
  by (simp_all add: redis_ops call_defs wrap_err_def split: sum.splits)

lemma emits_GetReplicationInfo:
  "Q (RedisInfo ''replication'') \<Longrightarrow> emits Q (GetReplicationInfo c)"
  unfolding GetReplicationInfo_def redisInfo_def by (intro emit_intros) (simp add: emits_call)

lemma emits_PromoteToMaster:
  "Q (RedisDo [''REPLICAOF'', ''NO'', ''ONE'']) \<Longrightarrow> emits Q (PromoteToMaster c)"
  unfolding PromoteToMaster_def redisDo_def by (intro emit_intros) (simp add: emits_call)

lemma emits_SetReplicaOf:
  "Q (RedisDo [''REPLICAOF'', h, formatInt p]) \<Longrightarrow> emits Q (SetReplicaOf c h p)"
  unfolding SetReplicaOf_def redisDo_def by (intro emit_intros) (simp add: emits_call)

lemma emits_IsHealthyRedis: "Q RedisPing \<Longrightarrow> emits Q (IsHealthyRedis c)"
  unfolding IsHealthyRedis_def redisPing_def by (intro emit_intros) (simp add: emits_call)

lemma returns_redis [simp]:
  "returns (GetReplicationInfo c)" "returns (PromoteToMaster c)" "returns (SetReplicaOf c h p)"
  "returns (IsHealthyRedis c)" "returns (CloseRedis c)" "returns (NewClient h p pw tls sk)"
  by (auto simp: returns_def redis_ops call_defs split: option.splits sum.splits)

section \<open>Properties\<close>

text \<open>The fields of a record as a server reports them.\<close>

definition info_fields :: "replication_info \<Rightarrow> (string \<times> string) list" where
  "info_fields r = [(''role'', Role r), (''connected_slaves'', formatInt (ConnectedSlaves r)),
     (''master_host'', MasterHost r), (''master_port'', formatInt (MasterPort r)),
     (''master_link_status'', MasterLinkStatus r)]"

lemma space_no_digit: "c \<in> hd ` set spaces \<Longrightarrow> digitVal c = None \<and> c \<noteq> CHR ''-''"
  by (auto simp: spaces_def digitVal_def)

lemma good_value_formatInt: "good_value (formatInt n)"
proof -
  have "set (formatInt n) \<inter> hd ` set spaces = {}"
    using space_no_digit formatInt_no_char [of _ n] by blast
  then have "trimmed (formatInt n)" by (rule trimmedI)
  moreover have "CHR 0x0D \<notin> set (formatInt n)" "CHR 0x0A \<notin> set (formatInt n)"
    by (rule formatInt_no_char; simp add: digitVal_def)+
  ultimately show ?thesis by (simp add: good_value_def crlf_free_def)
qed

text \<open>
  C29. Whatever replication record a server reports, one line per field under a title and in
  CRLF lines, the parser reads back, provided that the texts are trimmed and without line
  breaks, the role is present, and the numbers fit Go's \<^verbatim>\<open>int\<close>.
\<close>

theorem parse_info_roundtrip:
  assumes "good_value (Role r)" and "good_value (MasterHost r)" and "good_value (MasterLinkStatus r)"
    and "Role r \<noteq> []" and "inInt64 (MasterPort r)" and "inInt64 (ConnectedSlaves r)"
  shows "parseReplicationInfo (render_info (info_fields r)) = Inr r"
proof -
  have "\<forall>(k, v) \<in> set (info_fields r). good_key k \<and> good_value v"
    using assms(1-3)
    by (simp add: info_fields_def good_value_formatInt)
      (simp add: good_key_def trimmedI crlf_free_def spaces_def)
  then show ?thesis
    using assms(4-)
    by (subst parseReplicationInfo_render)
      (simp_all add: info_fields_def last_value_def set_field_def empty_info_def Let_def)
qed

theorem parse_info_roundtrip_witness:
  "parseReplicationInfo (render_info (info_fields
     \<lparr>Role = ''slave'', MasterHost = ''redis'', MasterPort = 6379, ConnectedSlaves = 0,
      MasterLinkStatus = ''down''\<rparr>)) =
   Inr \<lparr>Role = ''slave'', MasterHost = ''redis'', MasterPort = 6379, ConnectedSlaves = 0,
      MasterLinkStatus = ''down''\<rparr>"
  by (rule parse_info_roundtrip)
    (simp_all add: good_value_def trimmedI crlf_free_def spaces_def inInt64_def)

text \<open>
  On any list of well-formed lines, with unknown keys and repeated ones, the parser fails
  exactly when the last role given is empty or none is given, and otherwise takes for each
  text field the last line with its key.
\<close>

lemma parse_info_last_line:
  assumes "\<forall>(k, v) \<in> set kvs. good_key k \<and> good_value v"
  shows "case parseReplicationInfo (render_info kvs) of
     Inl e \<Rightarrow> last_value ''role'' kvs [] = []
   | Inr r \<Rightarrow> Role r \<noteq> [] \<and> Role r = last_value ''role'' kvs [] \<and>
       MasterHost r = last_value ''master_host'' kvs [] \<and>
       MasterLinkStatus r = last_value ''master_link_status'' kvs []"
  using assms
  by (simp add: parseReplicationInfo_render Let_def fold_set_field_strings empty_info_def)

end
