(* ===== verification/Config.thy ===== *)
theory Config
  imports Go_IO
begin

text \<open>
  Configuration: the struct of \<^verbatim>\<open>pkg/config/config.go\<close> and the part of \<^verbatim>\<open>main.go\<close> that turns the
  parsed command line and the environment variables into it.
\<close>

section \<open>config.Config\<close>

definition ElectionModeDeterministic :: string where
  "ElectionModeDeterministic = ''deterministic''"

definition ElectionModeRaft :: string where
  "ElectionModeRaft = ''raft''"

lemma election_modes [simp]:
  "ElectionModeDeterministic \<noteq> ElectionModeRaft" "ElectionModeRaft \<noteq> ElectionModeDeterministic"
  "ElectionModeRaft \<noteq> []" "ElectionModeDeterministic \<noteq> []"
  by (simp_all add: ElectionModeDeterministic_def ElectionModeRaft_def)

record config =
  RedisHost :: string
  RedisPort :: int
  RedisPassword :: string
  RedisTLS :: bool
  RedisTLSSkipVerify :: bool
  RedisServiceName :: string
  MasterServiceName :: string
  SyncInterval :: int
  cfgPodName :: string
  cfgNamespace :: string
  LabelSelector :: string
  ElectionMode :: string
  RaftBindAddr :: string
  RaftPeers :: "string list"
  RaftDataDir :: string
  cfgRaftBootstrap :: bool
  DiscoverLBService :: bool
  SharedSecret :: string
  Standalone :: bool
  NoPromote :: bool
  Debug :: bool

section \<open>Flags\<close>

text \<open>
  The variables the flags write: the configuration itself and three variables of \<^verbatim>\<open>main\<close>.
  \<open>flag_defaults\<close> are their values when no flag is given.
\<close>

record flags =
  f_cfg :: config
  f_electionMode :: string
  f_raftPeersStr :: string
  f_raftBootstrapSet :: bool

definition flag_defaults :: "(string \<Rightarrow> string) \<Rightarrow> flags" where
  "flag_defaults getenv =
     \<lparr>f_cfg = \<lparr>RedisHost = ''localhost'', RedisPort = 6379, RedisPassword = [],
        RedisTLS = False, RedisTLSSkipVerify = False, RedisServiceName = ''redis'',
        MasterServiceName = [], SyncInterval = 15 * Second,
        cfgPodName = getenv ''POD_NAME'', cfgNamespace = getenv ''POD_NAMESPACE'',
        LabelSelector = ''app=redis'', ElectionMode = [],
        RaftBindAddr = ''0.0.0.0:7000'', RaftPeers = [],
        RaftDataDir = ''/var/lib/redis-orchestrator/raft'', cfgRaftBootstrap = False,
        DiscoverLBService = False, SharedSecret = getenv ''SHARED_SECRET'',
        Standalone = False, NoPromote = False, Debug = False\<rparr>,
      f_electionMode = ''deterministic'', f_raftPeersStr = [], f_raftBootstrapSet = False\<rparr>"

section \<open>From flags to configuration\<close>

text \<open>The steps of \<^verbatim>\<open>main\<close> between \<^verbatim>\<open>flag.Parse\<close> and the creation of the Kubernetes client; the
  left side of the result is the message of a \<^verbatim>\<open>klog.Fatal\<close>.\<close>

definition select_mode :: "flags \<Rightarrow> config res" where
  "select_mode f =
     (let m = f_electionMode f; cfg = f_cfg f
      in if m = ''deterministic'' \<or> m = [] then Inr (cfg\<lparr>ElectionMode := ElectionModeDeterministic\<rparr>)
         else if m = ''raft'' then Inr (cfg\<lparr>ElectionMode := ElectionModeRaft\<rparr>)
         else Inl (''Invalid election mode: '' @ m @ '' (must be 'deterministic' or 'raft')''))"

definition apply_env :: "(string \<Rightarrow> string) \<Rightarrow> flags \<Rightarrow> config \<Rightarrow> config" where
  "apply_env getenv f cfg0 =
     (let cfg1 = (if f_raftPeersStr f \<noteq> [] then cfg0\<lparr>RaftPeers := split '','' (f_raftPeersStr f)\<rparr>
                  else cfg0);
          cfg2 = (if getenv ''REDIS_PASSWORD'' \<noteq> [] \<and> RedisPassword cfg1 = []
                  then cfg1\<lparr>RedisPassword := getenv ''REDIS_PASSWORD''\<rparr> else cfg1)
      in if getenv ''SHARED_SECRET'' \<noteq> [] \<and> SharedSecret cfg2 = []
         then cfg2\<lparr>SharedSecret := getenv ''SHARED_SECRET''\<rparr> else cfg2)"

definition set_bootstrap :: "flags \<Rightarrow> config \<Rightarrow> config" where
  "set_bootstrap f cfg =
     (if hasSuffix (cfgPodName cfg) ''-0'' then
        (if \<not> f_raftBootstrapSet f then cfg\<lparr>cfgRaftBootstrap := True\<rparr>
         else cfg\<lparr>cfgRaftBootstrap := f_raftBootstrapSet f\<rparr>)
      else cfg\<lparr>cfgRaftBootstrap := False\<rparr>)"

definition main_config :: "(string \<Rightarrow> string) \<Rightarrow> flags \<Rightarrow> config res" where
  "main_config getenv f =
     (case select_mode f of
        Inl e \<Rightarrow> Inl e
      | Inr cfg0 \<Rightarrow>
          (let cfg = apply_env getenv f cfg0
           in if cfgPodName cfg = [] then Inl ''POD_NAME is required''
              else if cfgNamespace cfg = [] then Inl ''POD_NAMESPACE is required''
              else if ElectionMode cfg = ElectionModeRaft \<and> RaftBindAddr cfg = []
                then Inl ''--raft-bind is required for Raft mode''
              else let cfg' = (if ElectionMode cfg = ElectionModeRaft then set_bootstrap f cfg else cfg)
                in if Standalone cfg' \<and> ElectionMode cfg' \<noteq> ElectionModeRaft
                   then Inl ''--standalone mode requires --election-mode=raft''
                   else Inr cfg'))"

section \<open>Lemmas\<close>

lemma select_mode_cases:
  assumes "select_mode f = Inr cfg"
  shows "ElectionMode cfg = ElectionModeDeterministic \<or> ElectionMode cfg = ElectionModeRaft"
    and "\<exists>m. cfg = (f_cfg f)\<lparr>ElectionMode := m\<rparr>"
  using assms by (auto simp: select_mode_def Let_def split: if_splits)

lemma apply_env_frame [simp]:
  "ElectionMode (apply_env g f c) = ElectionMode c" "cfgPodName (apply_env g f c) = cfgPodName c"
  "cfgNamespace (apply_env g f c) = cfgNamespace c" "RaftBindAddr (apply_env g f c) = RaftBindAddr c"
  "Standalone (apply_env g f c) = Standalone c" "NoPromote (apply_env g f c) = NoPromote c"
  "cfgRaftBootstrap (apply_env g f c) = cfgRaftBootstrap c" "Debug (apply_env g f c) = Debug c"
  "SyncInterval (apply_env g f c) = SyncInterval c"
  by (auto simp: apply_env_def Let_def)

lemma set_bootstrap_eq:
  "set_bootstrap f cfg = cfg\<lparr>cfgRaftBootstrap := hasSuffix (cfgPodName cfg) ''-0''\<rparr>"
  by (simp add: set_bootstrap_def)

lemma main_config_cases:
  assumes "main_config g f = Inr cfg"
  obtains cfg0 where "select_mode f = Inr cfg0"
    and "cfg = (if ElectionMode cfg0 = ElectionModeRaft
                then (apply_env g f cfg0)\<lparr>cfgRaftBootstrap := hasSuffix (cfgPodName cfg0) ''-0''\<rparr>
                else apply_env g f cfg0)"
    and "cfgPodName cfg0 \<noteq> []" and "cfgNamespace cfg0 \<noteq> []"
    and "ElectionMode cfg0 = ElectionModeRaft \<longrightarrow> RaftBindAddr cfg0 \<noteq> []"
    and "Standalone cfg0 \<longrightarrow> ElectionMode cfg0 = ElectionModeRaft"
  using assms
  by (auto simp: main_config_def Let_def set_bootstrap_eq split: sum.splits if_splits)

lemma main_config_frame:
  assumes "main_config g f = Inr cfg"
  shows "Debug cfg = Debug (f_cfg f) \<and> SyncInterval cfg = SyncInterval (f_cfg f) \<and>
    Standalone cfg = Standalone (f_cfg f)"
proof -
  obtain cfg0 where s: "select_mode f = Inr cfg0" and c: "cfg = (if ElectionMode cfg0 = ElectionModeRaft
      then (apply_env g f cfg0)\<lparr>cfgRaftBootstrap := hasSuffix (cfgPodName cfg0) ''-0''\<rparr>
      else apply_env g f cfg0)"
    using assms by (rule main_config_cases)
  obtain m where "cfg0 = (f_cfg f)\<lparr>ElectionMode := m\<rparr>" using select_mode_cases(2) [OF s] by blast
  then show ?thesis by (simp add: c)
qed

section \<open>Properties\<close>

text \<open>
  C35. A configuration that passes the checks of \<^verbatim>\<open>main\<close> names its pod and namespace, selects one
  of the two election modes, has a bind address in Raft mode, is a witness only in Raft mode,
  and bootstraps in Raft mode exactly when its pod is the first of its StatefulSet.
\<close>

theorem main_config_valid:
  assumes "main_config getenv f = Inr cfg"
  shows "cfgPodName cfg \<noteq> [] \<and> cfgNamespace cfg \<noteq> [] \<and>
    ElectionMode cfg \<in> {ElectionModeDeterministic, ElectionModeRaft} \<and>
    (ElectionMode cfg = ElectionModeRaft \<longrightarrow> RaftBindAddr cfg \<noteq> []) \<and>
    (Standalone cfg \<longrightarrow> ElectionMode cfg = ElectionModeRaft) \<and>
    (ElectionMode cfg = ElectionModeRaft \<longrightarrow>
       (cfgRaftBootstrap cfg \<longleftrightarrow> hasSuffix (cfgPodName cfg) ''-0''))"
proof (rule main_config_cases [OF assms])
  fix cfg0
  assume m: "select_mode f = Inr cfg0"
    and c: "cfg = (if ElectionMode cfg0 = ElectionModeRaft
      then (apply_env getenv f cfg0)\<lparr>cfgRaftBootstrap := hasSuffix (cfgPodName cfg0) ''-0''\<rparr>
      else apply_env getenv f cfg0)"
    and "cfgPodName cfg0 \<noteq> []" "cfgNamespace cfg0 \<noteq> []"
      "ElectionMode cfg0 = ElectionModeRaft \<longrightarrow> RaftBindAddr cfg0 \<noteq> []"
      "Standalone cfg0 \<longrightarrow> ElectionMode cfg0 = ElectionModeRaft"
  then show ?thesis using select_mode_cases(1) [OF m] by (auto simp: c)
qed

definition demo_getenv :: "string \<Rightarrow> string" where
  "demo_getenv v = (if v = ''POD_NAME'' then ''redis-0'' else if v = ''POD_NAMESPACE'' then ''default'' else [])"

definition demo_flags :: flags where
  "demo_flags = (flag_defaults demo_getenv)\<lparr>f_electionMode := ''raft''\<rparr>"

definition demo_config :: config where
  "demo_config = (case main_config demo_getenv demo_flags of Inr cfg \<Rightarrow> cfg | Inl _ \<Rightarrow> f_cfg demo_flags)"

lemmas demo_config_defs = demo_config_def main_config_def demo_flags_def flag_defaults_def
  demo_getenv_def select_mode_def apply_env_def set_bootstrap_eq hasSuffix_def Let_def
  ElectionModeRaft_def

theorem main_config_valid_witness:
  "main_config demo_getenv demo_flags = Inr demo_config \<and> cfgPodName demo_config = ''redis-0'' \<and>
    cfgRaftBootstrap demo_config"
proof -
  have m: "main_config demo_getenv demo_flags = Inr demo_config" by (simp add: demo_config_defs)
  have n: "cfgPodName demo_config = ''redis-0''" "ElectionMode demo_config = ElectionModeRaft"
    by (simp_all add: demo_config_defs)
  show ?thesis using main_config_valid [OF m] m n by (simp add: hasSuffix_def)
qed

text \<open>
  The flag \<^verbatim>\<open>--raft-bootstrap\<close> has no influence on the configuration, although it is there to
  override the decision by the pod's name.
\<close>

lemma bootstrap_flag_ignored:
  "main_config getenv (f\<lparr>f_raftBootstrapSet := b\<rparr>) = main_config getenv f"
  by (simp add: main_config_def set_bootstrap_eq select_mode_def apply_env_def Let_def
      cong: sum.case_cong if_cong)

end
