(* ===== verification/Pod_Labels.thy ===== *)
theory Pod_Labels
  imports Config
begin

text \<open>
  The parts of \<^verbatim>\<open>pkg/orchestrator/orchestrator.go\<close> that work on Kubernetes objects: the label
  that marks the master's pod, and the search for a LoadBalancer service of this pod.
\<close>

section \<open>The master label\<close>

definition MasterLabel :: string where
  "MasterLabel = ''redis-role''"

definition MasterLabelValue :: string where
  "MasterLabelValue = ''master''"

text \<open>A \<^verbatim>\<open>nil\<close> label map reads as empty.\<close>

definition labels_of :: "kube_pod \<Rightarrow> string gomap" where
  "labels_of p = (case kLabels p of None \<Rightarrow> [] | Some m \<Rightarrow> m)"

lemma labels_of_update [simp]: "labels_of (p\<lparr>kLabels := Some m\<rparr>) = m"
  by (simp add: labels_of_def)

definition ensureMasterLabel :: "config \<Rightarrow> gerror io" where
  "ensureMasterLabel cfg =
     (if NoPromote cfg then ret None
      else bnd (podGet (cfgNamespace cfg) (cfgPodName cfg)) (\<lambda>r. case r of
          Inl e \<Rightarrow> ret (Some (errorf ''failed to get pod'' e))
        | Inr pod \<Rightarrow>
            if map_get (labels_of pod) MasterLabel = MasterLabelValue then ret None
            else wrap_err ''failed to update pod label''
              (podUpdate (cfgNamespace cfg)
                 (pod\<lparr>kLabels := Some (map_set MasterLabel MasterLabelValue (labels_of pod))\<rparr>))))"

definition removeMasterLabel :: "config \<Rightarrow> gerror io" where
  "removeMasterLabel cfg =
     bnd (podGet (cfgNamespace cfg) (cfgPodName cfg)) (\<lambda>r. case r of
        Inl e \<Rightarrow> ret (Some (errorf ''failed to get pod'' e))
      | Inr pod \<Rightarrow>
          if kLabels pod = None \<or> map_get (labels_of pod) MasterLabel = [] then ret None
          else wrap_err ''failed to update pod label''
            (podUpdate (cfgNamespace cfg)
               (pod\<lparr>kLabels := Some (map_del MasterLabel (labels_of pod))\<rparr>)))"

section \<open>LoadBalancer discovery\<close>

definition podNameSelectorKeys :: "string list" where
  "podNameSelectorKeys = [''statefulset.kubernetes.io/pod-name'', ''pod-name'', ''pod'']"

text \<open>
  The first loop of \<^verbatim>\<open>matchesSelectorWithPodName\<close>: \<^const>\<open>None\<close> when a selector does not match,
  otherwise whether one of the well-known keys carries the pod's name.
\<close>

fun match_selectors ::
  "string gomap \<Rightarrow> string \<Rightarrow> bool \<Rightarrow> (string \<times> string) list \<Rightarrow> bool option" where
  "match_selectors podLabels podName matched [] = Some matched"
| "match_selectors podLabels podName matched ((key, v) # sel) =
     (if map_get podLabels key \<noteq> v then None
      else match_selectors podLabels podName
        (matched \<or> (key \<in> set podNameSelectorKeys \<and> v = podName)) sel)"

definition matchesSelectorWithPodName :: "string gomap \<Rightarrow> string gomap \<Rightarrow> string \<Rightarrow> bool" where
  "matchesSelectorWithPodName podLabels selector podName =
     (if selector = [] then False
      else case match_selectors podLabels podName False selector of
          None \<Rightarrow> False
        | Some True \<Rightarrow> True
        | Some False \<Rightarrow> (\<exists>(k, v) \<in> set selector. v = podName))"

definition ServiceTypeLoadBalancer :: string where
  "ServiceTypeLoadBalancer = ''LoadBalancer''"

text \<open>The loop over the services: the first usable answer, as (IP, service name).\<close>

fun pick_service :: "string gomap \<Rightarrow> string \<Rightarrow> service list \<Rightarrow> string \<times> string" where
  "pick_service podLabels podName [] = ([], [])"
| "pick_service podLabels podName (svc # rest) =
     (if sType svc \<noteq> ServiceTypeLoadBalancer then pick_service podLabels podName rest
      else if \<not> matchesSelectorWithPodName podLabels (sSelector svc) podName
        then pick_service podLabels podName rest
      else case sIngress svc of
          [] \<Rightarrow> ([], sName svc)
        | ing # _ \<Rightarrow>
            if IP ing \<noteq> [] then (IP ing, sName svc)
            else if Hostname ing \<noteq> [] then ([], sName svc)
            else pick_service podLabels podName rest)"

definition discoverLoadBalancerIP :: "string \<Rightarrow> string \<Rightarrow> (string \<times> string) res io" where
  "discoverLoadBalancerIP namespace podName =
     bnd (podGet namespace podName) (\<lambda>r. case r of
        Inl e \<Rightarrow> ret (Inl (errorf (''failed to get pod '' @ podName) e))
      | Inr pod \<Rightarrow>
          bnd (serviceList namespace) (\<lambda>s. case s of
            Inl e \<Rightarrow> ret (Inl (errorf ''failed to list services'' e))
          | Inr services \<Rightarrow> ret (Inr (pick_service (labels_of pod) podName services))))"

text \<open>
  The retry loop of \<^verbatim>\<open>New\<close>, with the number of attempts left; the result is the address
  other nodes will be told.
\<close>

fun lb_retry :: "config \<Rightarrow> string \<Rightarrow> nat \<Rightarrow> string res io" where
  "lb_retry cfg pod_ip 0 = ret (Inr pod_ip)"
| "lb_retry cfg pod_ip (Suc n) =
     bnd (discoverLoadBalancerIP (cfgNamespace cfg) (cfgPodName cfg)) (\<lambda>r. case r of
        Inl e \<Rightarrow>
          if 0 < n then bnd (sleep (5 * Second)) (\<lambda>_. lb_retry cfg pod_ip n)
          else ret (Inl (errorf ''failed to discover LoadBalancer IP after 12 attempts'' e))
      | Inr (lbIP, svcName) \<Rightarrow>
          if lbIP \<noteq> [] then ret (Inr lbIP)
          else if svcName \<noteq> [] then
            (if 0 < n then bnd (sleep (5 * Second)) (\<lambda>_. lb_retry cfg pod_ip n)
             else ret (Inr pod_ip))
          else ret (Inr pod_ip))"

definition node_ip :: "config \<Rightarrow> string \<Rightarrow> string res io" where
  "node_ip cfg pod_ip =
     (if DiscoverLBService cfg then lb_retry cfg pod_ip 12 else ret (Inr pod_ip))"

section \<open>Lemmas\<close>

lemma match_selectors_Some:
  "match_selectors L p m sel = Some b \<longleftrightarrow>
     (\<forall>(k, v) \<in> set sel. map_get L k = v) \<and>
     (b \<longleftrightarrow> m \<or> (\<exists>(k, v) \<in> set sel. k \<in> set podNameSelectorKeys \<and> v = p))"
  by (induction L p m sel rule: match_selectors.induct) auto

lemma match_selectors_None:
  "match_selectors L p m sel = None \<longleftrightarrow> \<not> (\<forall>(k, v) \<in> set sel. map_get L k = v)"
  by (induction L p m sel rule: match_selectors.induct) auto

lemma returns_ensureMasterLabel [simp]: "returns (ensureMasterLabel cfg)"
  by (auto simp: ensureMasterLabel_def podGet_def podUpdate_def intro!: returns_bnd returns_wrap
      split: sum.splits)

lemma returns_removeMasterLabel [simp]: "returns (removeMasterLabel cfg)"
  by (auto simp: removeMasterLabel_def podGet_def podUpdate_def intro!: returns_bnd returns_wrap
      split: sum.splits)

lemma returns_discoverLB: "returns (discoverLoadBalancerIP ns p)"
  by (auto simp: discoverLoadBalancerIP_def podGet_def serviceList_def intro!: returns_bnd
      split: sum.splits)

lemma returns_lb_retry: "returns (lb_retry cfg ip n)"
proof (induction n)
  case (Suc n)
  then show ?case
    by (auto simp: sleep_def intro!: returns_bnd returns_discoverLB split: sum.splits)
qed (simp add: returns_def wp_def)

text \<open>The calls of the two label operations.\<close>

definition label_call :: "config \<Rightarrow> event \<Rightarrow> bool" where
  "label_call cfg e \<longleftrightarrow>
     e = PodGet (cfgNamespace cfg) (cfgPodName cfg) \<or> (\<exists>p. e = PodUpdate (cfgNamespace cfg) p)"

lemma emits_ensureMasterLabel: "emits (label_call cfg) (ensureMasterLabel cfg)"
  unfolding ensureMasterLabel_def podGet_def podUpdate_def
  by (intro emit_intros) (auto simp: emits_call label_call_def)

lemma emits_removeMasterLabel: "emits (label_call cfg) (removeMasterLabel cfg)"
  unfolding removeMasterLabel_def podGet_def podUpdate_def
  by (intro emit_intros) (auto simp: emits_call label_call_def)

section \<open>Properties\<close>

text \<open>
  What the label operations rely on: the API server returns the pod as it was last written,
  and accepts the write. \<open>stored_pod p0 ns t\<close> is the pod after the writes in \<open>t\<close>.
\<close>

fun stored_pod :: "kube_pod \<Rightarrow> string \<Rightarrow> trace \<Rightarrow> kube_pod" where
  "stored_pod p0 ns [] = p0"
| "stored_pod p0 ns (PodUpdate ns' p # t) = (if ns' = ns \<and> kName p = kName p0 then p else stored_pod p0 ns t)"
| "stored_pod p0 ns (_ # t) = stored_pod p0 ns t"

lemma stored_pod_name [simp]: "kName (stored_pod p0 ns t) = kName p0"
  by (induction p0 ns t rule: stored_pod.induct) auto

definition pod_store :: "env \<Rightarrow> config \<Rightarrow> kube_pod \<Rightarrow> bool" where
  "pod_store E cfg p0 \<longleftrightarrow>
     (\<forall>t. x_pod_get E t (cfgNamespace cfg) (cfgPodName cfg) = Inr (stored_pod p0 (cfgNamespace cfg) t)) \<and>
     (\<forall>t p. x_pod_update E t (cfgNamespace cfg) p = None)"

lemma pod_storeD:
  assumes "pod_store E cfg p0"
  shows "x_pod_get E t (cfgNamespace cfg) (cfgPodName cfg) = Inr (stored_pod p0 (cfgNamespace cfg) t)"
    and "x_pod_update E t (cfgNamespace cfg) p = None"
  using assms by (auto simp: pod_store_def)

text \<open>
  C30. Against an API server that stores what is written, \<^verbatim>\<open>ensureMasterLabel\<close> succeeds, leaves the
  pod labelled as the master and its other labels alone, and is idempotent: a second run
  reads the pod and writes nothing.
\<close>

theorem ensure_label_effect:
  assumes "pod_store E cfg p0" and "\<not> NoPromote cfg"
  shows "\<exists>t1. ensureMasterLabel cfg E t = (Ret None, t1) \<and>
     map_of (labels_of (stored_pod p0 (cfgNamespace cfg) t1)) =
       (map_of (labels_of (stored_pod p0 (cfgNamespace cfg) t)))(MasterLabel \<mapsto> MasterLabelValue) \<and>
     ensureMasterLabel cfg E t1 = (Ret None, PodGet (cfgNamespace cfg) (cfgPodName cfg) # t1)"
  using assms
  by (auto simp: ensureMasterLabel_def podGet_def podUpdate_def wrap_err_def pod_storeD
      labels_of_def map_get_def fun_upd_idem_iff MasterLabelValue_def split: option.splits)

text \<open>A store with one pod.\<close>

definition store_env :: "kube_pod \<Rightarrow> config \<Rightarrow> env" where
  "store_env p0 cfg = dead_env\<lparr>x_pod_get := \<lambda>t ns n. Inr (stored_pod p0 (cfgNamespace cfg) t),
     x_pod_update := \<lambda>t ns p. None\<rparr>"

lemma pod_store_env: "pod_store (store_env p0 cfg) cfg p0"
  by (simp add: pod_store_def store_env_def)

definition demo_kube_pod :: kube_pod where
  "demo_kube_pod = \<lparr>kName = ''redis-0'', kUID = ''uid-of-redis-0'', kLabels = Some [(''app'', ''redis'')],
     kPhase = ''Running'', kPodIP = ''10.0.0.1''\<rparr>"

theorem ensure_label_effect_witness:
  "\<exists>t1. ensureMasterLabel demo_config (store_env demo_kube_pod demo_config) [] = (Ret None, t1) \<and>
     map_of (labels_of (stored_pod demo_kube_pod (cfgNamespace demo_config) t1)) =
       (map_of (labels_of (stored_pod demo_kube_pod (cfgNamespace demo_config) [])))
         (MasterLabel \<mapsto> MasterLabelValue) \<and>
     ensureMasterLabel demo_config (store_env demo_kube_pod demo_config) t1 =
       (Ret None, PodGet (cfgNamespace demo_config) (cfgPodName demo_config) # t1)"
  by (rule ensure_label_effect [OF pod_store_env]) (simp add: demo_config_defs)

text \<open>
  C31. \<^verbatim>\<open>removeMasterLabel\<close> undoes it: the role label is gone or empty, every other label is as
  before, and a second run writes nothing.
\<close>

theorem remove_label_effect:
  assumes "pod_store E cfg p0"
  shows "\<exists>t1. removeMasterLabel cfg E t = (Ret None, t1) \<and>
     map_get (labels_of (stored_pod p0 (cfgNamespace cfg) t1)) MasterLabel = [] \<and>
     (\<forall>k. k \<noteq> MasterLabel \<longrightarrow> map_of (labels_of (stored_pod p0 (cfgNamespace cfg) t1)) k =
        map_of (labels_of (stored_pod p0 (cfgNamespace cfg) t)) k) \<and>
     removeMasterLabel cfg E t1 = (Ret None, PodGet (cfgNamespace cfg) (cfgPodName cfg) # t1)"
  using assms
  by (auto simp: removeMasterLabel_def podGet_def podUpdate_def wrap_err_def pod_storeD
      labels_of_def map_get_def split: option.splits)

theorem remove_label_effect_witness:
  "\<exists>t1. removeMasterLabel demo_config
       (store_env (demo_kube_pod\<lparr>kLabels := Some [(MasterLabel, MasterLabelValue)]\<rparr>) demo_config) [] = (Ret None, t1) \<and>
     map_get (labels_of (stored_pod (demo_kube_pod\<lparr>kLabels := Some [(MasterLabel, MasterLabelValue)]\<rparr>)
       (cfgNamespace demo_config) t1)) MasterLabel = [] \<and>
     (\<forall>k. k \<noteq> MasterLabel \<longrightarrow>
        map_of (labels_of (stored_pod (demo_kube_pod\<lparr>kLabels := Some [(MasterLabel, MasterLabelValue)]\<rparr>)
          (cfgNamespace demo_config) t1)) k =
        map_of (labels_of (stored_pod (demo_kube_pod\<lparr>kLabels := Some [(MasterLabel, MasterLabelValue)]\<rparr>)
          (cfgNamespace demo_config) [])) k) \<and>
     removeMasterLabel demo_config
       (store_env (demo_kube_pod\<lparr>kLabels := Some [(MasterLabel, MasterLabelValue)]\<rparr>) demo_config) t1 =
       (Ret None, PodGet (cfgNamespace demo_config) (cfgPodName demo_config) # t1)"
  by (rule remove_label_effect [OF pod_store_env])

text \<open>
  C33. A service is taken for this pod's own exactly when its selector is not empty, every one
  of its entries matches the pod's labels, and some entry has the pod's name as its value.
  The list of well-known keys makes no difference.
\<close>

theorem selector_matches_iff:
  "matchesSelectorWithPodName podLabels selector podName \<longleftrightarrow>
     selector \<noteq> [] \<and> (\<forall>(k, v) \<in> set selector. map_get podLabels k = v) \<and>
     (\<exists>(k, v) \<in> set selector. v = podName)"
proof (cases "match_selectors podLabels podName False selector")
  case None
  then show ?thesis
    using match_selectors_None [of podLabels podName False selector]
    by (simp add: matchesSelectorWithPodName_def)
next
  case (Some b)
  then show ?thesis
    using match_selectors_Some [of podLabels podName False selector b]
    by (cases b) (auto simp: matchesSelectorWithPodName_def)
qed

theorem selector_matches_iff_witness:
  "matchesSelectorWithPodName [(''app'', ''redis''), (''pod'', ''redis-0'')] [(''pod'', ''redis-0'')] ''redis-0'' \<longleftrightarrow> True"
  using selector_matches_iff [of "[(''app'', ''redis''), (''pod'', ''redis-0'')]" "[(''pod'', ''redis-0'')]" "''redis-0''"]
  by (simp add: map_get_def)

lemma pick_service_source:
  "pick_service L p svcs = (ip, name) \<Longrightarrow> ip \<noteq> [] \<Longrightarrow>
     \<exists>svc \<in> set svcs. sType svc = ServiceTypeLoadBalancer \<and>
       matchesSelectorWithPodName L (sSelector svc) p \<and> sName svc = name \<and>
       (\<exists>ing rest. sIngress svc = ing # rest \<and> IP ing = ip)"
  by (induction L p svcs rule: pick_service.induct) (auto split: if_splits list.splits)

definition is_svc_list :: "event \<Rightarrow> bool" where
  "is_svc_list e \<longleftrightarrow> (\<exists>ns. e = ServiceList ns)"

text \<open>How often each kind of call occurs in the run of a discovery.\<close>

lemma discoverLB_run:
  "\<exists>r es. discoverLoadBalancerIP ns p E t = (Ret r, es @ t) \<and> filter is_sleep es = [] \<and>
     length (filter is_svc_list es) \<le> 1"
  by (auto simp: discoverLoadBalancerIP_def podGet_def serviceList_def is_sleep_def is_svc_list_def
      split: sum.splits intro: exI [of _ "[PodGet ns p]"] exI [of _ "[ServiceList ns, PodGet ns p]"])

lemma lb_retry_run:
  "\<exists>r es. lb_retry cfg ip n E t = (Ret r, es @ t) \<and> length (filter is_sleep es) \<le> n - 1 \<and>
     length (filter is_svc_list es) \<le> n"
proof (induction n arbitrary: t)
  case (Suc n)
  obtain r es where d: "discoverLoadBalancerIP (cfgNamespace cfg) (cfgPodName cfg) E t = (Ret r, es @ t)"
    "filter is_sleep es = []" "length (filter is_svc_list es) \<le> 1"
    using discoverLB_run by blast
  obtain r2 es2 where ih: "lb_retry cfg ip n E (Sleep (5 * Second) # es @ t) = (Ret r2, es2 @ Sleep (5 * Second) # es @ t)"
    "length (filter is_sleep es2) \<le> n - 1" "length (filter is_svc_list es2) \<le> n"
    using Suc.IH by blast
  have stop: "\<exists>r' es'. (Ret x, es @ t) = (Ret r', es' @ t) \<and>
      length (filter is_sleep es') \<le> n \<and> length (filter is_svc_list es') \<le> Suc n" for x :: "string res"
    using d(2,3) by auto
  have again: "\<exists>r' es'. (Ret r2, es2 @ Sleep (5 * Second) # es @ t) = (Ret r', es' @ t) \<and>
      length (filter is_sleep es') \<le> n \<and> length (filter is_svc_list es') \<le> Suc n" if "0 < n"
    using d(2,3) ih(2,3) that
    by (intro exI [of _ r2] exI [of _ "es2 @ Sleep (5 * Second) # es"]) (auto simp: is_sleep_def is_svc_list_def)
  show ?case
  proof (cases r)
    case (Inl e)
    then show ?thesis using stop again by (auto simp: bnd_def d(1) sleep_def ih(1))
  next
    case (Inr p)
    obtain a b where "p = (a, b)" by force
    then show ?thesis using Inr stop again by (auto simp: bnd_def d(1) sleep_def ih(1))
  qed
qed auto

text \<open>
  C34. The search for an external address ends: it never panics, asks for the services at most
  12 times and sleeps at most 11 times, whatever the API server answers.
\<close>

theorem lb_discovery_bounded:
  "\<exists>r es. node_ip cfg ip E t = (Ret r, es @ t) \<and> length (filter is_sleep es) \<le> 11 \<and>
     length (filter is_svc_list es) \<le> 12"
  using lb_retry_run [of cfg ip 12 E t] by (auto simp: node_ip_def)

lemma discoverLB_source:
  assumes "discoverLoadBalancerIP ns p E t = (Ret (Inr (ip, name)), t')" and "ip \<noteq> []"
  shows "\<exists>t1 svcs. x_svc_list E t1 ns = Inr svcs \<and>
    (\<exists>svc \<in> set svcs. sType svc = ServiceTypeLoadBalancer \<and> (\<exists>ing \<in> set (sIngress svc). IP ing = ip))"
  using assms
  by (auto simp: discoverLoadBalancerIP_def podGet_def serviceList_def split: sum.splits
      dest!: pick_service_source) force

lemma lb_retry_source:
  assumes "lb_retry cfg ip n E t = (Ret (Inr x), t')"
  shows "x = ip \<or> (\<exists>t1 svcs. x_svc_list E t1 (cfgNamespace cfg) = Inr svcs \<and>
    (\<exists>svc \<in> set svcs. sType svc = ServiceTypeLoadBalancer \<and> (\<exists>ing \<in> set (sIngress svc). IP ing = x)))"
  using assms
proof (induction n arbitrary: t)
  case (Suc n)
  from Suc.prems obtain r :: "(string \<times> string) res" and t1 where
    d: "discoverLoadBalancerIP (cfgNamespace cfg) (cfgPodName cfg) E t = (Ret r, t1)" and
    k: "(case r of
        Inl e \<Rightarrow> if 0 < n then bnd (sleep (5 * Second)) (\<lambda>_. lb_retry cfg ip n)
          else ret (Inl (errorf ''failed to discover LoadBalancer IP after 12 attempts'' e))
      | Inr (lbIP, svcName) \<Rightarrow>
          if lbIP \<noteq> [] then ret (Inr lbIP)
          else if svcName \<noteq> [] then
            (if 0 < n then bnd (sleep (5 * Second)) (\<lambda>_. lb_retry cfg ip n) else ret (Inr ip))
          else ret (Inr ip)) E t1 = (Ret (Inr x), t')"
    by (auto elim: bnd_RetE)
  show ?case
  proof (cases r)
    case (Inl e)
    then show ?thesis using k Suc.IH by (auto simp: sleep_def split: if_splits)
  next
    case (Inr p)
    obtain a b where p: "p = (a, b)" by force
    show ?thesis
    proof (cases "a = []")
      case True
      then show ?thesis using k Inr p Suc.IH by (auto simp: sleep_def split: if_splits)
    next
      case False
      then have "x = a" using k Inr p by simp
      then show ?thesis using discoverLB_source [OF d [unfolded Inr p] False] by simp
    qed
  qed
qed simp

text \<open>
  The address a node advertises is its pod's address or the first ingress address of a
  LoadBalancer service the API server listed; without \<^verbatim>\<open>--lb-service\<close> it is the pod's.
\<close>

lemma advertised_address_source:
  assumes "node_ip cfg ip E t = (Ret (Inr x), t')"
  shows "x = ip \<or> DiscoverLBService cfg \<and>
    (\<exists>t1 svcs. x_svc_list E t1 (cfgNamespace cfg) = Inr svcs \<and>
      (\<exists>svc \<in> set svcs. sType svc = ServiceTypeLoadBalancer \<and> (\<exists>ing \<in> set (sIngress svc). IP ing = x)))"
  using assms lb_retry_source by (fastforce simp: node_ip_def split: if_splits)

end
