(* ===== verification/Peers.thy ===== *)
theory Peers
  imports Raft_Strategy Redis_Client Pod_Labels
begin

text \<open>
  The orchestrator object and the exchange of pod states (\<^verbatim>\<open>pkg/orchestrator/orchestrator.go\<close>):
  reading the local state, querying the other pods, and the table of peers.
\<close>

section \<open>Orchestrator\<close>

text \<open>\<^verbatim>\<open>election.Strategy\<close>: the two implementations of the interface.\<close>

datatype strategy = Deterministic det_strategy | RaftMode raft_strategy

definition strat_Start :: "strategy \<Rightarrow> (strategy \<times> gerror) io" where
  "strat_Start s =
     (case s of
        Deterministic d \<Rightarrow> bnd (det_Start d) (\<lambda>e. ret (s, e))
      | RaftMode r \<Rightarrow> bnd (raft_Start r) (\<lambda>(r', e). ret (RaftMode r', e)))"

definition strat_Stop :: "strategy \<Rightarrow> gerror io" where
  "strat_Stop s = (case s of Deterministic d \<Rightarrow> det_Stop d | RaftMode r \<Rightarrow> raft_Stop r)"

definition strat_IsLeader :: "strategy \<Rightarrow> bool io" where
  "strat_IsLeader s =
     (case s of Deterministic d \<Rightarrow> ret (det_IsLeader d) | RaftMode r \<Rightarrow> raft_IsLeader r)"

definition strat_GetLeader :: "strategy \<Rightarrow> (string \<times> string) res io" where
  "strat_GetLeader s =
     (case s of Deterministic d \<Rightarrow> ret (det_GetLeader d) | RaftMode r \<Rightarrow> raft_GetLeader r)"

definition HTTPPort :: int where
  "HTTPPort = 8080"

record orchestrator =
  oconfig :: config
  redisClient :: "redis_client option"
  startupTime :: instant
  podIP :: string
  podUID :: string
  electionStrategy :: strategy
  authn :: authenticator
  peerStates :: "pod_state gomap"

section \<open>The JSON form of a pod state\<close>

text \<open>The zero \<^verbatim>\<open>time.Time\<close>: the first instant of year 1.\<close>

definition zero_time :: instant where
  "zero_time = - 62135596800 * Second"

definition zero_pod_state :: pod_state where
  "zero_pod_state = \<lparr>PodName = [], PodIP = [], PodUID = [], Namespace = [], IsMaster = False,
     IsHealthy = False, IsWitness = False, StartupTime = zero_time, LastSeen = zero_time\<rparr>"

definition pod_state_fields :: "pod_state field list" where
  "pod_state_fields =
     [(''pod_name'', decode_string (\<lambda>v s. s\<lparr>PodName := v\<rparr>)),
      (''pod_ip'', decode_string (\<lambda>v s. s\<lparr>PodIP := v\<rparr>)),
      (''pod_uid'', decode_string (\<lambda>v s. s\<lparr>PodUID := v\<rparr>)),
      (''namespace'', decode_string (\<lambda>v s. s\<lparr>Namespace := v\<rparr>)),
      (''is_master'', decode_bool (\<lambda>v s. s\<lparr>IsMaster := v\<rparr>)),
      (''is_healthy'', decode_bool (\<lambda>v s. s\<lparr>IsHealthy := v\<rparr>)),
      (''is_witness'', decode_bool (\<lambda>v s. s\<lparr>IsWitness := v\<rparr>)),
      (''startup_time'', decode_time (\<lambda>v s. s\<lparr>StartupTime := v\<rparr>)),
      (''last_seen'', decode_time (\<lambda>v s. s\<lparr>LastSeen := v\<rparr>))]"

definition encode_pod_state :: "pod_state \<Rightarrow> json" where
  "encode_pod_state p =
     JObj [(''pod_name'', JStr (PodName p)), (''pod_ip'', JStr (PodIP p)),
       (''pod_uid'', JStr (PodUID p)), (''namespace'', JStr (Namespace p)),
       (''is_master'', JBool (IsMaster p)), (''is_healthy'', JBool (IsHealthy p)),
       (''is_witness'', JBool (IsWitness p)), (''startup_time'', JTime (StartupTime p)),
       (''last_seen'', JTime (LastSeen p))]"

definition decode_pod_state :: "body \<Rightarrow> pod_state res" where
  "decode_pod_state b = decode_body pod_state_fields zero_pod_state b"

section \<open>The local state\<close>

definition getLocalState :: "orchestrator \<Rightarrow> pod_state res io" where
  "getLocalState o1 =
     (let cfg = oconfig o1
      in if Standalone cfg then
           bnd now (\<lambda>n. ret (Inr
             \<lparr>PodName = cfgPodName cfg, PodIP = podIP o1, PodUID = podUID o1,
              Namespace = cfgNamespace cfg, IsMaster = False, IsHealthy = True, IsWitness = True,
              StartupTime = startupTime o1, LastSeen = n\<rparr>))
         else
           attempt (with_client (redisClient o1) GetReplicationInfo) (\<lambda>info.
           bnd (with_client (redisClient o1) IsHealthyRedis) (\<lambda>healthy.
           bnd now (\<lambda>n. ret (Inr
             \<lparr>PodName = cfgPodName cfg, PodIP = podIP o1, PodUID = podUID o1,
              Namespace = cfgNamespace cfg, IsMaster = (Role info = ''master''),
              IsHealthy = healthy, IsWitness = False,
              StartupTime = startupTime o1, LastSeen = n\<rparr>)))))"

section \<open>Querying the peers\<close>

definition state_url :: "string \<Rightarrow> string" where
  "state_url peerIP = ''http://'' @ peerIP @ '':'' @ formatInt HTTPPort @ ''/state''"

definition queryPeer :: "orchestrator \<Rightarrow> string \<Rightarrow> pod_state res io" where
  "queryPeer o1 peerIP =
     attempt (newRequest ''GET'' (state_url peerIP) (Text [])) (\<lambda>req.
     attempt (wrap_res ''failed to sign request'' (SignRequest (authn o1) req)) (\<lambda>req'.
     attempt (httpDo req') (\<lambda>resp.
       if StatusCode resp \<noteq> StatusOK
       then ret (Inl (''unexpected status code: '' @ formatNat (StatusCode resp)))
       else ret (decode_pod_state (RespBody resp)))))"

definition PodRunning :: string where
  "PodRunning = ''Running''"

fun query_pods :: "orchestrator \<Rightarrow> pod_state gomap \<Rightarrow> kube_pod list \<Rightarrow> pod_state gomap io" where
  "query_pods o1 states [] = ret states"
| "query_pods o1 states (pod # pods) =
     (if kName pod = cfgPodName (oconfig o1) then query_pods o1 states pods
      else if kPhase pod \<noteq> PodRunning then query_pods o1 states pods
      else bnd (queryPeer o1 (kPodIP pod)) (\<lambda>r. case r of
          Inl _ \<Rightarrow> query_pods o1 states pods
        | Inr st \<Rightarrow> query_pods o1 (map_set (kName pod) st states) pods))"

definition discoverAndQueryPeers :: "orchestrator \<Rightarrow> pod_state gomap res io" where
  "discoverAndQueryPeers o1 =
     bnd (podList (cfgNamespace (oconfig o1)) (LabelSelector (oconfig o1))) (\<lambda>r. case r of
        Inl e \<Rightarrow> ret (Inl (errorf ''failed to list pods'' e))
      | Inr pods \<Rightarrow> bnd (query_pods o1 [] pods) (\<lambda>states. ret (Inr states)))"

section \<open>The table of peers\<close>

text \<open>The table after the merge, and after stale entries have been removed at time \<open>n\<close>.\<close>

definition merge_peers :: "orchestrator \<Rightarrow> pod_state \<Rightarrow> pod_state gomap \<Rightarrow> pod_state gomap" where
  "merge_peers o1 localState peers =
     foldl (\<lambda>m (k, v). map_set k v m)
       (map_set (cfgPodName (oconfig o1)) localState (peerStates o1)) peers"

definition stale :: "string \<Rightarrow> instant \<Rightarrow> string \<times> pod_state \<Rightarrow> bool" where
  "stale self n kv \<longleftrightarrow> fst kv \<noteq> self \<and> LastSeen (snd kv) < n - 60 * Second"

definition updatePeerStates ::
  "orchestrator \<Rightarrow> pod_state \<Rightarrow> pod_state gomap \<Rightarrow> orchestrator io" where
  "updatePeerStates o1 localState peers =
     bnd now (\<lambda>n. ret (o1\<lparr>peerStates :=
       filter (\<lambda>kv. \<not> stale (cfgPodName (oconfig o1)) n kv) (merge_peers o1 localState peers)\<rparr>))"

section \<open>Lemmas\<close>

subsection \<open>JSON\<close>

lemma decode_encode_pod_state: "decode_pod_state (Json (encode_pod_state p)) = Inr p"
  by (simp add: decode_pod_state_def encode_pod_state_def pod_state_fields_def zero_pod_state_def
      same_tag_def lower_char_def Let_def)

subsection \<open>The table of peers\<close>

lemma lookup_merge_peers:
  assumes "map_wf peers"
  shows "map_of (merge_peers o1 l peers) k =
     (case map_of peers k of
        Some st \<Rightarrow> Some st
      | None \<Rightarrow> if k = cfgPodName (oconfig o1) then Some l else map_of (peerStates o1) k)"
  unfolding merge_peers_def
  by (subst gm.lookup_merge) (simp add: map_of_rev_wf [OF assms] split: option.splits)

lemma merge_peers_wf: "map_wf (peerStates o1) \<Longrightarrow> map_wf (merge_peers o1 l peers)"
  unfolding merge_peers_def by (intro gm.wf_merge) simp

lemma map_of_filter_wf:
  "map_wf m \<Longrightarrow> map_of (filter P m) k =
     (case map_of m k of None \<Rightarrow> None | Some v \<Rightarrow> if P (k, v) then Some v else None)"
  unfolding map_wf_def
proof (induction m)
  case (Cons kv m)
  obtain a b where "kv = (a, b)" by force
  moreover have "map_of m a = None" if "a \<notin> fst ` set m"
    using that by (simp add: map_of_eq_None_iff)
  ultimately show ?case using Cons by (auto split: option.splits)
qed simp

lemma query_pods_step:
  assumes "query_pods o1 s (pod # pods) E t = (Ret m, t')"
  obtains s' t1 where "query_pods o1 s' pods E t1 = (Ret m, t')"
    and "s' = s \<or> kName pod \<noteq> cfgPodName (oconfig o1) \<and> kPhase pod = PodRunning \<and> (\<exists>st. s' = map_set (kName pod) st s)"
proof (cases "kName pod = cfgPodName (oconfig o1) \<or> kPhase pod \<noteq> PodRunning")
  case True
  then show thesis using assms by (intro that [of s t]) (auto split: if_splits)
next
  case False
  then have "bnd (queryPeer o1 (kPodIP pod)) (\<lambda>r. case r of
        Inl _ \<Rightarrow> query_pods o1 s pods
      | Inr st \<Rightarrow> query_pods o1 (map_set (kName pod) st s) pods) E t = (Ret m, t')"
    using assms by simp
  then obtain r :: "pod_state res" and t1 where r: "(case r of
        Inl _ \<Rightarrow> query_pods o1 s pods
      | Inr st \<Rightarrow> query_pods o1 (map_set (kName pod) st s) pods) E t1 = (Ret m, t')"
    by (elim bnd_RetE)
  then show thesis using False by (cases r) (auto intro: that)
qed

lemma query_pods_wf:
  assumes "map_wf s" and "query_pods o1 s pods E t = (Ret m, t')"
  shows "map_wf m"
  using assms
proof (induction pods arbitrary: s t)
  case (Cons pod pods)
  from Cons.prems(2) obtain s' t1 where q: "query_pods o1 s' pods E t1 = (Ret m, t')"
    and "s' = s \<or> kName pod \<noteq> cfgPodName (oconfig o1) \<and> kPhase pod = PodRunning \<and> (\<exists>st. s' = map_set (kName pod) st s)"
    by (rule query_pods_step)
  then have "map_wf s'" using Cons.prems(1) by auto
  then show ?case using q by (rule Cons.IH)
qed simp

text \<open>The names of the running pods other than \<open>self\<close>.\<close>

definition other_running :: "string \<Rightarrow> kube_pod list \<Rightarrow> string set" where
  "other_running self pods = kName ` set (filter (\<lambda>p. kName p \<noteq> self \<and> kPhase p = PodRunning) pods)"

lemma query_pods_keys:
  assumes "query_pods o1 s pods E t = (Ret m, t')"
  shows "fst ` set m \<subseteq> fst ` set s \<union> other_running (cfgPodName (oconfig o1)) pods"
  using assms
proof (induction pods arbitrary: s t)
  case (Cons pod pods)
  from Cons.prems obtain s' t1 where q: "query_pods o1 s' pods E t1 = (Ret m, t')"
    and s': "s' = s \<or> kName pod \<noteq> cfgPodName (oconfig o1) \<and> kPhase pod = PodRunning \<and> (\<exists>st. s' = map_set (kName pod) st s)"
    by (rule query_pods_step)
  have "fst ` set s' \<union> other_running (cfgPodName (oconfig o1)) pods \<subseteq>
      fst ` set s \<union> other_running (cfgPodName (oconfig o1)) (pod # pods)"
    using s' by (elim disjE conjE exE) (simp_all add: other_running_def subset_insertI2 le_supI2)
  with Cons.IH [OF q] show ?case by (rule order_trans)
qed simp

subsection \<open>Calls and panics\<close>

text \<open>The calls of one round of state exchange: none of them changes Redis or Kubernetes.\<close>

definition reading :: "event \<Rightarrow> bool" where
  "reading e \<longleftrightarrow>
     (case e of
        ClockRead \<Rightarrow> True | RedisPing \<Rightarrow> True | RedisInfo _ \<Rightarrow> True | PodList _ _ \<Rightarrow> True
      | HttpDo r \<Rightarrow> Method r = ''GET'' | RaftState \<Rightarrow> True | RaftLeader \<Rightarrow> True | _ \<Rightarrow> False)"

lemma reading_simps [simp]:
  "reading ClockRead" "reading RedisPing" "reading (RedisInfo s)" "reading (PodList a b)"
  "reading RaftState" "reading RaftLeader"
  "reading (HttpDo r) \<longleftrightarrow> Method r = ''GET''" "\<not> reading (RedisDo args)" "\<not> reading (PodUpdate n p)"
  by (simp_all add: reading_def)

lemma emits_with_client: "(\<And>c. p = Some c \<Longrightarrow> emits Q (f c)) \<Longrightarrow> emits Q (with_client p f)"
  by (cases p) (auto intro: emit_intros)

lemma emits_getLocalState: "emits reading (getLocalState o1)"
  unfolding getLocalState_def now_def
  by (intro emit_intros emits_with_client emits_GetReplicationInfo emits_IsHealthyRedis)
    (simp_all add: emits_call)

text \<open>Talking to the peers involves neither Redis nor a change of any object.\<close>

definition peer_call :: "event \<Rightarrow> bool" where
  "peer_call e \<longleftrightarrow> e = ClockRead \<or> (\<exists>ns sel. e = PodList ns sel) \<or> (\<exists>r. e = HttpDo r \<and> Method r = ''GET'')"

lemma peer_call_reading: "peer_call e \<Longrightarrow> reading e"
  by (auto simp: peer_call_def)

lemma emits_queryPeer: "emits peer_call (queryPeer o1 ip)"
  unfolding emits_def
proof (intro allI)
  fix E t
  show "\<exists>es. snd (queryPeer o1 ip E t) = es @ t \<and> (\<forall>e \<in> set es. peer_call e)"
    by (auto simp: queryPeer_def attempt_def bnd_def newRequest_def wrap_res_def SignRequest_def
        now_def httpDo_def sign_at_def Let_def peer_call_def split: option.splits sum.splits)
qed

lemma emits_query_pods: "emits peer_call (query_pods o1 s pods)"
proof (induction pods arbitrary: s)
  case (Cons pod pods)
  then show ?case by (auto intro!: emit_intros emits_queryPeer)
qed (simp add: emits_def)

lemma emits_discover: "emits peer_call (discoverAndQueryPeers o1)"
  unfolding discoverAndQueryPeers_def podList_def
  by (intro emit_intros emits_query_pods) (simp add: emits_call peer_call_def)

lemma emits_updatePeerStates: "emits peer_call (updatePeerStates o1 l p)"
  unfolding updatePeerStates_def now_def by (intro emit_intros) (simp add: emits_call peer_call_def)

lemma emits_getLocalState_standalone:
  "Standalone (oconfig o1) \<Longrightarrow> emits peer_call (getLocalState o1)"
  unfolding getLocalState_def now_def
  by (simp add: Let_def) (intro emit_intros, simp add: emits_call peer_call_def)

text \<open>A client object exists exactly when Redis is managed.\<close>

definition client_inv :: "orchestrator \<Rightarrow> bool" where
  "client_inv o1 \<longleftrightarrow> (Standalone (oconfig o1) \<longrightarrow> redisClient o1 = None) \<and>
     (\<not> Standalone (oconfig o1) \<longrightarrow> redisClient o1 \<noteq> None)"

lemma returns_getLocalState: "client_inv o1 \<Longrightarrow> returns (getLocalState o1)"
  by (auto simp: getLocalState_def client_inv_def now_def Let_def
      intro!: returns_bnd returns_attempt)

lemma returns_queryPeer [simp]: "returns (queryPeer o1 ip)"
  by (auto simp: queryPeer_def httpDo_def intro!: returns_attempt returns_wrap)

lemma returns_query_pods [simp]: "returns (query_pods o1 s pods)"
proof (induction pods arbitrary: s)
  case (Cons pod pods)
  then show ?case by (auto intro!: returns_bnd split: sum.splits)
qed (simp add: returns_def wp_def)

lemma returns_discover [simp]: "returns (discoverAndQueryPeers o1)"
  by (auto simp: discoverAndQueryPeers_def podList_def intro!: returns_bnd split: sum.splits)

lemma returns_updatePeerStates [simp]: "returns (updatePeerStates o1 l p)"
  by (simp add: updatePeerStates_def now_def returns_bnd)

section \<open>Properties\<close>

text \<open>
  C28. After \<^verbatim>\<open>updatePeerStates\<close> the table holds the local state under the pod's own name, and for
  every other name the state just queried or else the one known before, unless that state
  was last seen more than 60 seconds ago by this pod's clock. This also applies to a state
  that has just been queried, whose time comes from the peer's clock.
\<close>

theorem peer_table_after_update:
  assumes "map_wf (peerStates o1)" and "map_wf peers" and "cfgPodName (oconfig o1) \<notin> fst ` set peers"
  shows "\<exists>o2. updatePeerStates o1 l peers E t = (Ret o2, ClockRead # t) \<and>
     o2 = o1\<lparr>peerStates := peerStates o2\<rparr> \<and> map_wf (peerStates o2) \<and>
     (\<forall>k. map_of (peerStates o2) k =
       (if k = cfgPodName (oconfig o1) then Some l
        else case (case map_of peers k of None \<Rightarrow> map_of (peerStates o1) k | Some st \<Rightarrow> Some st) of
            None \<Rightarrow> None
          | Some st \<Rightarrow> if LastSeen st < x_now E t - 60 * Second then None else Some st))"
proof -
  have "map_of peers (cfgPodName (oconfig o1)) = None"
    using assms(3) by (simp add: map_of_eq_None_iff)
  then show ?thesis
    using assms(1,2)
    by (simp add: updatePeerStates_def now_def merge_peers_wf map_of_filter_wf lookup_merge_peers
        stale_def split: option.splits)
qed

definition demo_orchestrator :: orchestrator where
  "demo_orchestrator = \<lparr>oconfig = demo_config\<lparr>ElectionMode := ElectionModeDeterministic\<rparr>,
     redisClient = Some \<lparr>useTLS = False\<rparr>, startupTime = 5, podIP = ''10.0.0.1'',
     podUID = ''uid-of-redis-0'',
     electionStrategy = Deterministic (NewDeterministicStrategy ''redis-0'' ''uid-of-redis-0'' False),
     authn = NewAuthenticator ''k'', peerStates = [(''redis-1'', demo_pod ''redis-1'' 7 False)]\<rparr>"

lemma demo_orchestrator_simps [simp]:
  "oconfig demo_orchestrator = demo_config\<lparr>ElectionMode := ElectionModeDeterministic\<rparr>"
  "redisClient demo_orchestrator = Some \<lparr>useTLS = False\<rparr>" "podUID demo_orchestrator = ''uid-of-redis-0''"
  "peerStates demo_orchestrator = [(''redis-1'', demo_pod ''redis-1'' 7 False)]"
  "authn demo_orchestrator = NewAuthenticator ''k''"
  by (simp_all add: demo_orchestrator_def)

lemma demo_config_simps [simp]:
  "cfgPodName demo_config = ''redis-0''" "cfgNamespace demo_config = ''default''"
  "Standalone demo_config = False" "NoPromote demo_config = False" "Debug demo_config = False"
  "MasterServiceName demo_config = []" "RedisServiceName demo_config = ''redis''"
  "RedisPort demo_config = 6379" "LabelSelector demo_config = ''app=redis''"
  "SharedSecret demo_config = []"
  by (simp_all add: demo_config_defs)

theorem peer_table_after_update_witness:
  "\<exists>o2. updatePeerStates demo_orchestrator (demo_pod ''redis-0'' 5 True)
       [(''redis-1'', (demo_pod ''redis-1'' 7 False)\<lparr>LastSeen := - 61 * Second\<rparr>)] dead_env [] = (Ret o2, [ClockRead]) \<and>
     map_of (peerStates o2) ''redis-1'' = None \<and>
     map_of (peerStates o2) ''redis-0'' = Some (demo_pod ''redis-0'' 5 True)"
  using peer_table_after_update [of demo_orchestrator
      "[(''redis-1'', (demo_pod ''redis-1'' 7 False)\<lparr>LastSeen := - 61 * Second\<rparr>)]"
      "demo_pod ''redis-0'' 5 True" dead_env "[]"]
  by (auto simp: map_wf_def Second_def)

text \<open>
  Discovery yields one state per pod name, only for pods the API server lists as running,
  and never one for the pod itself.
\<close>

lemma discovered_peers_running:
  assumes "discoverAndQueryPeers o1 E t = (Ret (Inr peers), t')"
  shows "map_wf peers \<and> cfgPodName (oconfig o1) \<notin> fst ` set peers \<and>
    (\<exists>pods. x_pod_list E t (cfgNamespace (oconfig o1)) (LabelSelector (oconfig o1)) = Inr pods \<and>
       (\<forall>k \<in> fst ` set peers. \<exists>pod \<in> set pods. kName pod = k \<and> kPhase pod = PodRunning))"
proof -
  obtain pods t1 where l: "x_pod_list E t (cfgNamespace (oconfig o1)) (LabelSelector (oconfig o1)) = Inr pods"
    and q: "query_pods o1 [] pods E t1 = (Ret peers, t')"
    using assms by (auto simp: discoverAndQueryPeers_def podList_def elim!: bnd_RetE split: sum.splits)
  have sub: "fst ` set peers \<subseteq> other_running (cfgPodName (oconfig o1)) pods"
    using query_pods_keys [OF q] by simp
  have "\<exists>pod \<in> set pods. kName pod = k \<and> kPhase pod = PodRunning" "k \<noteq> cfgPodName (oconfig o1)"
    if "k \<in> fst ` set peers" for k
    using subsetD [OF sub that] by (auto simp: other_running_def)
  then show ?thesis using query_pods_wf [OF _ q] l by auto
qed

end
