(* ===== verification/Reconcile.thy ===== *)
theory Reconcile
  imports Peers Pod_Labels
begin

text \<open>
  The reconciliation of \<^verbatim>\<open>pkg/orchestrator/orchestrator.go\<close>: promotion, demotion and repair of the
  local Redis, the handlers for no, one and several masters and for Raft mode, and the
  sync cycle that calls them.
\<close>

section \<open>Changing the role of the local Redis\<close>

definition master_service :: "config \<Rightarrow> string" where
  "master_service cfg =
     (if MasterServiceName cfg = [] then RedisServiceName cfg else MasterServiceName cfg)"

definition promoteToMaster :: "orchestrator \<Rightarrow> gerror io" where
  "promoteToMaster o1 =
     (if NoPromote (oconfig o1) then ret None
      else check (with_client (redisClient o1) PromoteToMaster) (ensureMasterLabel (oconfig o1)))"

text \<open>A failure to remove the label is logged and otherwise ignored.\<close>

definition demoteToReplica :: "orchestrator \<Rightarrow> gerror io" where
  "demoteToReplica o1 =
     (let cfg = oconfig o1
      in bnd (removeMasterLabel cfg) (\<lambda>_.
         with_client (redisClient o1) (\<lambda>c. SetReplicaOf c (master_service cfg) (RedisPort cfg))))"

definition checkAndFixReplication :: "orchestrator \<Rightarrow> pod_state \<Rightarrow> gerror io" where
  "checkAndFixReplication o1 localState =
     (let cfg = oconfig o1
      in if IsMaster localState then ret None
         else if Standalone cfg then ret None
         else bnd (with_client (redisClient o1) GetReplicationInfo) (\<lambda>r. case r of
             Inl _ \<Rightarrow> ret None
           | Inr info \<Rightarrow>
               if MasterLinkStatus info = ''down'' then
                 bnd (with_client (redisClient o1)
                        (\<lambda>c. SetReplicaOf c (master_service cfg) (RedisPort cfg))) (\<lambda>_. ret None)
               else ret None))"

section \<open>The handlers\<close>

text \<open>
  Their debug logs call \<^verbatim>\<open>getElectionReason\<close> of \<^verbatim>\<open>orchestrator.go\<close>, which is the same function as the one
  of \<^verbatim>\<open>deterministic.go\<close>; \<^const>\<open>log_reason\<close> stands for both.
\<close>

definition handleNoMaster :: "orchestrator \<Rightarrow> pod_state list \<Rightarrow> pod_state \<Rightarrow> gerror io" where
  "handleNoMaster o1 allStates localState =
     (let cfg = oconfig o1
      in if Standalone cfg then ret None
         else if NoPromote cfg then
           (if IsMaster localState then demoteToReplica o1 else checkAndFixReplication o1 localState)
         else (case sort_slice pod_less allStates of
             [] \<Rightarrow> panic ''index out of range''
           | elected # rest \<Rightarrow>
               bnd (log_reason (Debug cfg) (elected # rest)) (\<lambda>_.
               if PodUID elected = podUID o1 then
                 (if NoPromote cfg then ret None
                  else wrap_err ''failed to promote to master'' (promoteToMaster o1))
               else if IsMaster localState then
                 wrap_err ''failed to demote to replica'' (demoteToReplica o1)
               else ret None)))"

definition handleSingleMaster :: "orchestrator \<Rightarrow> pod_state \<Rightarrow> pod_state \<Rightarrow> gerror io" where
  "handleSingleMaster o1 master localState =
     (let cfg = oconfig o1
      in if Standalone cfg then ret None
         else if PodUID master = podUID o1 then
           (if NoPromote cfg then demoteToReplica o1 else ensureMasterLabel cfg)
         else if IsMaster localState then demoteToReplica o1
         else checkAndFixReplication o1 localState)"

definition handleRaftMode :: "orchestrator \<Rightarrow> pod_state \<Rightarrow> gerror io" where
  "handleRaftMode o1 localState =
     (let cfg = oconfig o1
      in if Standalone cfg then ret None
         else bnd (strat_IsLeader (electionStrategy o1)) (\<lambda>isRaftLeader.
           if NoPromote cfg then
             (if IsMaster localState then demoteToReplica o1 else ret None)
           else if isRaftLeader then
             (if \<not> IsMaster localState then promoteToMaster o1 else ensureMasterLabel cfg)
           else if IsMaster localState then
             bnd (strat_GetLeader (electionStrategy o1)) (\<lambda>l. case l of
                 Inl _ \<Rightarrow> demoteToReplica o1
               | Inr (leaderName, leaderUID) \<Rightarrow>
                   bnd (if Debug cfg then bnd (slice8 leaderUID) (\<lambda>_. ret ()) else ret ()) (\<lambda>_.
                     demoteToReplica o1))
           else checkAndFixReplication o1 localState))"

definition handleSplitBrain :: "orchestrator \<Rightarrow> pod_state list \<Rightarrow> pod_state \<Rightarrow> gerror io" where
  "handleSplitBrain o1 allStates localState =
     (let cfg = oconfig o1
      in if Standalone cfg then ret None
         else (case sort_slice pod_less (filter IsMaster allStates) of
             [] \<Rightarrow> panic ''index out of range''
           | keepMaster # rest \<Rightarrow>
               bnd (log_reason (Debug cfg) (keepMaster # rest)) (\<lambda>_.
               if IsMaster localState \<and> (PodUID localState \<noteq> PodUID keepMaster \<or> NoPromote cfg)
               then demoteToReplica o1
               else if \<not> IsMaster localState then checkAndFixReplication o1 localState
               else ret None)))"

section \<open>reconcile and syncState\<close>

definition healthy_states :: "orchestrator \<Rightarrow> pod_state list" where
  "healthy_states o1 = filter IsHealthy (map snd (peerStates o1))"

definition reconcile :: "orchestrator \<Rightarrow> pod_state \<Rightarrow> gerror io" where
  "reconcile o1 localState =
     (let allStates = healthy_states o1; masters = filter IsMaster allStates
      in if allStates = [] then ret None
         else if ElectionMode (oconfig o1) = ElectionModeRaft then handleRaftMode o1 localState
         else (case masters of
             [] \<Rightarrow> handleNoMaster o1 allStates localState
           | [currentMaster] \<Rightarrow> handleSingleMaster o1 currentMaster localState
           | _ \<Rightarrow> handleSplitBrain o1 allStates localState))"

text \<open>A failed discovery is logged; the cycle goes on with the peers known so far.\<close>

definition syncState :: "orchestrator \<Rightarrow> (orchestrator \<times> gerror) io" where
  "syncState o1 =
     bnd (getLocalState o1) (\<lambda>ls. case ls of
        Inl e \<Rightarrow> ret (o1, Some (errorf ''failed to get local state'' e))
      | Inr localState \<Rightarrow>
          bnd (discoverAndQueryPeers o1) (\<lambda>d.
          bnd (updatePeerStates o1 localState (case d of Inl _ \<Rightarrow> [] | Inr ps \<Rightarrow> ps)) (\<lambda>o2.
          bnd (reconcile o2 localState) (\<lambda>err. ret (o2, err)))))"

section \<open>What a cycle decides\<close>

text \<open>
  The decision of a node in deterministic mode, stated without sorting: the pod with the
  least rank among the healthy ones wins an election, the one with the least rank among the
  masters survives a split brain.
\<close>

datatype action = Idle | Promote | Demote | EnsureLabel | CheckReplication

definition least_uid :: "pod_state set \<Rightarrow> string" where
  "least_uid S = rank_uid (Min (rank_of ` S))"

definition decide :: "config \<Rightarrow> string \<Rightarrow> pod_state \<Rightarrow> pod_state list \<Rightarrow> action" where
  "decide cfg uid localState allStates =
     (let masters = filter IsMaster allStates
      in if allStates = [] \<or> Standalone cfg then Idle
         else if masters = [] then
           (if NoPromote cfg then (if IsMaster localState then Demote else CheckReplication)
            else if least_uid (set allStates) = uid then Promote
            else if IsMaster localState then Demote else Idle)
         else if length masters = 1 then
           (if least_uid (set masters) = uid then (if NoPromote cfg then Demote else EnsureLabel)
            else if IsMaster localState then Demote else CheckReplication)
         else
           (if IsMaster localState \<and> (PodUID localState \<noteq> least_uid (set masters) \<or> NoPromote cfg)
            then Demote
            else if \<not> IsMaster localState then CheckReplication
            else Idle))"

definition perform :: "orchestrator \<Rightarrow> pod_state \<Rightarrow> action \<Rightarrow> gerror io" where
  "perform o1 localState a =
     (case a of
        Idle \<Rightarrow> ret None
      | Promote \<Rightarrow> promoteToMaster o1
      | Demote \<Rightarrow> demoteToReplica o1
      | EnsureLabel \<Rightarrow> ensureMasterLabel (oconfig o1)
      | CheckReplication \<Rightarrow> checkAndFixReplication o1 localState)"

text \<open>Two computations with the same calls and the same success, up to the error's text.\<close>

definition same_run :: "gerror io \<Rightarrow> gerror io \<Rightarrow> bool" where
  "same_run m n \<longleftrightarrow> (\<forall>E t. snd (m E t) = snd (n E t) \<and>
     map_go (\<lambda>e. e = None) (fst (m E t)) = map_go (\<lambda>e. e = None) (fst (n E t)))"

end
