(* ===== verification/Reconcile_Facts.thy ===== *)
theory Reconcile_Facts
  imports Reconcile
begin

text \<open>
  Facts about the sync cycle: it carries out what \<^const>\<open>decide\<close> says, does not depend on the
  order in which Go visits the table of peers, never panics on a missing client, and makes
  only the calls its mode allows.
\<close>

section \<open>Refinement of the decision\<close>

lemma same_run_refl [simp]: "same_run m m"
  by (simp add: same_run_def)

lemma same_run_sym: "same_run m n \<Longrightarrow> same_run n m"
  by (simp add: same_run_def)

lemma same_run_trans: "same_run a b \<Longrightarrow> same_run b c \<Longrightarrow> same_run a c"
  by (simp add: same_run_def)

lemma same_run_wrap [simp]: "same_run (wrap_err s m) m"
  by (auto simp: same_run_def wrap_err_def bnd_def split: prod.splits go.splits)

lemma log_reason_skip:
  assumes "dbg \<longrightarrow> uids8 xs"
  shows "bnd (log_reason dbg xs) f = f ()"
proof (intro ext)
  fix E t
  have "wp (log_reason dbg xs) (\<lambda>_ t'. t' = t) E t" using assms by (intro wp_log_reason) auto
  then show "bnd (log_reason dbg xs) f E t = f () E t"
    by (auto simp: wp_def bnd_def split: prod.splits go.splits)
qed

lemma sort_first:
  assumes "xs \<noteq> []"
  obtains y ys where "sort_slice pod_less xs = y # ys" and "PodUID y = least_uid (set xs)"
    and "set (y # ys) = set xs"
proof -
  obtain y ys where y: "sort_slice pod_less xs = y # ys"
    using assms pods.srt_Nil_iff [of xs] by (cases "sort_slice pod_less xs") auto
  have "least_uid (set xs) = rank_uid (rank_of y)"
    unfolding least_uid_def pods.first_key_Min [OF y] ..
  then have "PodUID y = least_uid (set xs)" by (simp add: rank_of_def)
  moreover have "set (y # ys) = set xs" using pods.set_srt [of xs] unfolding y .
  ultimately show thesis by (rule that [OF y])
qed

lemma uids8_subset: "uids8 xs \<Longrightarrow> set ys \<subseteq> set xs \<Longrightarrow> uids8 ys"
  by (auto simp: uids8_def)

lemma handleNoMaster_refines:
  assumes "allStates \<noteq> []" and "filter IsMaster allStates = []"
    and "Debug (oconfig o1) \<longrightarrow> uids8 allStates"
  shows "same_run (handleNoMaster o1 allStates l)
    (perform o1 l (decide (oconfig o1) (podUID o1) l allStates))"
proof -
  obtain y ys where y: "sort_slice pod_less allStates = y # ys"
      "PodUID y = least_uid (set allStates)" "set (y # ys) = set allStates"
    by (rule sort_first [OF assms(1)])
  have "Debug (oconfig o1) \<longrightarrow> uids8 (y # ys)" using assms(3) y(3) uids8_subset by blast
  then show ?thesis
    using assms y
    by (simp add: handleNoMaster_def decide_def perform_def Let_def log_reason_skip)
qed

lemma handleSingleMaster_refines:
  assumes "filter IsMaster allStates = [m]"
  shows "handleSingleMaster o1 m l = perform o1 l (decide (oconfig o1) (podUID o1) l allStates)"
proof -
  have "least_uid {m} = PodUID m" by (simp add: least_uid_def rank_of_def)
  moreover have "allStates \<noteq> []" using assms by auto
  ultimately show ?thesis
    using assms by (simp add: handleSingleMaster_def decide_def perform_def Let_def)
qed

lemma handleSplitBrain_refines:
  assumes "1 < length (filter IsMaster allStates)"
    and "Debug (oconfig o1) \<longrightarrow> uids8 allStates"
  shows "handleSplitBrain o1 allStates l =
    perform o1 l (decide (oconfig o1) (podUID o1) l allStates)"
proof -
  obtain ms where ms: "filter IsMaster allStates = ms" by simp
  then have len: "1 < length ms" "ms \<noteq> []" "length ms \<noteq> 1" "allStates \<noteq> []"
    using assms(1) by auto
  obtain y ys where y: "sort_slice pod_less ms = y # ys" "PodUID y = least_uid (set ms)"
      "set (y # ys) = set ms"
    by (rule sort_first [OF len(2)])
  have "set ms \<subseteq> set allStates" using ms by auto
  then have log: "Debug (oconfig o1) \<longrightarrow> uids8 (y # ys)"
    using assms(2) y(3) uids8_subset [of allStates] by simp
  show ?thesis
    unfolding handleSplitBrain_def decide_def perform_def Let_def ms y(1) list.case
      log_reason_skip [OF log] y(2)
    using len by simp
qed

lemma reconcile_refines:
  assumes "ElectionMode (oconfig o1) \<noteq> ElectionModeRaft"
    and "Debug (oconfig o1) \<longrightarrow> uids8 (healthy_states o1)"
  shows "same_run (reconcile o1 l)
    (perform o1 l (decide (oconfig o1) (podUID o1) l (healthy_states o1)))"
proof (cases "healthy_states o1 = []")
  case True
  then show ?thesis by (simp add: reconcile_def decide_def perform_def)
next
  case ne: False
  consider "filter IsMaster (healthy_states o1) = []"
    | m where "filter IsMaster (healthy_states o1) = [m]"
    | a b c where "filter IsMaster (healthy_states o1) = a # b # c"
    by (metis neq_Nil_conv)
  then show ?thesis
  proof cases
    case 1
    then show ?thesis using ne assms handleNoMaster_refines [OF ne 1 assms(2)]
      by (simp add: reconcile_def Let_def)
  next
    case 2
    then show ?thesis using ne assms handleSingleMaster_refines [OF 2, of o1 l]
      by (simp add: reconcile_def Let_def)
  next
    case 3
    then have "1 < length (filter IsMaster (healthy_states o1))" by simp
    then show ?thesis using 3 ne assms handleSplitBrain_refines [of "healthy_states o1" o1 l]
      by (simp add: reconcile_def Let_def)
  qed
qed

section \<open>Independence of the order of the table\<close>

lemma decide_perm:
  assumes "mset xs = mset ys"
  shows "decide cfg uid l xs = decide cfg uid l ys"
proof -
  have f: "mset (filter IsMaster xs) = mset (filter IsMaster ys)" using assms by simp
  have "set xs = set ys" "set (filter IsMaster xs) = set (filter IsMaster ys)"
    "length (filter IsMaster xs) = length (filter IsMaster ys)"
    using assms f by (metis mset_eq_setD) (metis f mset_eq_setD, metis f mset_eq_length)
  moreover have "xs = [] \<longleftrightarrow> ys = []" "filter IsMaster xs = [] \<longleftrightarrow> filter IsMaster ys = []"
    using assms f by (metis mset_zero_iff)+
  ultimately show ?thesis by (simp add: decide_def Let_def)
qed

lemma mset_healthy_states:
  "mset (peerStates o1) = mset (peerStates o2) \<Longrightarrow> mset (healthy_states o1) = mset (healthy_states o2)"
  by (simp add: healthy_states_def)

lemma perform_peerStates [simp]: "perform (o1\<lparr>peerStates := ps\<rparr>) l a = perform o1 l a"
  by (simp add: perform_def promoteToMaster_def demoteToReplica_def checkAndFixReplication_def
      Let_def cong: if_cong sum.case_cong split: action.splits)

lemma handleRaftMode_peerStates [simp]:
  "handleRaftMode (o1\<lparr>peerStates := ps\<rparr>) l = handleRaftMode o1 l"
  by (simp add: handleRaftMode_def promoteToMaster_def demoteToReplica_def
      checkAndFixReplication_def Let_def cong: if_cong sum.case_cong)

section \<open>No panics\<close>

lemma returns_with_client: "p \<noteq> None \<Longrightarrow> (\<And>c. returns (f c)) \<Longrightarrow> returns (with_client p f)"
  by auto

lemma returns_perform:
  assumes "redisClient o1 \<noteq> None"
  shows "returns (promoteToMaster o1)" "returns (demoteToReplica o1)"
    "returns (checkAndFixReplication o1 l)" "returns (perform o1 l a)"
proof -
  show *: "returns (promoteToMaster o1)" "returns (demoteToReplica o1)"
    "returns (checkAndFixReplication o1 l)"
    using assms
    by (auto simp: promoteToMaster_def demoteToReplica_def checkAndFixReplication_def Let_def
        intro!: returns_bnd returns_check returns_with_client split: sum.splits)
  then show "returns (perform o1 l a)" by (simp add: perform_def split: action.splits)
qed

lemma returns_strategy: "returns (strat_IsLeader s)" "returns (strat_GetLeader s)"
  by (auto simp: strat_IsLeader_def strat_GetLeader_def raft_IsLeader_def raft_GetLeader_def
      raftState_def raftLeaderWithID_def intro!: returns_bnd split: strategy.splits option.splits)

lemma returns_handleRaftMode:
  assumes "client_inv o1" and "\<not> Debug (oconfig o1)"
  shows "returns (handleRaftMode o1 l)"
proof (cases "Standalone (oconfig o1)")
  case True
  then show ?thesis by (simp add: handleRaftMode_def)
next
  case False
  with assms(1) have "redisClient o1 \<noteq> None" by (simp add: client_inv_def)
  then show ?thesis
    using assms(2) False
    by (auto simp: handleRaftMode_def Let_def
        intro!: returns_bnd returns_strategy returns_perform split: sum.splits)
qed

lemma returns_iff: "returns m \<longleftrightarrow> (\<forall>E t. \<exists>a. fst (m E t) = Ret a)"
proof -
  have "(case r of (Ret a, t') \<Rightarrow> True | (Panic p, t') \<Rightarrow> False) \<longleftrightarrow> (\<exists>a. fst r = Ret a)"
    for r :: "'a go \<times> trace"
    by (auto split: prod.splits go.splits)
  then show ?thesis by (simp add: returns_def wp_def)
qed

lemma map_go_Ret: "map_go f g = Ret b \<longleftrightarrow> (\<exists>a. g = Ret a \<and> b = f a)"
  by (cases g) auto

lemma same_run_Ret:
  assumes "same_run m n" and "n E t = (Ret None, t')"
  shows "m E t = (Ret None, t')"
proof -
  obtain g s where m: "m E t = (g, s)" by force
  have "snd (m E t) = snd (n E t)"
    "map_go (\<lambda>e. e = None) (fst (m E t)) = map_go (\<lambda>e. e = None) (fst (n E t))"
    using assms(1) by (simp_all add: same_run_def)
  then show ?thesis using m assms(2) by (auto simp: map_go_Ret)
qed

lemma same_run_returns: "same_run m n \<Longrightarrow> returns n \<Longrightarrow> returns m"
  unfolding returns_iff same_run_def by (metis map_go_Ret)

lemma returns_reconcile:
  assumes "client_inv o1" and "\<not> Debug (oconfig o1)"
  shows "returns (reconcile o1 l)"
proof (cases "ElectionMode (oconfig o1) = ElectionModeRaft")
  case True
  then show ?thesis using returns_handleRaftMode [OF assms] by (simp add: reconcile_def Let_def)
next
  case False
  have "same_run (reconcile o1 l)
      (perform o1 l (decide (oconfig o1) (podUID o1) l (healthy_states o1)))"
    using False assms(2) by (intro reconcile_refines) simp_all
  moreover have "returns (perform o1 l (decide (oconfig o1) (podUID o1) l (healthy_states o1)))"
  proof (cases "Standalone (oconfig o1)")
    case True
    then show ?thesis by (simp add: decide_def perform_def)
  next
    case False
    then show ?thesis using assms(1) by (intro returns_perform) (simp add: client_inv_def)
  qed
  ultimately show ?thesis by (rule same_run_returns)
qed

text \<open>A cycle changes nothing of the orchestrator but its table of peers.\<close>

lemma updatePeerStates_frame:
  assumes "updatePeerStates o1 l p E t = (Ret o2, t')"
  obtains ps where "o2 = o1\<lparr>peerStates := ps\<rparr>"
  using assms by (auto simp: updatePeerStates_def now_def)

lemma client_inv_peerStates [simp]: "client_inv (o1\<lparr>peerStates := ps\<rparr>) = client_inv o1"
  by (simp add: client_inv_def)

lemma syncState_frame:
  assumes "syncState o1 E t = (Ret (o2, err), t')"
  obtains ps where "o2 = o1\<lparr>peerStates := ps\<rparr>"
proof -
  from assms obtain ls t1 where ls: "(case ls of
        Inl e \<Rightarrow> ret (o1, Some (errorf ''failed to get local state'' e))
      | Inr localState \<Rightarrow>
          bnd (discoverAndQueryPeers o1) (\<lambda>d.
          bnd (updatePeerStates o1 localState (case d of Inl _ \<Rightarrow> [] | Inr ps \<Rightarrow> ps)) (\<lambda>o2.
          bnd (reconcile o2 localState) (\<lambda>err. ret (o2, err))))) E t1 = (Ret (o2, err), t')"
    unfolding syncState_def by (elim bnd_RetE)
  show thesis
  proof (cases ls)
    case (Inl e)
    then have "o2 = o1\<lparr>peerStates := peerStates o1\<rparr>" using ls by simp
    then show thesis by (rule that)
  next
    case (Inr l)
    then show thesis using ls
      by (auto elim!: bnd_RetE updatePeerStates_frame intro: that)
  qed
qed

lemma wp_returns: "returns m \<Longrightarrow> (\<And>a t'. m E t = (Ret a, t') \<Longrightarrow> Q a t') \<Longrightarrow> wp m Q E t"
  by (elim returns_obtain [of m E t]) (auto simp: wp_def)

lemma returns_syncState:
  assumes "client_inv o1" and "\<not> Debug (oconfig o1)"
  shows "returns (syncState o1)"
  unfolding returns_def syncState_def
proof (intro allI, unfold wp_bnd, rule returnsD [OF returns_getLocalState [OF assms(1)]])
  fix E ls t
  show "wp (case ls of
        Inl e \<Rightarrow> ret (o1, Some (errorf ''failed to get local state'' e))
      | Inr localState \<Rightarrow>
          bnd (discoverAndQueryPeers o1) (\<lambda>d.
          bnd (updatePeerStates o1 localState (case d of Inl _ \<Rightarrow> [] | Inr ps \<Rightarrow> ps)) (\<lambda>o2.
          bnd (reconcile o2 localState) (\<lambda>err. ret (o2, err))))) (\<lambda>_ _. True) E t"
    by (cases ls)
      (auto intro!: wp_returns returns_reconcile elim!: updatePeerStates_frame simp: assms)
qed

section \<open>Which calls a cycle makes\<close>

definition promote_call :: "event \<Rightarrow> bool" where
  "promote_call e \<longleftrightarrow> e = RedisDo [''REPLICAOF'', ''NO'', ''ONE'']"

definition label_master_call :: "event \<Rightarrow> bool" where
  "label_master_call e \<longleftrightarrow>
     (\<exists>ns p. e = PodUpdate ns p \<and> map_get (labels_of p) MasterLabel = MasterLabelValue)"

definition modest :: "event \<Rightarrow> bool" where
  "modest e \<longleftrightarrow> \<not> promote_call e \<and> \<not> label_master_call e"

lemma reading_modest: "reading e \<Longrightarrow> modest e"
  by (auto simp: modest_def promote_call_def label_master_call_def)

lemma formatInt_not_ONE: "formatInt n \<noteq> ''ONE''"
proof
  assume "formatInt n = ''ONE''"
  moreover have "CHR ''O'' \<notin> set (formatInt n)"
    by (rule formatInt_no_char) (simp_all add: digitVal_def)
  ultimately show False by simp
qed

lemma replicaof_modest: "modest (RedisDo [''REPLICAOF'', h, formatInt p])"
  by (simp add: modest_def promote_call_def label_master_call_def formatInt_not_ONE)

lemma emits_removeMasterLabel_modest: "emits modest (removeMasterLabel cfg)"
  unfolding removeMasterLabel_def podGet_def podUpdate_def
  by (intro emit_intros)
    (auto simp: emits_call modest_def promote_call_def label_master_call_def labels_of_def
      map_get_def MasterLabelValue_def)

lemma emits_demote_modest: "emits modest (demoteToReplica o1)"
  unfolding demoteToReplica_def
  by (intro emit_intros emits_removeMasterLabel_modest emits_with_client emits_SetReplicaOf
      replicaof_modest)

lemma emits_check_modest: "emits modest (checkAndFixReplication o1 l)"
  unfolding checkAndFixReplication_def
  by (intro emit_intros emits_with_client emits_SetReplicaOf emits_GetReplicationInfo
      replicaof_modest) (simp add: reading_modest)

lemma emits_IsLeader: "emits reading (strat_IsLeader s)"
  unfolding strat_IsLeader_def raft_IsLeader_def raftState_def
  by (auto simp: emits_call split: strategy.splits intro!: emit_intros)

lemma emits_GetLeader: "emits reading (strat_GetLeader s)"
  unfolding strat_GetLeader_def raft_GetLeader_def raftLeaderWithID_def
  by (auto simp: emits_call split: strategy.splits intro!: emit_intros)

lemma emits_reconcile_no_promote:
  assumes "NoPromote (oconfig o1)"
  shows "emits modest (reconcile o1 l)"
proof -
  have "emits modest (handleNoMaster o1 xs l)" "emits modest (handleSplitBrain o1 xs l)"
    "emits modest (handleSingleMaster o1 m l)" for xs m
    using assms
    by (auto simp: handleNoMaster_def handleSplitBrain_def handleSingleMaster_def Let_def
        intro!: emit_intros emits_demote_modest emits_check_modest)
  moreover have "emits modest (handleRaftMode o1 l)"
    using assms
    by (auto simp: handleRaftMode_def Let_def
        intro!: emit_intros emits_demote_modest emits_mono [OF emits_IsLeader reading_modest])
  ultimately show ?thesis
    unfolding reconcile_def Let_def by (auto split: list.splits intro!: emit_intros)
qed

lemma emits_syncState:
  assumes read: "\<And>e. reading e \<Longrightarrow> Q e"
    and rec: "\<And>ps l. emits Q (reconcile (o1\<lparr>peerStates := ps\<rparr>) l)"
  shows "emits Q (syncState o1)"
proof -
  have upd: "emits Q (bnd (updatePeerStates o1 l ps) (\<lambda>o2. bnd (reconcile o2 l) (\<lambda>err. ret (o2, err))))"
    for l ps
    unfolding updatePeerStates_def now_def bnd_assoc bnd_ret
    by (intro emit_intros rec) (simp add: emits_call read)
  have "emits Q (getLocalState o1)" "emits Q (discoverAndQueryPeers o1)"
    using emits_getLocalState emits_discover peer_call_reading read by (blast intro: emits_mono)+
  then show ?thesis
    unfolding syncState_def by (intro emit_intros upd)
qed

end
