(* ===== verification/Raft_Facts.thy ===== *)
theory Raft_Facts
  imports Raft_Strategy
begin

text \<open>
  Facts about the Raft strategy: who may change the membership and with which calls, what a
  joining node asks for, when a node bootstraps a cluster of its own, and how long it tries
  to join one.
\<close>

section \<open>Membership\<close>

lemma add_server_calls:
  assumes "RaftAdd s i a \<in> set (calls (add_server suf what r req) E t)"
  shows "s = suf \<and> rs_raft r \<and> x_raft_state E t = Leader \<and>
    decode_add_request (ReqBody req) = Inr \<lparr>reqID = i, reqAddress = a\<rparr> \<and> i \<noteq> [] \<and> a \<noteq> [] \<and>
    (\<exists>servers. x_raft_configuration E (RaftState # t) = Inr servers \<and> i \<notin> srvID ` set servers)"
proof -
  have "snd (bnd (slice8 x) f E t') = t'" if "\<And>y. snd (f y E t') = t'" for x and f :: "string \<Rightarrow> 'b io" and t'
    using that by (simp add: slice8_def split: option.splits)
  then show ?thesis
    using assms
    by (auto simp: calls_def Let_def add_server_def raftState_def raftLeaderWithID_def
        raftGetConfiguration_def raftAdd_def bnd_def slice8_def slice_to_def
        split: if_splits sum.splits option.splits prod.splits)
qed

text \<open>
  C17. A handler adds a server only while this node is the Raft leader, only the server the
  request names, with a non-empty id and address, only if that id is not yet a member, and
  with the suffrage of the endpoint.
\<close>

theorem membership_change_guarded:
  assumes "(h, suf) \<in> {(HandleAddVoter, Voter), (HandleAddNonvoter, Nonvoter)}"
    and "RaftAdd s i a \<in> set (calls (h r req) E t)"
  shows "s = suf \<and> x_raft_state E t = Leader \<and>
    decode_add_request (ReqBody req) = Inr \<lparr>reqID = i, reqAddress = a\<rparr> \<and> i \<noteq> [] \<and> a \<noteq> [] \<and>
    (\<exists>servers. x_raft_configuration E (RaftState # t) = Inr servers \<and> i \<notin> srvID ` set servers)"
  using assms add_server_calls [of s i a suf _ r req E t]
  by (auto simp: HandleAddVoter_def HandleAddNonvoter_def)

definition demo_raft :: raft_strategy where
  "demo_raft = (NewRaftStrategy ''redis-0'' ''uid-of-redis-0'' ''10.0.0.1'' ''0.0.0.0:7000''
     [''redis-1.redis:7000''] ''/data'' True False False (NewAuthenticator ''k''))\<lparr>rs_raft := True\<rparr>"

lemma demo_raft_simps [simp]:
  "rs_raft demo_raft" "\<not> rs_debug demo_raft" "rs_bootstrap demo_raft" "\<not> rs_standalone demo_raft"
  "rs_peers demo_raft = [''redis-1.redis:7000'']" "rs_authenticator demo_raft = Some (NewAuthenticator ''k'')"
  "rs_localPodUID demo_raft = ''uid-of-redis-0''"
  by (simp_all add: demo_raft_def NewRaftStrategy_def)

definition demo_add :: "string \<Rightarrow> http_request" where
  "demo_add i = \<lparr>Method = ''POST'', URL = ''http://10.0.0.1:8080/raft/add-voter'', Header = [],
     ReqBody = Json (JObj [(''address'', JStr ''10.0.0.2:7000''), (''id'', JStr i)])\<rparr>"

lemma decode_demo_add [simp]:
  "decode_add_request (ReqBody (demo_add i)) = Inr \<lparr>reqID = i, reqAddress = ''10.0.0.2:7000''\<rparr>"
  by (simp add: demo_add_def decode_add_request_def add_request_fields_def same_tag_def lower_char_def Let_def)

definition leader_env :: env where
  "leader_env = dead_env\<lparr>x_raft_state := \<lambda>t. Leader\<rparr>"

theorem membership_change_guarded_witness:
  "RaftAdd Voter ''uid-of-redis-1'' ''10.0.0.2:7000'' \<in>
      set (calls (HandleAddVoter demo_raft (demo_add ''uid-of-redis-1'')) leader_env []) \<and>
    x_raft_state leader_env [] = Leader"
proof -
  have m: "RaftAdd Voter ''uid-of-redis-1'' ''10.0.0.2:7000'' \<in>
      set (calls (HandleAddVoter demo_raft (demo_add ''uid-of-redis-1'')) leader_env [])"
    by (simp add: HandleAddVoter_def add_server_def calls_def raftState_def raftGetConfiguration_def
        raftAdd_def slice8_def slice_to_def leader_env_def Let_def)
  then show ?thesis
    using membership_change_guarded [of HandleAddVoter Voter Voter "''uid-of-redis-1''" "''10.0.0.2:7000''"
        demo_raft "demo_add ''uid-of-redis-1''" leader_env "[]"] by simp
qed

text \<open>
  On the leader, a well-formed request with an id of at least eight characters is answered:
  a member is reported as such without any change, and a server that is not yet a member is
  added with one call to the library, whose error becomes a 500 response.
\<close>

lemma add_server_response:
  assumes "(h, suf) \<in> {(HandleAddVoter, Voter), (HandleAddNonvoter, Nonvoter)}"
    and "rs_raft r" and "x_raft_state E t = Leader"
    and "decode_add_request (ReqBody req) = Inr \<lparr>reqID = i, reqAddress = a\<rparr>"
    and "8 \<le> length i" and "a \<noteq> []" and "x_raft_configuration E (RaftState # t) = Inr servers"
  shows "if i \<in> srvID ` set servers
    then h r req E t = (Ret (status_json ''already_member''), [RaftGetConfiguration, RaftState] @ t)
    else \<exists>resp. h r req E t = (Ret resp, [RaftAdd suf i a, RaftGetConfiguration, RaftState] @ t) \<and>
      (case x_raft_add E (RaftGetConfiguration # RaftState # t) suf i a of
         None \<Rightarrow> resp = status_json ''added''
       | Some e \<Rightarrow> StatusCode resp = StatusInternalServerError)"
  using assms
  by (auto simp: HandleAddVoter_def HandleAddNonvoter_def add_server_def raftState_def
      raftGetConfiguration_def raftAdd_def slice8_cases http_error_def image_iff
      split: option.splits)

text \<open>
  C37. With a shorter id the server is added and the handler then panics: the log message takes
  eight characters of the id, so the client gets no response for a change that was made.
\<close>

theorem short_id_panics_after_add:
  assumes "(h, suf) \<in> {(HandleAddVoter, Voter), (HandleAddNonvoter, Nonvoter)}"
    and "rs_raft r" and "\<not> rs_debug r" and "x_raft_state E t = Leader"
    and "decode_add_request (ReqBody req) = Inr \<lparr>reqID = i, reqAddress = a\<rparr>"
    and "i \<noteq> []" and "length i < 8" and "a \<noteq> []"
    and "x_raft_configuration E (RaftState # t) = Inr servers" and "i \<notin> srvID ` set servers"
  shows "\<exists>p. h r req E t = (Panic p, [RaftAdd suf i a, RaftGetConfiguration, RaftState] @ t)"
  using assms
  by (auto simp: HandleAddVoter_def HandleAddNonvoter_def add_server_def raftState_def
      raftGetConfiguration_def raftAdd_def slice8_cases image_iff)

theorem short_id_panics_after_add_witness:
  "\<exists>p. HandleAddVoter demo_raft (demo_add ''node-1'') leader_env [] =
     (Panic p, [RaftAdd Voter ''node-1'' ''10.0.0.2:7000'', RaftGetConfiguration, RaftState] @ [])"
  by (rule short_id_panics_after_add [where servers = "[]"]) (simp_all add: leader_env_def)

section \<open>Discovery and joining\<close>

text \<open>The calls of discovery and joining: the clock and HTTP requests, nothing that sleeps.\<close>

definition net_call :: "event \<Rightarrow> bool" where
  "net_call e \<longleftrightarrow> e = ClockRead \<or> (\<exists>r. e = HttpDo r)"

lemma emits_sign_opt: "emits net_call (sign_opt a req)"
  unfolding sign_opt_def by (intro emit_intros emits_SignRequest) (simp add: net_call_def)

lemma emits_query_status: "emits net_call (query_status r p)"
  unfolding query_status_def httpDo_def
  by (intro emit_intros emits_sign_opt) (simp add: emits_call net_call_def)

lemma emits_DiscoverCluster: "emits net_call (DiscoverCluster r ps)"
proof (induction ps)
  case (Cons p ps)
  then show ?case by (auto intro!: emit_intros emits_query_status)
qed (simp add: emits_def)

lemma emits_JoinCluster: "emits net_call (JoinCluster r a)"
  unfolding JoinCluster_def httpDo_def
  by (intro emit_intros emits_sign_opt) (simp add: emits_call net_call_def)

lemma returns_query_status [simp]: "returns (query_status r p)"
  unfolding query_status_def sign_opt_def httpDo_def
  by (intro returns_bnd returns_split returns_call returns_ret returns_newRequest returns_SignRequest)

lemma returns_DiscoverCluster [simp]: "returns (DiscoverCluster r ps)"
proof (induction ps)
  case (Cons p ps)
  then show ?case by (auto intro!: returns_bnd split: option.splits)
qed simp

text \<open>
  Discovery never panics; if it reports a cluster then, peer addresses not being empty, it
  reports an address of its leader.
\<close>

lemma discovery_names_leader:
  assumes "[] \<notin> set peers"
  shows "\<exists>r t'. DiscoverCluster s peers E t = (Ret r, t') \<and>
    (case r of Inl e \<Rightarrow> True | Inr info \<Rightarrow> LeaderAddr info \<noteq> [])"
  using assms
proof (induction peers arbitrary: t)
  case (Cons p ps)
  obtain q t1 where q: "query_status s p E t = (Ret q, t1)"
    using returns_query_status by (rule returns_obtain)
  have ih: "\<exists>r t'. DiscoverCluster s ps E t1 = (Ret r, t') \<and>
      (case r of Inl e \<Rightarrow> True | Inr info \<Rightarrow> LeaderAddr info \<noteq> [])"
    using Cons by simp
  show ?case
  proof (cases q)
    case None
    then show ?thesis using ih q by (simp add: bnd_def)
  next
    case (Some info)
    then show ?thesis using ih q Cons.prems by (auto simp: bnd_def)
  qed
qed simp

text \<open>
  The status a node reports is what discovery on another node reads from the response, for
  every list of peers the node was configured with.
\<close>

lemma status_roundtrip:
  assumes "rs_raft r"
  shows "\<exists>resp. HandleRaftStatus r req E t = (Ret resp, [RaftState, RaftLeader] @ t) \<and>
    StatusCode resp = StatusOK \<and>
    decode_cluster_info (RespBody resp) = Inr
      \<lparr>LeaderAddr = fst (x_raft_leader E t), LeaderID = snd (x_raft_leader E t),
       ciState = role_string (x_raft_state E (RaftLeader # t)),
       ciPodName = rs_localPodName r, ciPodUID = rs_localPodUID r, ciPeers = rs_peers r\<rparr>"
  using assms
  by (simp add: HandleRaftStatus_def raftLeaderWithID_def raftState_def ok_json_def
      decode_cluster_info_def encode_cluster_info_def cluster_info_fields_def empty_cluster_info_def
      same_tag_def lower_char_def Let_def split: prod.splits)

text \<open>The request a node sends to join, before it is signed.\<close>

definition join_request :: "raft_strategy \<Rightarrow> string \<Rightarrow> http_request" where
  "join_request r leaderAddr = \<lparr>Method = ''POST'', URL = join_url r leaderAddr,
     Header = [(''Content-Type'', ''application/json'')], ReqBody = join_body r\<rparr>"

lemma decode_join_body:
  "decode_add_request (join_body r) = Inr \<lparr>reqID = rs_localPodUID r, reqAddress = local_advertise r\<rparr>"
  by (simp add: join_body_def decode_add_request_def add_request_fields_def same_tag_def lower_char_def Let_def)

lemma local_advertise_not_Nil [simp]: "local_advertise r \<noteq> []"
  by (simp add: local_advertise_def)

lemma JoinCluster_run:
  assumes "rs_raft r" and "rs_debug r \<longrightarrow> 8 \<le> length (rs_localPodUID r)"
    and "rs_authenticator r = Some a" and "sharedSecret a \<noteq> []" and "x_url E (join_url r leaderAddr) = None"
  shows "JoinCluster r leaderAddr E t =
    (Ret (case x_http E (ClockRead # t) (sign_at a (x_now E t) (join_request r leaderAddr)) of
        Inl e \<Rightarrow> Some (errorf ''failed to contact leader'' e)
      | Inr resp \<Rightarrow> if StatusCode resp \<noteq> StatusOK
          then Some (''join request failed with status '' @ formatNat (StatusCode resp)) else None),
     [HttpDo (sign_at a (x_now E t) (join_request r leaderAddr)), ClockRead] @ t)"
  using assms
  by (cases "rs_debug r")
    (simp_all add: JoinCluster_def slice8_cases sign_opt_def SignRequest_def now_def httpDo_def
      newRequest_def bnd_def join_request_def Let_def split: sum.splits)

section \<open>Starting\<close>

text \<open>The port of the bind address, empty if that cannot be taken apart.\<close>

definition bind_port :: "raft_strategy \<Rightarrow> string" where
  "bind_port r = (case netSplitHostPort (rs_bindAddr r) of Inl _ \<Rightarrow> [] | Inr (_, p) \<Rightarrow> p)"

definition boots_only :: "raft_strategy \<Rightarrow> event \<Rightarrow> bool" where
  "boots_only r e \<longleftrightarrow> (\<forall>ss. e = RaftBootstrap ss \<longrightarrow>
     rs_bootstrap r \<and> \<not> rs_standalone r \<and> rs_peers r \<noteq> [] \<and>
     ss = [\<lparr>srvID = rs_localPodUID r, srvAddress = joinHostPort (rs_localPodIP r) (bind_port r), srvSuffrage = Voter\<rparr>])"

lemma net_call_boots: "net_call e \<Longrightarrow> boots_only r e"
  by (auto simp: net_call_def boots_only_def)

lemma emits_create_raft: "emits (\<lambda>e. \<exists>s. e = RaftSetup s) (create_raft r)"
  unfolding create_raft_def raftSetup_def by (intro emit_intros) (simp_all add: emits_call)

lemma emits_join_or_bootstrap:
  assumes "rs_bootstrap r" and "\<not> rs_standalone r" and "rs_peers r \<noteq> []"
  shows "emits (boots_only r) (join_or_bootstrap r)"
proof -
  have "emits (boots_only r) (bootstrap_self r)"
    unfolding bootstrap_self_def raftBootstrap_def
    by (intro emit_intros) (auto simp: emits_call boots_only_def bind_port_def assms)
  moreover have "emits (boots_only r) (DiscoverCluster r ps)" for ps
    by (rule emits_mono [OF emits_DiscoverCluster]) (rule net_call_boots)
  moreover have "emits (boots_only r) (JoinCluster r ad)" for ad
    by (rule emits_mono [OF emits_JoinCluster]) (rule net_call_boots)
  ultimately show ?thesis unfolding join_or_bootstrap_def by (intro emit_intros)
qed

lemma boots_only_simps [simp]:
  "boots_only r RaftLastIndex" "boots_only r (GoStmt s)" "boots_only r (RaftSetup st)"
  by (simp_all add: boots_only_def)

lemma emits_raft_Start: "emits (boots_only r0) (raft_Start r0)"
proof -
  have c: "emits (boots_only r0) (create_raft r0)"
    by (rule emits_mono [OF emits_create_raft]) auto
  have e: "boots_only (r0\<lparr>rs_raft := True\<rparr>) = boots_only r0" by (simp add: fun_eq_iff boots_only_def bind_port_def)
  have b: "emits (boots_only r0) (join_or_bootstrap (r0\<lparr>rs_raft := True\<rparr>))"
    if "rs_bootstrap r0" "\<not> rs_standalone r0" "rs_peers r0 \<noteq> []"
    using emits_join_or_bootstrap [of "r0\<lparr>rs_raft := True\<rparr>"] that unfolding e by simp
  show ?thesis
    unfolding raft_Start_def raftLastIndex_def goStmt_def Let_def
    by (intro emit_intros c) (auto simp: emits_call b)
qed

lemma raft_Start_existing:
  assumes "\<forall>t. 0 < x_raft_last_index E t"
  shows "\<forall>e \<in> set (calls (raft_Start r) E t).
    (\<exists>s. e = RaftSetup s) \<or> e = RaftLastIndex \<or> e = GoStmt ''monitorLeadership''"
proof -
  obtain es where es: "snd (create_raft r E t) = es @ t" "\<forall>e \<in> set es. \<exists>s. e = RaftSetup s"
    using emits_create_raft unfolding emits_def by blast
  have z: "x_raft_last_index E s \<noteq> 0" for s using assms by (metis less_irrefl)
  show ?thesis
  proof (cases rule: bnd_cases [of "create_raft r" E t "\<lambda>err. case err of
      Some e \<Rightarrow> ret (r, Some e)
    | None \<Rightarrow> bnd raftLastIndex (\<lambda>_. bnd (if rs_debug r then bnd raftLastIndex (\<lambda>_. ret ()) else ret ())
        (\<lambda>_. bnd (goStmt ''monitorLeadership'') (\<lambda>_. ret (r\<lparr>rs_raft := True\<rparr>, None))))"])
    case (Ret err t1)
    then have "\<exists>fs. snd (raft_Start r E t) = fs @ es @ t \<and>
        set fs \<subseteq> {RaftLastIndex, GoStmt ''monitorLeadership''}"
      using es
      by (cases err) (auto simp: z raft_Start_def raftLastIndex_def goStmt_def Let_def bnd_def
          intro: exI [of _ "[]"] exI [of _ "[GoStmt ''monitorLeadership'', RaftLastIndex]"]
            exI [of _ "[GoStmt ''monitorLeadership'', RaftLastIndex, RaftLastIndex]"])
    then obtain fs where fs: "snd (raft_Start r E t) = (fs @ es) @ t"
      "set fs \<subseteq> {RaftLastIndex, GoStmt ''monitorLeadership''}" by auto
    have "calls (raft_Start r) E t = fs @ es" using fs(1) by (rule calls_eq)
    then show ?thesis using fs(2) es(2) by fastforce
  next
    case (Panic p t1)
    then have "snd (raft_Start r E t) = es @ t" using es by (simp add: raft_Start_def bnd_def)
    then show ?thesis using es(2) by (auto simp: calls_eq)
  qed
qed

text \<open>
  C19. A node creates a cluster of its own only if it is configured to, is no witness and knows
  peers, and then one whose only member is the node itself, as a voter at its own address. A
  node with Raft state on disk only sets the library up, reads its last index and starts the
  monitor: it creates no cluster, sends no request and starts no goroutine that would join one.
\<close>

theorem bootstrap_guarded:
  "(RaftBootstrap ss \<in> set (calls (raft_Start r) E t) \<longrightarrow>
      rs_bootstrap r \<and> \<not> rs_standalone r \<and> rs_peers r \<noteq> [] \<and>
      ss = [\<lparr>srvID = rs_localPodUID r, srvAddress = joinHostPort (rs_localPodIP r) (bind_port r),
         srvSuffrage = Voter\<rparr>]) \<and>
   ((\<forall>t. 0 < x_raft_last_index E t) \<longrightarrow>
      (\<forall>e \<in> set (calls (raft_Start r) E t).
         (\<exists>s. e = RaftSetup s) \<or> e = RaftLastIndex \<or> e = GoStmt ''monitorLeadership''))"
  using emits_calls [OF emits_raft_Start [of r], of "RaftBootstrap ss" E t] raft_Start_existing [of E r t]
  unfolding boots_only_def by blast

definition demo_start :: raft_strategy where
  "demo_start = demo_raft\<lparr>rs_raft := False, rs_peers := [''redis-1''], rs_authenticator := None\<rparr>"

lemma demo_start_bootstraps:
  "RaftBootstrap [\<lparr>srvID = ''uid-of-redis-0'', srvAddress = ''10.0.0.1:7000'', srvSuffrage = Voter\<rparr>] \<in>
     set (calls (raft_Start demo_start) dead_env [])"
proof -
  have s: "netSplitHostPort ''0.0.0.0:7000'' = Inr (''0.0.0.0'', ''7000'')"
    using netSplit_join [of "''0.0.0.0''" "''7000''"] by (simp add: plain_part_def joinHostPort_def)
  have c: "\<exists>es. create_raft demo_start dead_env [] = (Ret None, es)"
    by (simp add: create_raft_def demo_start_def demo_raft_def NewRaftStrategy_def s raftSetup_def
        check_def wrap_err_def bnd_assoc Let_def)
  have d: "\<exists>e es. DiscoverCluster (demo_start\<lparr>rs_raft := True\<rparr>) [''redis-1''] dead_env t = (Ret (Inl e), es @ t)" for t
    by (simp add: query_status_def splitHostPort_def demo_start_def sign_opt_def newRequest_def bnd_def httpDo_def)
  show ?thesis
  proof -
    obtain es where c': "create_raft demo_start dead_env [] = (Ret None, es)" using c by blast
    obtain e fs where d': "DiscoverCluster (demo_start\<lparr>rs_raft := True\<rparr>) [''redis-1''] dead_env (RaftLastIndex # es) =
        (Ret (Inl e), fs @ RaftLastIndex # es)" using d by blast
    have f: "rs_peers demo_start = [''redis-1'']" "rs_bindAddr demo_start = ''0.0.0.0:7000''"
      "rs_localPodUID demo_start = ''uid-of-redis-0''" "rs_localPodIP demo_start = ''10.0.0.1''"
      "rs_bootstrap demo_start" "\<not> rs_standalone demo_start" "\<not> rs_debug demo_start"
      by (simp_all add: demo_start_def demo_raft_def NewRaftStrategy_def)
    show ?thesis
      by (simp add: calls_def raft_Start_def bnd_def c' Let_def raftLastIndex_def f join_or_bootstrap_def
          d' bootstrap_self_def raftBootstrap_def goStmt_def s joinHostPort_def
          del: DiscoverCluster.simps)
  qed
qed

theorem bootstrap_guarded_witness:
  "RaftBootstrap [\<lparr>srvID = ''uid-of-redis-0'', srvAddress = ''10.0.0.1:7000'', srvSuffrage = Voter\<rparr>] \<in>
     set (calls (raft_Start demo_start) dead_env []) \<and> rs_bootstrap demo_start \<and>
   RaftBootstrap [] \<notin> set (calls (raft_Start demo_start) (dead_env\<lparr>x_raft_last_index := \<lambda>t. 7\<rparr>) [])"
  using demo_start_bootstraps
    bootstrap_guarded [of "[\<lparr>srvID = ''uid-of-redis-0'', srvAddress = ''10.0.0.1:7000'', srvSuffrage = Voter\<rparr>]"
      demo_start dead_env "[]"]
    bootstrap_guarded [of "[]" demo_start "dead_env\<lparr>x_raft_last_index := \<lambda>t. 7\<rparr>" "[]"]
  by simp

section \<open>Joining in the background\<close>

definition is_attempt :: "event \<Rightarrow> bool" where
  "is_attempt e \<longleftrightarrow> e = CtxDone"

lemma net_calls_filter:
  "\<forall>e \<in> set es. net_call e \<Longrightarrow> filter is_attempt es = [] \<and> filter is_sleep es = []"
  by (auto simp: filter_empty_conv net_call_def is_attempt_def is_sleep_def)

text \<open>\<open>few n k m\<close>: every run of \<open>m\<close>, panicking or not, has at most \<open>n\<close> attempts and \<open>k\<close> pauses.\<close>

definition few :: "nat \<Rightarrow> nat \<Rightarrow> 'a io \<Rightarrow> bool" where
  "few n k m \<longleftrightarrow> (\<forall>E t. \<exists>es. snd (m E t) = es @ t \<and> length (filter is_attempt es) \<le> n \<and>
     length (filter is_sleep es) \<le> k)"

lemma few_net: "emits net_call m \<Longrightarrow> few n k m"
  unfolding few_def emits_def using net_calls_filter by (metis list.size(3) zero_le)

lemma few_ret: "few n k (ret a)" "few n k (panic p)"
  by (simp_all add: few_def)

lemma few_bnd:
  assumes "few a c m" and "\<And>x. few b d (f x)"
  shows "few (a + b) (c + d) (bnd m f)"
  unfolding few_def
proof (intro allI)
  fix E t
  obtain es where es: "snd (m E t) = es @ t" "length (filter is_attempt es) \<le> a" "length (filter is_sleep es) \<le> c"
    using assms(1) unfolding few_def by blast
  show "\<exists>es. snd (bnd m f E t) = es @ t \<and> length (filter is_attempt es) \<le> a + b \<and>
      length (filter is_sleep es) \<le> c + d"
  proof (cases rule: bnd_cases [of m E t f])
    case (Ret x t')
    obtain fs where "snd (f x E t') = fs @ t'" "length (filter is_attempt fs) \<le> b" "length (filter is_sleep fs) \<le> d"
      using assms(2) unfolding few_def by blast
    with Ret es show ?thesis by (intro exI [of _ "fs @ es"]) auto
  next
    case (Panic p t')
    with es show ?thesis by (intro exI [of _ es]) auto
  qed
qed

text \<open>Sequencing after a call that is an attempt, a pause, or neither.\<close>

lemma few_after:
  "(\<And>x. few n k (f x)) \<Longrightarrow> few (Suc n) k (bnd ctxDone f)"
  "(\<And>x. few n k (g x)) \<Longrightarrow> few n (Suc k) (bnd (sleep d) g)"
  "(\<And>x. few n k (h x)) \<Longrightarrow> few n k (bnd raftState h)"
  "(\<And>x. few n k (i x)) \<Longrightarrow> few n k (bnd raftLeaderWithID i)"
  using few_bnd [of 1 0 ctxDone n k f] few_bnd [of 0 1 "sleep d" n k g]
    few_bnd [of 0 0 raftState n k h] few_bnd [of 0 0 raftLeaderWithID n k i]
  by (simp_all add: few_def [of "Suc 0"] few_def [of 0] ctxDone_def sleep_def raftState_def raftLeaderWithID_def
      is_attempt_def is_sleep_def)

lemma few_after_net: "emits net_call m \<Longrightarrow> (\<And>x. few n k (f x)) \<Longrightarrow> few n k (bnd m f)"
  using few_bnd [of 0 0 m n k f] by (simp add: few_net)

lemma few_slice8: "(\<And>x. few n k (f x)) \<Longrightarrow> few n k (bnd (slice8 s) f)"
  by (cases "8 \<le> length s") (simp_all add: slice8_cases few_ret)

lemma few_split:
  "few n k m \<Longrightarrow> few n k m' \<Longrightarrow> few n k (if b then m else m')"
  "few n k m \<Longrightarrow> (\<And>a. few n k (f a)) \<Longrightarrow> few n k (case x of None \<Rightarrow> m | Some a \<Rightarrow> f a)"
  "(\<And>a. few n k (g a)) \<Longrightarrow> (\<And>b. few n k (h b)) \<Longrightarrow> few n k (case y of Inl a \<Rightarrow> g a | Inr b \<Rightarrow> h b)"
  "(\<And>a b. few n k (j a b)) \<Longrightarrow> few n k (case z of (a, b) \<Rightarrow> j a b)"
  by (auto split: option.splits sum.splits prod.splits)

lemma few_autoJoin_loop: "few n n (autoJoin_loop r n)"
proof (induction n)
  case 0
  show ?case unfolding autoJoin_loop.simps by (rule few_ret)
next
  case (Suc n)
  show ?case
    unfolding autoJoin_loop.simps
    by (intro few_after few_after_net few_slice8 few_split few_ret emits_DiscoverCluster emits_JoinCluster Suc)
qed

text \<open>
  C20. A node that looks for a cluster in the background gives up: whatever happens, including
  a panic, it makes at most 18 attempts and pauses at most 19 times, the first time for ten
  seconds.
\<close>

theorem auto_join_bounded:
  "\<exists>es. snd (autoJoinCluster r E t) = es @ Sleep (10 * Second) # t \<and>
     length (filter is_attempt es) \<le> 18 \<and> length (filter is_sleep es) \<le> 18"
  using few_autoJoin_loop [of 18 r] unfolding few_def autoJoinCluster_def sleep_def bnd_call by blast

lemma autoJoin_loop_found:
  assumes "\<not> x_ctx_done E t" and "x_raft_leader E (CtxDone # t) = ([], i)"
    and "x_raft_state E (RaftLeader # CtxDone # t) = Follower"
    and "DiscoverCluster r (rs_peers r) E (RaftState # RaftState # RaftLeader # CtxDone # t) = (Ret (Inr info), t1)"
    and "length (LeaderID info) < 8"
  shows "autoJoin_loop r (Suc n) E t = (Panic ''slice bounds out of range'', t1)"
  using assms
  by (simp add: ctxDone_def raftLeaderWithID_def raftState_def bnd_def slice8_cases)

definition get_call :: "event \<Rightarrow> bool" where
  "get_call e \<longleftrightarrow> e = ClockRead \<or> (\<exists>req. e = HttpDo req \<and> Method req = ''GET'')"

definition status_call :: "event \<Rightarrow> bool" where
  "status_call e \<longleftrightarrow> e \<in> {ClockRead, CtxDone, RaftState, RaftLeader}"

lemma emits_query_status_get: "emits get_call (query_status r p)"
  unfolding emits_def
proof (intro allI)
  fix E t
  show "\<exists>es. snd (query_status r p E t) = es @ t \<and> (\<forall>e \<in> set es. get_call e)"
    by (auto simp: query_status_def bnd_def newRequest_def sign_opt_def SignRequest_def now_def httpDo_def
        get_call_def split: sum.splits option.splits)
qed

lemma emits_DiscoverCluster_get: "emits get_call (DiscoverCluster r ps)"
proof (induction ps)
  case (Cons p ps)
  then show ?case by (auto intro!: emit_intros emits_query_status_get)
qed (simp add: emits_def)

text \<open>
  C38. It also crashes: when the cluster that discovery finds does not give a leader id of at
  least eight characters (as a peer does that reports itself as leader without an id), the
  log message panics after the first discovery. Up to then the node has only waited, read the
  library's state and asked peers for their status with \<^verbatim>\<open>GET\<close>: it has not asked to join.
\<close>

theorem auto_join_short_leader_id:
  assumes "\<not> x_ctx_done E (Sleep (10 * Second) # t)"
    and "\<forall>t. x_raft_leader E t = ([], i)" and "\<forall>t. x_raft_state E t = Follower"
    and "\<forall>t. \<exists>t1. DiscoverCluster r (rs_peers r) E t = (Ret (Inr info), t1)"
    and "length (LeaderID info) < 8"
  shows "fst (autoJoinCluster r E t) = Panic ''slice bounds out of range'' \<and>
    (\<forall>e \<in> set (calls (autoJoinCluster r) E t).
       (case e of HttpDo req \<Rightarrow> Method req = ''GET'' | Sleep d \<Rightarrow> d = 10 * Second | _ \<Rightarrow> status_call e))"
proof -
  obtain t1 where d: "DiscoverCluster r (rs_peers r) E
      (RaftState # RaftState # RaftLeader # CtxDone # Sleep (10 * Second) # t) = (Ret (Inr info), t1)"
    using assms(4) by blast
  have "autoJoin_loop r (Suc 17) E (Sleep (10 * Second) # t) = (Panic ''slice bounds out of range'', t1)"
    using assms(2,3) by (intro autoJoin_loop_found [OF assms(1) _ _ d assms(5)]) auto
  moreover have "18 = Suc 17" by simp
  ultimately have p: "autoJoinCluster r E t = (Panic ''slice bounds out of range'', t1)"
    unfolding autoJoinCluster_def sleep_def bnd_call by metis
  obtain es where es: "t1 = es @ RaftState # RaftState # RaftLeader # CtxDone # Sleep (10 * Second) # t"
      "\<forall>e \<in> set es. get_call e"
    using emits_DiscoverCluster_get d by (rule emits_trace)
  have "calls (autoJoinCluster r) E t = es @ [RaftState, RaftState, RaftLeader, CtxDone, Sleep (10 * Second)]"
    by (rule calls_eq) (simp add: p es(1))
  then show ?thesis using p es(2) by (auto simp: get_call_def status_call_def)
qed

text \<open>A peer that has just become leader and does not know its own address yet.\<close>

definition new_leader_info :: cluster_info where
  "new_leader_info = \<lparr>LeaderAddr = [], LeaderID = [], ciState = ''Leader'', ciPodName = ''redis-1'',
     ciPodUID = ''uid-of-redis-1'', ciPeers = []\<rparr>"

definition new_leader_env :: env where
  "new_leader_env = dead_env\<lparr>x_http := \<lambda>t r. Inr (ok_json (encode_cluster_info new_leader_info))\<rparr>"

lemma decode_new_leader:
  "decode_cluster_info (RespBody (ok_json (encode_cluster_info new_leader_info))) = Inr new_leader_info"
  by (simp add: ok_json_def decode_cluster_info_def encode_cluster_info_def cluster_info_fields_def
      empty_cluster_info_def new_leader_info_def same_tag_def lower_char_def Let_def)

theorem auto_join_short_leader_id_witness:
  "fst (autoJoinCluster demo_start new_leader_env []) = Panic ''slice bounds out of range''"
proof (rule conjunct1 [OF auto_join_short_leader_id])
  have "StatusCode (ok_json j) = 200" for j by (simp add: ok_json_def)
  then show "\<forall>t. \<exists>t1. DiscoverCluster demo_start (rs_peers demo_start) new_leader_env t =
      (Ret (Inr (new_leader_info\<lparr>LeaderAddr := ''redis-1''\<rparr>)), t1)"
    by (simp add: demo_start_def query_status_def splitHostPort_def sign_opt_def newRequest_def bnd_def
        httpDo_def new_leader_env_def decode_new_leader)
      (simp add: new_leader_info_def)
qed (simp_all add: new_leader_env_def new_leader_info_def)

section \<open>Addresses\<close>

text \<open>
  C39. The addresses used for joining work for IPv4 only. With an IPv4 pod address the node
  names the same address as when it bootstraps, and it can be taken apart again; a leader
  address without a colon in its host gives the URL of that host. With an IPv6 pod address
  the text sent to the leader is not an address at all (too many colons), and from a leader at
  an IPv6 address only the part up to the first colon, with an open bracket, is left in the URL.
\<close>

theorem join_addressing:
  assumes "plain_part (rs_localPodIP r)" and "splitHostPort (rs_bindAddr r) = Inr (h0, port)"
    and "plain_part port" and "CHR '':'' \<notin> set port"
  shows "netSplitHostPort (local_advertise r) =
      (if CHR '':'' \<in> set (rs_localPodIP r)
       then Inl (''address '' @ local_advertise r @ '': too many colons in address'')
       else Inr (rs_localPodIP r, port)) \<and>
    (local_advertise r = joinHostPort (rs_localPodIP r) port \<longleftrightarrow> CHR '':'' \<notin> set (rs_localPodIP r)) \<and>
    join_url r (joinHostPort h p) =
      ''http://'' @ (if CHR '':'' \<in> set h then ''['' @ takeWhile (\<lambda>c. c \<noteq> CHR '':'') h else h) @ '':8080'' @ join_endpoint r"
proof -
  let ?ip = "rs_localPodIP r"
  have la: "local_advertise r = ?ip @ '':'' @ port" using assms(2) by (simp add: local_advertise_def)
  have nb: "\<not> hasPrefix (?ip @ CHR '':'' # port) ''[''"
    using assms(1) by (cases ?ip) (auto simp: go_str plain_part_def)
  have s: "netSplitHostPort (?ip @ CHR '':'' # port) = Inl (''address '' @ (?ip @ CHR '':'' # port) @ '': too many colons in address'')"
    if "CHR '':'' \<in> set ?ip"
    using that nb assms(4) by (simp add: netSplitHostPort_def Let_def before_last_append)
  have j: "netSplitHostPort (?ip @ CHR '':'' # port) = Inr (?ip, port)" if "CHR '':'' \<notin> set ?ip"
    using netSplit_join [OF assms(1,3,4)] that by (simp add: joinHostPort_def)
  have "(local_advertise r = joinHostPort ?ip port) = (CHR '':'' \<notin> set ?ip)"
    by (auto simp: la joinHostPort_def dest: arg_cong [of _ _ length])
  moreover have "hd (split '':'' (joinHostPort h p)) =
      (if CHR '':'' \<in> set h then ''['' @ takeWhile (\<lambda>c. c \<noteq> CHR '':'') h else h)"
    using split_hd [of "CHR '':''" "joinHostPort h p"] by (auto simp: joinHostPort_def takeWhile_append)
  ultimately show ?thesis using s j by (simp add: la join_url_def)
qed

theorem join_addressing_witness:
  "netSplitHostPort (local_advertise (demo_raft\<lparr>rs_localPodIP := ''fd00::1''\<rparr>)) =
     Inl ''address fd00::1:7000: too many colons in address'' \<and>
   join_url (demo_raft\<lparr>rs_localPodIP := ''fd00::1''\<rparr>) ''[fd00::7]:7000'' = ''http://[fd00:8080/raft/add-voter''"
proof -
  let ?r = "demo_raft\<lparr>rs_localPodIP := ''fd00::1''\<rparr>"
  have b: "splitHostPort (rs_bindAddr ?r) = Inr (''0.0.0.0'', ''7000'')"
    by (simp add: demo_raft_def NewRaftStrategy_def splitHostPort_def netSplitHostPort_def go_str Let_def
        before_last_def after_last_def)
  then have "local_advertise ?r = ''fd00::1:7000''" by (simp add: local_advertise_def)
  moreover have "joinHostPort ''fd00::7'' ''7000'' = ''[fd00::7]:7000''" by (simp add: joinHostPort_def)
  ultimately show ?thesis
    using join_addressing [of ?r "''0.0.0.0''" "''7000''" "''fd00::7''" "''7000''"] b
    by (simp add: plain_part_def join_endpoint_def)
qed

section \<open>The leader's name\<close>

definition states_inv :: "pod_state gomap \<Rightarrow> bool" where
  "states_inv m \<longleftrightarrow> map_wf m \<and> (\<forall>(k, st) \<in> set m. k = PodUID st)"

definition record_states :: "pod_state gomap \<Rightarrow> pod_state list \<Rightarrow> pod_state gomap" where
  "record_states m xs = foldl (\<lambda>m st. map_set (PodUID st) st m) m xs"

lemma map_set_keyed:
  "\<forall>(k, st) \<in> set m. k = PodUID st \<Longrightarrow> \<forall>(k, st) \<in> set (map_set (PodUID x) x m). k = PodUID st"
  by (induction "PodUID x" x m rule: map_set.induct) auto

lemma record_states_inv: "states_inv m \<Longrightarrow> states_inv (record_states m xs)"
  unfolding record_states_def
proof (induction xs arbitrary: m)
  case (Cons x xs)
  have "states_inv (map_set (PodUID x) x m)"
    using Cons.prems map_set_keyed [of m x] by (simp add: states_inv_def)
  then show ?case using Cons.IH by simp
qed simp

lemma record_states_lookup:
  "distinct (map PodUID xs) \<Longrightarrow> st \<in> set xs \<Longrightarrow> map_of (record_states m xs) (PodUID st) = Some st"
  unfolding record_states_def
proof (induction xs rule: rev_induct)
  case (snoc x xs)
  then show ?case by (cases "st = x") (auto simp: image_iff)
qed simp

lemma states_inv_find:
  assumes "states_inv m" and "map_of m u = Some st"
  shows "find (\<lambda>(_, s). PodUID s = u) m = Some (u, st)"
proof -
  have m: "(u, st) \<in> set m" using assms(2) by (rule map_of_SomeD)
  have u: "PodUID st = u" using m assms(1) by (auto simp: states_inv_def)
  obtain kv where f: "find (\<lambda>(_, s). PodUID s = u) m = Some kv"
    using m u by (cases "find (\<lambda>(_, s). PodUID s = u) m") (auto simp: find_None_iff)
  obtain k s where kv: "kv = (k, s)" by (cases kv)
  have "(k, s) \<in> set m" "PodUID s = u" using f kv by (auto simp: find_Some_iff dest: nth_mem)
  moreover from this have "k = u" using assms(1) by (auto simp: states_inv_def)
  ultimately have "map_of m u = Some s" using assms(1) by (simp add: states_inv_def map_wf_def)
  then show ?thesis using assms(2) f kv \<open>k = u\<close> by simp
qed

lemma find_by_uid:
  assumes "distinct (map PodUID xs)" and "st \<in> set xs"
  shows "find (\<lambda>s. PodUID s = PodUID st) xs = Some st"
  using assms by (induction xs) (auto simp: image_iff)

lemma record_states_kept:
  "u \<notin> PodUID ` set xs \<Longrightarrow> map_of (record_states m xs) u = map_of m u"
  unfolding record_states_def by (induction xs arbitrary: m) auto

text \<open>
  C21. Looking up the Raft leader: given the states of the pods, \<^verbatim>\<open>ElectLeader\<close> returns the state
  whose UID the library names, and records the state of every pod under its UID beside what it
  had recorded for others. From then on \<^verbatim>\<open>GetLeader\<close> answers with a pod's name whichever of these
  pods the library names. Without a call of \<^verbatim>\<open>ElectLeader\<close> (and the program has none) the table is
  empty and the name returned is the UID.
\<close>

theorem raft_leader_lookup:
  assumes "rs_raft r" and "states_inv (rs_allStates r)" and "distinct (map PodUID allStates)"
    and "st \<in> set allStates" and "x_raft_leader E t = (addr, PodUID st)" and "addr \<noteq> []"
  shows "\<exists>r'. raft_ElectLeader r allStates l E t = (Ret (r', Inr st), RaftLeader # t) \<and>
      states_inv (rs_allStates r') \<and>
      (\<forall>u. map_of (rs_allStates r') u =
        (case find (\<lambda>s. PodUID s = u) allStates of Some s \<Rightarrow> Some s | None \<Rightarrow> map_of (rs_allStates r) u)) \<and>
      (\<forall>s \<in> set allStates. \<forall>E' t' addr'. x_raft_leader E' t' = (addr', PodUID s) \<longrightarrow> addr' \<noteq> [] \<longrightarrow>
        raft_GetLeader r' E' t' = (Ret (Inr (PodName s, PodUID s)), RaftLeader # t') \<and>
        raft_GetLeader (r\<lparr>rs_allStates := []\<rparr>) E' t' = (Ret (Inr (PodUID s, PodUID s)), RaftLeader # t'))"
proof -
  let ?m = "record_states (rs_allStates r) allStates"
  let ?r = "r\<lparr>rs_allStates := ?m, rs_currentLeader := Some st\<rparr>"
  have inv: "states_inv ?m" using assms(2) by (rule record_states_inv)
  have "raft_ElectLeader r allStates l E t = (Ret (?r, Inr st), RaftLeader # t)"
    using assms(1,5,6) find_by_uid [OF assms(3,4)]
    by (simp add: raft_ElectLeader_def Let_def raftLeaderWithID_def bnd_def record_states_def)
  moreover have "map_of ?m u = (case find (\<lambda>s. PodUID s = u) allStates of Some s \<Rightarrow> Some s | None \<Rightarrow> map_of (rs_allStates r) u)" for u
  proof (cases "find (\<lambda>s. PodUID s = u) allStates")
    case None
    then have "u \<notin> PodUID ` set allStates" by (auto simp: find_None_iff)
    then show ?thesis using None by (simp add: record_states_kept)
  next
    case (Some s)
    then have "s \<in> set allStates" "PodUID s = u" by (auto simp: find_Some_iff)
    then show ?thesis using Some record_states_lookup [OF assms(3)] by auto
  qed
  moreover have "raft_GetLeader ?r E' t' = (Ret (Inr (PodName s, PodUID s)), RaftLeader # t') \<and>
      raft_GetLeader (r\<lparr>rs_allStates := []\<rparr>) E' t' = (Ret (Inr (PodUID s, PodUID s)), RaftLeader # t')"
    if "s \<in> set allStates" "x_raft_leader E' t' = (addr', PodUID s)" "addr' \<noteq> []" for s E' t' addr'
    using assms(1) that(2,3) states_inv_find [OF inv record_states_lookup [OF assms(3) that(1)]]
    by (simp add: raft_GetLeader_def raftLeaderWithID_def bnd_def)
  ultimately show ?thesis using inv by (intro exI [of _ ?r]) simp
qed

text \<open>Two pods; the leadership moves from one to the other after the states have been recorded.\<close>

theorem raft_leader_lookup_witness:
  "\<exists>r'. raft_ElectLeader demo_raft [demo_pod ''redis-1'' 5 True, demo_pod ''redis-2'' 6 False] (demo_pod ''redis-0'' 7 False)
      (dead_env\<lparr>x_raft_leader := \<lambda>t. (''10.0.0.2:7000'', PodUID (demo_pod ''redis-1'' 5 True))\<rparr>) [] =
      (Ret (r', Inr (demo_pod ''redis-1'' 5 True)), [RaftLeader]) \<and>
    raft_GetLeader r' (dead_env\<lparr>x_raft_leader := \<lambda>t. (''10.0.0.3:7000'', PodUID (demo_pod ''redis-2'' 6 False))\<rparr>) [] =
      (Ret (Inr (''redis-2'', ''uid-of-redis-2'')), [RaftLeader])"
proof -
  let ?E = "\<lambda>a u. dead_env\<lparr>x_raft_leader := \<lambda>t. (a, u)\<rparr>"
  have "rs_allStates demo_raft = []" by (simp add: demo_raft_def NewRaftStrategy_def)
  then have inv: "states_inv (rs_allStates demo_raft)" by (simp add: states_inv_def map_wf_def)
  have d: "distinct (map PodUID [demo_pod ''redis-1'' 5 True, demo_pod ''redis-2'' 6 False])" by (simp add: demo_pod_def)
  have x: "x_raft_leader (?E a u) t = (a, u)" for a u t by simp
  obtain r' where "raft_ElectLeader demo_raft [demo_pod ''redis-1'' 5 True, demo_pod ''redis-2'' 6 False] (demo_pod ''redis-0'' 7 False)
      (?E ''10.0.0.2:7000'' (PodUID (demo_pod ''redis-1'' 5 True))) [] = (Ret (r', Inr (demo_pod ''redis-1'' 5 True)), [RaftLeader])"
    and g: "\<forall>s \<in> set [demo_pod ''redis-1'' 5 True, demo_pod ''redis-2'' 6 False]. \<forall>E' t' addr'.
      x_raft_leader E' t' = (addr', PodUID s) \<longrightarrow> addr' \<noteq> [] \<longrightarrow>
      raft_GetLeader r' E' t' = (Ret (Inr (PodName s, PodUID s)), RaftLeader # t') \<and>
      raft_GetLeader (demo_raft\<lparr>rs_allStates := []\<rparr>) E' t' = (Ret (Inr (PodUID s, PodUID s)), RaftLeader # t')"
    using raft_leader_lookup [OF demo_raft_simps(1) inv d list.set_intros(1) x] by blast
  moreover have "raft_GetLeader r' (?E ''10.0.0.3:7000'' (PodUID (demo_pod ''redis-2'' 6 False))) [] =
      (Ret (Inr (PodName (demo_pod ''redis-2'' 6 False), PodUID (demo_pod ''redis-2'' 6 False))), [RaftLeader])"
    using g [rule_format, of "demo_pod ''redis-2'' 6 False", OF _ x] by simp
  ultimately show ?thesis by (intro exI [of _ r']) (simp add: demo_pod_def)
qed

end
