(* ===== verification/Reconcile_Props.thy ===== *)
theory Reconcile_Props
  imports Reconcile_Facts Raft_Facts
begin

text \<open>
  What the sync cycle guarantees: it carries out the specified decision, only the winner
  promotes itself, a split brain is left by every master but one, each mode keeps to the
  calls it is allowed, and failures of the outside are contained.
\<close>

section \<open>Promotions\<close>

lemma same_run_calls: "same_run m n \<Longrightarrow> calls m E t = calls n E t"
  by (simp add: same_run_def calls_def)

definition promotes :: "orchestrator \<Rightarrow> pod_state \<Rightarrow> env \<Rightarrow> trace \<Rightarrow> bool" where
  "promotes o1 l E t \<longleftrightarrow> (\<exists>e \<in> set (calls (reconcile o1 l) E t). promote_call e)"

lemma emits_ensureMasterLabel_calls: "emits (\<lambda>e. \<not> promote_call e) (ensureMasterLabel cfg)"
  by (rule emits_mono [OF emits_ensureMasterLabel]) (auto simp: label_call_def promote_call_def)

lemma emits_perform_other:
  assumes "a \<noteq> Promote"
  shows "emits (\<lambda>e. \<not> promote_call e) (perform o1 l a)"
proof -
  have m: "emits (\<lambda>e. \<not> promote_call e) n" if "emits modest n" for n :: "gerror io"
    by (rule emits_mono [OF that]) (simp add: modest_def)
  show ?thesis
    using assms emits_ensureMasterLabel_calls m [OF emits_demote_modest] m [OF emits_check_modest]
    by (auto simp: perform_def emits_ret split: action.splits)
qed

lemma promotes_decided:
  assumes "ElectionMode (oconfig o1) \<noteq> ElectionModeRaft"
    and "Debug (oconfig o1) \<longrightarrow> uids8 (healthy_states o1)" and "promotes o1 l E t"
  shows "decide (oconfig o1) (podUID o1) l (healthy_states o1) = Promote"
proof (rule ccontr)
  let ?a = "decide (oconfig o1) (podUID o1) l (healthy_states o1)"
  assume "?a \<noteq> Promote"
  then have "emits (\<lambda>e. \<not> promote_call e) (perform o1 l ?a)" by (rule emits_perform_other)
  then show False
    using assms(3) same_run_calls [OF reconcile_refines [OF assms(1,2)]]
    unfolding promotes_def by (metis emits_calls)
qed

lemma decide_Promote:
  "decide cfg uid l xs = Promote \<longleftrightarrow>
     xs \<noteq> [] \<and> \<not> Standalone cfg \<and> \<not> NoPromote cfg \<and> (\<forall>p \<in> set xs. \<not> IsMaster p) \<and>
     least_uid (set xs) = uid"
  by (auto simp: decide_def Let_def filter_empty_conv)

section \<open>Decision and order\<close>

text \<open>
  C2. In deterministic mode a reconciliation makes exactly the outside calls, and succeeds,
  fails or panics exactly as, the action that \<open>decide\<close> prescribes for the healthy pods of the
  table. \<open>decide\<close> is stated without sorting: the least rank wins.
\<close>

theorem reconcile_implements_decision:
  assumes "ElectionMode (oconfig o1) \<noteq> ElectionModeRaft"
    and "Debug (oconfig o1) \<longrightarrow> uids8 (healthy_states o1)"
  shows "same_run (reconcile o1 l)
    (perform o1 l (decide (oconfig o1) (podUID o1) l (healthy_states o1)))"
  using assms by (rule reconcile_refines)

theorem reconcile_implements_decision_witness:
  "same_run (reconcile demo_orchestrator (demo_pod ''redis-0'' 5 False))
    (perform demo_orchestrator (demo_pod ''redis-0'' 5 False)
      (decide (oconfig demo_orchestrator) (podUID demo_orchestrator) (demo_pod ''redis-0'' 5 False)
        (healthy_states demo_orchestrator)))"
  by (rule reconcile_implements_decision) simp_all

text \<open>
  C13. Go visits a map in an arbitrary order. The order of the table has no influence on a
  reconciliation, in either mode.
\<close>

theorem reconcile_order_independent:
  assumes "mset ps = mset (peerStates o1)" and "Debug (oconfig o1) \<longrightarrow> uids8 (healthy_states o1)"
  shows "same_run (reconcile (o1\<lparr>peerStates := ps\<rparr>) l) (reconcile o1 l)"
proof (cases "ElectionMode (oconfig o1) = ElectionModeRaft")
  case True
  have "mset (healthy_states (o1\<lparr>peerStates := ps\<rparr>)) = mset (healthy_states o1)"
    using assms(1) by (intro mset_healthy_states) simp
  then have "healthy_states (o1\<lparr>peerStates := ps\<rparr>) = [] \<longleftrightarrow> healthy_states o1 = []"
    by (metis mset_zero_iff)
  then show ?thesis using True by (simp add: reconcile_def Let_def)
next
  case False
  let ?o = "o1\<lparr>peerStates := ps\<rparr>"
  have m: "mset (healthy_states ?o) = mset (healthy_states o1)"
    using assms(1) by (intro mset_healthy_states) simp
  have "Debug (oconfig ?o) \<longrightarrow> uids8 (healthy_states ?o)"
    using assms(2) mset_eq_setD [OF m] by (simp add: uids8_def)
  then have "same_run (reconcile ?o l)
      (perform o1 l (decide (oconfig o1) (podUID o1) l (healthy_states ?o)))"
    using False reconcile_refines [of ?o l] by simp
  moreover have "decide (oconfig o1) (podUID o1) l (healthy_states ?o) =
      decide (oconfig o1) (podUID o1) l (healthy_states o1)"
    using m by (rule decide_perm)
  ultimately show ?thesis
    using same_run_sym [OF reconcile_refines [OF False assms(2), of l]] by (metis same_run_trans)
qed

theorem reconcile_order_independent_witness:
  "same_run
     (reconcile (demo_orchestrator\<lparr>peerStates := [(''b'', demo_pod ''b'' 1 True), (''a'', demo_pod ''a'' 2 True)],
        peerStates := [(''a'', demo_pod ''a'' 2 True), (''b'', demo_pod ''b'' 1 True)]\<rparr>) (demo_pod ''a'' 2 True))
     (reconcile (demo_orchestrator\<lparr>peerStates := [(''b'', demo_pod ''b'' 1 True), (''a'', demo_pod ''a'' 2 True)]\<rparr>)
        (demo_pod ''a'' 2 True))"
  by (rule reconcile_order_independent) simp_all

section \<open>No master\<close>

text \<open>
  C3. Two pods with the same view of the healthy pods never both promote themselves: a
  promotion happens only when no healthy pod is a master, and only on the pod whose UID is
  that of the least rank.
\<close>

theorem at_most_one_promotes:
  assumes "set (healthy_states o1) = set (healthy_states o2)"
    and "ElectionMode (oconfig o1) \<noteq> ElectionModeRaft" and "ElectionMode (oconfig o2) \<noteq> ElectionModeRaft"
    and "Debug (oconfig o1) \<longrightarrow> uids8 (healthy_states o1)" and "Debug (oconfig o2) \<longrightarrow> uids8 (healthy_states o2)"
    and "promotes o1 l1 E1 t1" and "promotes o2 l2 E2 t2"
  shows "podUID o1 = podUID o2 \<and> podUID o1 = least_uid (set (healthy_states o1)) \<and>
    (\<forall>p \<in> set (healthy_states o1). \<not> IsMaster p)"
  using promotes_decided [OF assms(2,4,6)] promotes_decided [OF assms(3,5,7)] assms(1)
  by (auto simp: decide_Promote)

definition demo_redis_env :: env where
  "demo_redis_env = dead_env\<lparr>x_redis_do := \<lambda>t a. None\<rparr>"

definition demo_leader :: orchestrator where
  "demo_leader = demo_orchestrator\<lparr>peerStates :=
     [(''redis-0'', demo_pod ''redis-0'' 5 False), (''redis-1'', demo_pod ''redis-1'' 7 False)]\<rparr>"

lemma demo_leader_promotes: "promotes demo_leader (demo_pod ''redis-0'' 5 False) demo_redis_env []"
proof -
  have h: "healthy_states demo_leader = [demo_pod ''redis-0'' 5 False, demo_pod ''redis-1'' 7 False]"
    by (simp add: healthy_states_def demo_leader_def demo_pod_def)
  have "decide (oconfig demo_leader) (podUID demo_leader) (demo_pod ''redis-0'' 5 False)
      (healthy_states demo_leader) = Promote"
    unfolding decide_Promote h
    by (simp add: demo_leader_def demo_pod_def least_uid_def rank_of_def min_def less_eq_rank_def)
  then have "same_run (reconcile demo_leader (demo_pod ''redis-0'' 5 False)) (promoteToMaster demo_leader)"
    using reconcile_refines [of demo_leader "demo_pod ''redis-0'' 5 False"]
    by (simp add: demo_leader_def perform_def)
  moreover have "calls (promoteToMaster demo_leader) demo_redis_env [] =
      [PodGet ''default'' ''redis-0'', RedisDo [''REPLICAOF'', ''NO'', ''ONE'']]"
    by (simp add: calls_def promoteToMaster_def demo_leader_def PromoteToMaster_def redisDo_def
        wrap_err_def check_def bnd_def ensureMasterLabel_def podGet_def demo_redis_env_def)
  ultimately show ?thesis by (simp add: promotes_def same_run_calls promote_call_def)
qed

theorem at_most_one_promotes_witness:
  "promotes demo_leader (demo_pod ''redis-0'' 5 False) demo_redis_env [] \<and>
   podUID demo_leader = least_uid (set (healthy_states demo_leader))"
  using at_most_one_promotes [of demo_leader demo_leader "demo_pod ''redis-0'' 5 False" demo_redis_env "[]"
      "demo_pod ''redis-0'' 5 False" demo_redis_env "[]"] demo_leader_promotes
  by (simp add: demo_leader_def)

lemma promoteToMaster_run:
  assumes "redisClient o1 = Some c" and "\<not> NoPromote (oconfig o1)"
    and "x_redis_do E t [''REPLICAOF'', ''NO'', ''ONE''] = None"
  shows "promoteToMaster o1 E t =
    ensureMasterLabel (oconfig o1) E (RedisDo [''REPLICAOF'', ''NO'', ''ONE''] # t)"
  using assms by (simp add: promoteToMaster_def PromoteToMaster_def redisDo_def check_def wrap_err_def bnd_def)

lemma ensureMasterLabel_labels:
  assumes "pod_store E cfg p0" and "\<not> NoPromote cfg"
  shows "\<exists>es. ensureMasterLabel cfg E t = (Ret None, es @ t) \<and>
     map_get (labels_of (stored_pod p0 (cfgNamespace cfg) (es @ t))) MasterLabel = MasterLabelValue"
proof (cases "map_get (labels_of (stored_pod p0 (cfgNamespace cfg) t)) MasterLabel = MasterLabelValue")
  case True
  then show ?thesis using assms
    by (intro exI [of _ "[PodGet (cfgNamespace cfg) (cfgPodName cfg)]"])
      (simp add: ensureMasterLabel_def podGet_def pod_storeD)
next
  case False
  then show ?thesis using assms
    by (simp add: ensureMasterLabel_def podGet_def podUpdate_def wrap_err_def pod_storeD)
qed

text \<open>
  C10. The winner of an election among healthy pods without a master does promote itself: when
  Redis accepts the command and the API server stores the label, the reconciliation
  succeeds, has sent \<^verbatim>\<open>REPLICAOF NO ONE\<close>, and leaves its pod labelled as the master.
\<close>

theorem winner_promotes:
  assumes "ElectionMode (oconfig o1) \<noteq> ElectionModeRaft" and "\<not> Debug (oconfig o1)"
    and "\<not> Standalone (oconfig o1)" and "\<not> NoPromote (oconfig o1)" and "redisClient o1 = Some c"
    and "healthy_states o1 \<noteq> []" and "\<forall>p \<in> set (healthy_states o1). \<not> IsMaster p"
    and "least_uid (set (healthy_states o1)) = podUID o1"
    and "\<forall>t. x_redis_do E t [''REPLICAOF'', ''NO'', ''ONE''] = None" and "pod_store E (oconfig o1) p0"
  shows "\<exists>es. reconcile o1 l E t = (Ret None, es @ RedisDo [''REPLICAOF'', ''NO'', ''ONE''] # t) \<and>
     map_get (labels_of (stored_pod p0 (cfgNamespace (oconfig o1))
       (es @ RedisDo [''REPLICAOF'', ''NO'', ''ONE''] # t))) MasterLabel = MasterLabelValue"
proof -
  have "decide (oconfig o1) (podUID o1) l (healthy_states o1) = Promote"
    using assms by (simp add: decide_Promote)
  then have r: "same_run (reconcile o1 l) (promoteToMaster o1)"
    using reconcile_refines [OF assms(1), of l] assms(2) by (simp add: perform_def)
  obtain es where es: "ensureMasterLabel (oconfig o1) E (RedisDo [''REPLICAOF'', ''NO'', ''ONE''] # t) =
      (Ret None, es @ RedisDo [''REPLICAOF'', ''NO'', ''ONE''] # t)"
    and lab: "map_get (labels_of (stored_pod p0 (cfgNamespace (oconfig o1))
      (es @ RedisDo [''REPLICAOF'', ''NO'', ''ONE''] # t))) MasterLabel = MasterLabelValue"
    using ensureMasterLabel_labels [OF assms(10,4)] by blast
  have p: "promoteToMaster o1 E t = (Ret None, es @ RedisDo [''REPLICAOF'', ''NO'', ''ONE''] # t)"
    using promoteToMaster_run [OF assms(5,4)] assms(9) es by simp
  have "reconcile o1 l E t = (Ret None, es @ RedisDo [''REPLICAOF'', ''NO'', ''ONE''] # t)"
    using r p by (rule same_run_Ret)
  with lab show ?thesis by blast
qed

definition demo_store_env :: env where
  "demo_store_env = (store_env demo_kube_pod demo_config)\<lparr>x_redis_do := \<lambda>t a. None\<rparr>"

lemma demo_store: "pod_store demo_store_env (oconfig demo_orchestrator) demo_kube_pod"
  by (simp add: pod_store_def demo_store_env_def store_env_def)

theorem winner_promotes_witness:
  "\<exists>es. reconcile demo_leader (demo_pod ''redis-0'' 5 False) demo_store_env [] =
       (Ret None, es @ RedisDo [''REPLICAOF'', ''NO'', ''ONE''] # []) \<and>
     map_get (labels_of (stored_pod demo_kube_pod (cfgNamespace (oconfig demo_leader))
       (es @ RedisDo [''REPLICAOF'', ''NO'', ''ONE''] # []))) MasterLabel = MasterLabelValue"
proof (rule winner_promotes)
  have h: "healthy_states demo_leader = [demo_pod ''redis-0'' 5 False, demo_pod ''redis-1'' 7 False]"
    by (simp add: healthy_states_def demo_leader_def demo_pod_def)
  show "least_uid (set (healthy_states demo_leader)) = podUID demo_leader"
    unfolding h by (simp add: demo_leader_def demo_pod_def least_uid_def rank_of_def min_def less_eq_rank_def)
  show "healthy_states demo_leader \<noteq> []" "\<forall>p \<in> set (healthy_states demo_leader). \<not> IsMaster p"
    unfolding h by (simp_all add: demo_pod_def)
  show "pod_store demo_store_env (oconfig demo_leader) demo_kube_pod"
    using demo_store by (simp add: demo_leader_def)
  show "\<forall>t. x_redis_do demo_store_env t [''REPLICAOF'', ''NO'', ''ONE''] = None"
    by (simp add: demo_store_env_def)
qed (simp_all add: demo_leader_def)

section \<open>Several masters\<close>

lemma demoteToReplica_run:
  assumes "redisClient o1 = Some c"
  shows "\<exists>es. snd (demoteToReplica o1 E t) =
      RedisDo [''REPLICAOF'', master_service (oconfig o1), formatInt (RedisPort (oconfig o1))] # es @ t \<and>
    (\<forall>e \<in> set es. label_call (oconfig o1) e) \<and>
    fst (demoteToReplica o1 E t) = Ret (map_option (errorf ''failed to set replica'')
      (x_redis_do E (es @ t) [''REPLICAOF'', master_service (oconfig o1), formatInt (RedisPort (oconfig o1))]))"
proof -
  obtain r t1 where r: "removeMasterLabel (oconfig o1) E t = (Ret r, t1)"
    using returns_removeMasterLabel by (rule returns_obtain)
  obtain es where "t1 = es @ t" "\<forall>e \<in> set es. label_call (oconfig o1) e"
    using emits_removeMasterLabel r by (rule emits_trace)
  with r assms show ?thesis
    by (simp add: demoteToReplica_def Let_def bnd_def SetReplicaOf_def wrap_err_def redisDo_def)
qed

text \<open>The write that removes the master label, given the API server's answer to the read of the pod.\<close>

definition unlabel_calls :: "config \<Rightarrow> kube_pod res \<Rightarrow> trace" where
  "unlabel_calls cfg r =
     (case r of
        Inl e \<Rightarrow> []
      | Inr pod \<Rightarrow>
          if kLabels pod = None \<or> map_get (labels_of pod) MasterLabel = [] then []
          else [PodUpdate (cfgNamespace cfg) (pod\<lparr>kLabels := Some (map_del MasterLabel (labels_of pod))\<rparr>)])"

lemma demoteToReplica_trace:
  assumes "redisClient o1 = Some c"
  shows "snd (demoteToReplica o1 E t) =
    RedisDo [''REPLICAOF'', master_service (oconfig o1), formatInt (RedisPort (oconfig o1))] #
    unlabel_calls (oconfig o1) (x_pod_get E t (cfgNamespace (oconfig o1)) (cfgPodName (oconfig o1))) @
    PodGet (cfgNamespace (oconfig o1)) (cfgPodName (oconfig o1)) # t"
  using assms
  by (simp add: demoteToReplica_def Let_def bnd_def SetReplicaOf_def wrap_err_def redisDo_def
      removeMasterLabel_def podGet_def podUpdate_def unlabel_calls_def split: sum.splits)

text \<open>
  C4. In a split brain, every master but the one of least rank (and a standby in any case) makes
  exactly these calls: it reads its pod, removes the master label if the pod has one, and then,
  whether or not that worked, points its Redis at the master service. The one of least rank
  makes no call at all and so stays master.
\<close>

theorem split_brain_resolution:
  assumes "ElectionMode (oconfig o1) \<noteq> ElectionModeRaft" and "\<not> Debug (oconfig o1)"
    and "\<not> Standalone (oconfig o1)" and "redisClient o1 = Some c"
    and "1 < length (filter IsMaster (healthy_states o1))" and "IsMaster l"
  shows "if PodUID l = least_uid (set (filter IsMaster (healthy_states o1))) \<and> \<not> NoPromote (oconfig o1)
    then reconcile o1 l E t = (Ret None, t)
    else snd (reconcile o1 l E t) =
      RedisDo [''REPLICAOF'', master_service (oconfig o1), formatInt (RedisPort (oconfig o1))] #
      unlabel_calls (oconfig o1) (x_pod_get E t (cfgNamespace (oconfig o1)) (cfgPodName (oconfig o1))) @
      PodGet (cfgNamespace (oconfig o1)) (cfgPodName (oconfig o1)) # t"
proof -
  have ne: "healthy_states o1 \<noteq> []" "filter IsMaster (healthy_states o1) \<noteq> []"
    "length (filter IsMaster (healthy_states o1)) \<noteq> 1"
    using assms(5) by auto
  have d: "decide (oconfig o1) (podUID o1) l (healthy_states o1) =
      (if PodUID l = least_uid (set (filter IsMaster (healthy_states o1))) \<and> \<not> NoPromote (oconfig o1)
       then Idle else Demote)"
    unfolding decide_def Let_def using ne assms(3,6) by (simp del: set_filter)
  have r: "same_run (reconcile o1 l) (perform o1 l (decide (oconfig o1) (podUID o1) l (healthy_states o1)))"
    using assms(1,2) by (intro reconcile_refines) simp_all
  show ?thesis
  proof (cases "PodUID l = least_uid (set (filter IsMaster (healthy_states o1))) \<and> \<not> NoPromote (oconfig o1)")
    case True
    then have "same_run (reconcile o1 l) (ret None)" using r d by (simp add: perform_def)
    then have "reconcile o1 l E t = (Ret None, t)" by (rule same_run_Ret) simp
    then show ?thesis using True by simp
  next
    case False
    then have "decide (oconfig o1) (podUID o1) l (healthy_states o1) = Demote" unfolding d by (rule if_not_P)
    then have "same_run (reconcile o1 l) (demoteToReplica o1)" using r by (simp add: perform_def)
    then have "snd (reconcile o1 l E t) = snd (demoteToReplica o1 E t)" by (simp add: same_run_def)
    then show ?thesis unfolding if_not_P [OF False] using demoteToReplica_trace [OF assms(4), of E t] by simp
  qed
qed

definition demo_split :: orchestrator where
  "demo_split = demo_orchestrator\<lparr>peerStates :=
     [(''redis-0'', demo_pod ''redis-0'' 9 True), (''redis-1'', demo_pod ''redis-1'' 7 True)]\<rparr>"

definition labelled_env :: env where
  "labelled_env = dead_env\<lparr>x_pod_get := \<lambda>t ns n. Inr (demo_kube_pod\<lparr>kLabels := Some [(MasterLabel, MasterLabelValue)]\<rparr>)\<rparr>"

theorem split_brain_resolution_witness:
  "snd (reconcile demo_split (demo_pod ''redis-0'' 9 True) labelled_env []) =
     [RedisDo [''REPLICAOF'', ''redis'', formatInt 6379],
      PodUpdate ''default'' (demo_kube_pod\<lparr>kLabels := Some []\<rparr>), PodGet ''default'' ''redis-0'']"
proof -
  have h: "healthy_states demo_split = [demo_pod ''redis-0'' 9 True, demo_pod ''redis-1'' 7 True]"
    by (simp add: healthy_states_def demo_split_def demo_pod_def)
  have f: "filter IsMaster (healthy_states demo_split) = healthy_states demo_split"
    unfolding h by (simp add: demo_pod_def)
  have u: "PodUID (demo_pod ''redis-0'' 9 True) \<noteq> least_uid (set (healthy_states demo_split))"
    unfolding h by (simp add: demo_pod_def least_uid_def rank_of_def min_def less_eq_rank_def)
  have c: "master_service (oconfig demo_split) = ''redis''" "RedisPort (oconfig demo_split) = 6379"
    "cfgNamespace (oconfig demo_split) = ''default''" "cfgPodName (oconfig demo_split) = ''redis-0''"
    "ElectionMode (oconfig demo_split) \<noteq> ElectionModeRaft" "\<not> Debug (oconfig demo_split)"
    "\<not> Standalone (oconfig demo_split)" "redisClient demo_split = Some \<lparr>useTLS = False\<rparr>"
    by (simp_all add: demo_split_def master_service_def)
  have l: "1 < length (filter IsMaster (healthy_states demo_split))" "IsMaster (demo_pod ''redis-0'' 9 True)"
    unfolding f h by (simp_all add: demo_pod_def)
  have un: "unlabel_calls (oconfig demo_split) (x_pod_get labelled_env [] ns n) =
      [PodUpdate ''default'' (demo_kube_pod\<lparr>kLabels := Some []\<rparr>)]" for ns n
    by (simp add: unlabel_calls_def labelled_env_def labels_of_def map_get_def map_del_def c(3)
        MasterLabelValue_def)
  show ?thesis
    using split_brain_resolution [OF c(5-8) l, of labelled_env "[]"] u unfolding f c un by simp
qed

section \<open>Modes\<close>

text \<open>
  C14. With \<^verbatim>\<open>--no-promote\<close> a whole sync cycle, in either mode and whatever the outside answers, never
  sends \<^verbatim>\<open>REPLICAOF NO ONE\<close> and never writes a pod labelled as the master.
\<close>

theorem no_promote_never_master:
  assumes "NoPromote (oconfig o1)"
  shows "emits modest (syncState o1)"
  by (rule emits_syncState) (simp_all add: reading_modest emits_reconcile_no_promote assms)

theorem no_promote_never_master_witness:
  "emits modest (syncState (demo_orchestrator\<lparr>oconfig := demo_config\<lparr>NoPromote := True\<rparr>\<rparr>))"
  by (rule no_promote_never_master) simp

lemma reconcile_standalone:
  assumes "Standalone (oconfig o1)"
  shows "reconcile o1 l = ret None"
  using assms
  by (auto simp: reconcile_def handleNoMaster_def handleSingleMaster_def handleSplitBrain_def
      handleRaftMode_def Let_def split: list.splits)

text \<open>
  C16. A witness (\<^verbatim>\<open>--standalone\<close>) only reads the clock, lists pods and queries peers during a sync
  cycle: it sends nothing to Redis and writes no Kubernetes object.
\<close>

theorem witness_is_passive:
  assumes "Standalone (oconfig o1)"
  shows "emits peer_call (syncState o1)"
proof -
  have upd: "emits peer_call (bnd (updatePeerStates o1 l ps) (\<lambda>o2. bnd (reconcile o2 l) (\<lambda>err. ret (o2, err))))"
    for l ps
    unfolding updatePeerStates_def now_def bnd_assoc bnd_ret
    by (intro emit_intros) (simp_all add: emits_call peer_call_def reconcile_standalone assms emits_ret)
  show ?thesis
    unfolding syncState_def
    by (intro emit_intros upd emits_getLocalState_standalone [OF assms] emits_discover)
qed

theorem witness_is_passive_witness:
  "emits peer_call (syncState (demo_orchestrator\<lparr>oconfig := demo_config\<lparr>Standalone := True\<rparr>\<rparr>))"
  by (rule witness_is_passive) simp

lemma emits_handleRaftMode_follower:
  assumes "electionStrategy o1 = RaftMode r" and "x_raft_state E t \<noteq> Leader"
  shows "\<forall>e \<in> set (calls (handleRaftMode o1 l) E t). \<not> promote_call e"
proof -
  have m: "emits (\<lambda>e. \<not> promote_call e) n" if "emits modest n" for n :: "gerror io"
    by (rule emits_mono [OF that]) (simp add: modest_def)
  have g: "emits (\<lambda>e. \<not> promote_call e) (strat_GetLeader s)" for s
    by (rule emits_mono [OF emits_GetLeader]) (auto simp: promote_call_def)
  let ?k = "if NoPromote (oconfig o1) then (if IsMaster l then demoteToReplica o1 else ret None)
      else if IsMaster l then
        bnd (strat_GetLeader (electionStrategy o1)) (\<lambda>x. case x of
            Inl _ \<Rightarrow> demoteToReplica o1
          | Inr (leaderName, leaderUID) \<Rightarrow>
              bnd (if Debug (oconfig o1) then bnd (slice8 leaderUID) (\<lambda>_. ret ()) else ret ()) (\<lambda>_. demoteToReplica o1))
      else checkAndFixReplication o1 l"
  have k: "emits (\<lambda>e. \<not> promote_call e) ?k"
    by (intro emit_intros g m [OF emits_demote_modest] m [OF emits_check_modest])
  have "handleRaftMode o1 l E t = (if Standalone (oconfig o1) then (Ret None, t)
      else ?k E (if rs_raft r then RaftState # t else t))"
    using assms by (simp add: handleRaftMode_def Let_def strat_IsLeader_def raft_IsLeader_def raftState_def bnd_assoc)
  moreover obtain es where "snd (?k E (if rs_raft r then RaftState # t else t)) =
      es @ (if rs_raft r then RaftState # t else t)" "\<forall>e \<in> set es. \<not> promote_call e"
    using k unfolding emits_def by meson
  ultimately have "\<exists>es. snd (handleRaftMode o1 l E t) = es @ t \<and> (\<forall>e \<in> set es. \<not> promote_call e)"
    by (auto simp: promote_call_def intro: exI [of _ "es @ [RaftState]"])
  then show ?thesis using calls_eq by metis
qed

text \<open>
  C15. In Raft mode only the Raft leader promotes its Redis: if a reconciliation sends
  \<^verbatim>\<open>REPLICAOF NO ONE\<close>, the Raft library had just reported this node as the leader.
\<close>

theorem raft_only_leader_promotes:
  assumes "ElectionMode (oconfig o1) = ElectionModeRaft" and "electionStrategy o1 = RaftMode r"
    and "promotes o1 l E t"
  shows "x_raft_state E t = Leader \<and> \<not> NoPromote (oconfig o1)"
proof -
  have p: "\<exists>e \<in> set (calls (handleRaftMode o1 l) E t). promote_call e"
  proof (cases "healthy_states o1 = []")
    case True
    then show ?thesis using assms(3) by (simp add: promotes_def reconcile_def calls_def Let_def)
  next
    case False
    then have "reconcile o1 l = handleRaftMode o1 l" using assms(1) by (simp add: reconcile_def Let_def)
    then show ?thesis using assms(3) by (simp add: promotes_def)
  qed
  have "modest e" if "NoPromote (oconfig o1)" "e \<in> set (calls (reconcile o1 l) E t)" for e
    using emits_reconcile_no_promote [OF that(1)] that(2) by (rule emits_calls)
  then have "\<not> NoPromote (oconfig o1)"
    using assms(3) by (auto simp: promotes_def modest_def)
  then show ?thesis using p emits_handleRaftMode_follower [OF assms(2)] by blast
qed

definition demo_raft_orchestrator :: orchestrator where
  "demo_raft_orchestrator = demo_orchestrator\<lparr>oconfig := demo_config, electionStrategy := RaftMode demo_raft,
     peerStates := [(''redis-0'', demo_pod ''redis-0'' 5 False)]\<rparr>"

definition demo_raft_env :: env where
  "demo_raft_env = demo_redis_env\<lparr>x_raft_state := \<lambda>t. Leader\<rparr>"

theorem raft_only_leader_promotes_witness:
  "promotes demo_raft_orchestrator (demo_pod ''redis-0'' 5 False) demo_raft_env [] \<and>
     x_raft_state demo_raft_env [] = Leader"
proof -
  have m: "ElectionMode demo_config = ElectionModeRaft" by (simp add: demo_config_defs)
  have c: "calls (reconcile demo_raft_orchestrator (demo_pod ''redis-0'' 5 False)) demo_raft_env [] =
      [PodGet ''default'' ''redis-0'', RedisDo [''REPLICAOF'', ''NO'', ''ONE''], RaftState]"
    by (simp add: calls_def reconcile_def demo_raft_orchestrator_def m healthy_states_def demo_pod_def
        handleRaftMode_def strat_IsLeader_def raft_IsLeader_def raftState_def demo_raft_def
        demo_raft_env_def demo_redis_env_def promoteToMaster_def PromoteToMaster_def redisDo_def
        wrap_err_def check_def bnd_def ensureMasterLabel_def podGet_def Let_def NewRaftStrategy_def)
  then have p: "promotes demo_raft_orchestrator (demo_pod ''redis-0'' 5 False) demo_raft_env []"
    by (simp add: promotes_def promote_call_def)
  have "x_raft_state demo_raft_env [] = Leader \<and> \<not> NoPromote (oconfig demo_raft_orchestrator)"
    by (rule raft_only_leader_promotes [OF _ _ p]) (simp_all add: demo_raft_orchestrator_def m)
  then show ?thesis using p by simp
qed

text \<open>
  In Raft mode a master that is not the Raft leader steps down: whether the leader is known
  or not, the reconciliation ends by pointing the local Redis at the master service.
\<close>

lemma raft_nonleader_steps_down:
  assumes "ElectionMode (oconfig o1) = ElectionModeRaft" and "electionStrategy o1 = RaftMode r"
    and "\<not> Debug (oconfig o1)" and "\<not> Standalone (oconfig o1)" and "redisClient o1 = Some c"
    and "healthy_states o1 \<noteq> []" and "IsMaster l" and "x_raft_state E t \<noteq> Leader"
  shows "\<exists>es. snd (reconcile o1 l E t) =
    RedisDo [''REPLICAOF'', master_service (oconfig o1), formatInt (RedisPort (oconfig o1))] # es @ t"
proof -
  have "\<exists>t1. reconcile o1 l E t = demoteToReplica o1 E t1 \<and> (\<exists>fs. t1 = fs @ t)"
    using assms
    by (auto simp: reconcile_def Let_def handleRaftMode_def strat_IsLeader_def raft_IsLeader_def
        raftState_def bnd_assoc strat_GetLeader_def raft_GetLeader_def raftLeaderWithID_def
        split: prod.splits option.splits)
  then obtain t1 fs where r: "reconcile o1 l E t = demoteToReplica o1 E t1" "t1 = fs @ t" by blast
  show ?thesis using demoteToReplica_run [OF assms(5), of E t1] unfolding r by auto
qed

section \<open>Failures of the outside\<close>

text \<open>
  When the local Redis cannot be asked for its role, the cycle ends at once with that
  error: the table of peers stays as it is and nothing else is called.
\<close>

lemma local_failure_stops_cycle:
  assumes "\<not> Standalone (oconfig o1)" and "redisClient o1 = Some c"
    and "x_redis_info E t ''replication'' = Inl e"
  shows "\<exists>msg. syncState o1 E t = (Ret (o1, Some msg), RedisInfo ''replication'' # t)"
  using assms
  by (simp add: syncState_def getLocalState_def Let_def attempt_def bnd_def GetReplicationInfo_def redisInfo_def)

definition link_down :: "string res \<Rightarrow> bool" where
  "link_down r \<longleftrightarrow> (\<exists>s i. r = Inr s \<and> parseReplicationInfo s = Inr i \<and> MasterLinkStatus i = ''down'')"

text \<open>
  The repair of replication never makes a cycle fail, and sends a command exactly when the
  local Redis reports its link as down: then it points Redis at the configured master
  service (or the Redis service) and the configured port.
\<close>

lemma replication_repair:
  assumes "\<not> Standalone (oconfig o1)" and "redisClient o1 = Some c" and "\<not> IsMaster l"
  shows "checkAndFixReplication o1 l E t =
    (Ret None,
     (if link_down (x_redis_info E t ''replication'')
      then [RedisDo [''REPLICAOF'', master_service (oconfig o1), formatInt (RedisPort (oconfig o1))]]
      else []) @ RedisInfo ''replication'' # t)"
  using assms
  by (auto simp: checkAndFixReplication_def Let_def bnd_def redis_runs link_down_def split: sum.splits)

section \<open>Labels after a failure\<close>

lemma decide_beside_master:
  assumes "\<not> IsMaster l" and "\<not> Standalone cfg" and "p \<in> set xs" and "IsMaster p"
    and "\<forall>q \<in> set xs. IsMaster q \<longrightarrow> PodUID q \<noteq> uid"
  shows "decide cfg uid l xs = CheckReplication"
proof -
  let ?ms = "filter IsMaster xs"
  have ne: "xs \<noteq> []" "?ms \<noteq> []" using assms(3,4) by (auto simp: filter_empty_conv)
  obtain y where "y \<in> set ?ms" "PodUID y = least_uid (set ?ms)"
    using sort_first [OF ne(2)] by (metis list.set_intros(1))
  then have "least_uid (set ?ms) \<noteq> uid" using assms(5) by auto
  then show ?thesis using assms(1,2) ne by (simp add: decide_def Let_def)
qed

text \<open>
  C32. A master label can stay behind on a replica. Demotion succeeds whatever the API server
  answers to the removal of the label, and once the pod is a replica beside another master, no
  cycle of it writes to the API server any more, in whatever environment: a removal that failed
  is not tried again.
\<close>

theorem stale_label_persists:
  assumes "redisClient o1 = Some c" and "ElectionMode (oconfig o1) \<noteq> ElectionModeRaft"
    and "\<not> Standalone (oconfig o1)" and "Debug (oconfig o1) \<longrightarrow> uids8 (healthy_states o1)"
    and "\<forall>t. x_redis_do E t [''REPLICAOF'', master_service (oconfig o1), formatInt (RedisPort (oconfig o1))] = None"
    and "\<not> IsMaster l" and "m \<in> set (healthy_states o1)" and "IsMaster m"
    and "\<forall>q \<in> set (healthy_states o1). IsMaster q \<longrightarrow> PodUID q \<noteq> podUID o1"
  shows "fst (demoteToReplica o1 E t) = Ret None \<and>
    (\<forall>E' t'. \<forall>ns p. PodUpdate ns p \<notin> set (calls (reconcile o1 l) E' t'))"
proof
  show "fst (demoteToReplica o1 E t) = Ret None"
    using demoteToReplica_run [OF assms(1), of E t] assms(5) by auto
  have d: "decide (oconfig o1) (podUID o1) l (healthy_states o1) = CheckReplication"
    by (rule decide_beside_master [OF assms(6,3,7,8,9)])
  have "emits (\<lambda>e. \<forall>ns p. e \<noteq> PodUpdate ns p) (checkAndFixReplication o1 l)"
    unfolding checkAndFixReplication_def
    by (intro emit_intros emits_with_client emits_SetReplicaOf emits_GetReplicationInfo) simp_all
  moreover have "calls (reconcile o1 l) E' t' = calls (checkAndFixReplication o1 l) E' t'" for E' t'
    using same_run_calls [OF reconcile_refines [OF assms(2,4), of l], of E' t'] unfolding d by (simp add: perform_def)
  ultimately show "\<forall>E' t'. \<forall>ns p. PodUpdate ns p \<notin> set (calls (reconcile o1 l) E' t')"
    by (auto dest: emits_calls)
qed

theorem stale_label_persists_witness:
  "fst (demoteToReplica (demo_orchestrator\<lparr>peerStates := [(''redis-1'', demo_pod ''redis-1'' 7 True)]\<rparr>)
      (dead_env\<lparr>x_redis_do := \<lambda>t a. None\<rparr>) []) = Ret None"
  using stale_label_persists [of "demo_orchestrator\<lparr>peerStates := [(''redis-1'', demo_pod ''redis-1'' 7 True)]\<rparr>" _
      "dead_env\<lparr>x_redis_do := \<lambda>t a. None\<rparr>" "demo_pod ''redis-0'' 5 False" "demo_pod ''redis-1'' 7 True" "[]"]
  by (simp add: healthy_states_def demo_pod_def)

end
