(* ===== verification/Orchestrator.thy ===== *)
theory Orchestrator
  imports Reconcile_Props
begin

text \<open>
  The life of an orchestrator (\<^verbatim>\<open>pkg/orchestrator/orchestrator.go\<close>): its construction, the HTTP
  server, the main loop and the shutdown.
\<close>

section \<open>New\<close>

definition new_client :: "config \<Rightarrow> redis_client option res io" where
  "new_client cfg =
     (if \<not> Standalone cfg then
        attempt (wrap_res ''failed to create Redis client''
          (NewClient (RedisHost cfg) (RedisPort cfg) (RedisPassword cfg) (RedisTLS cfg)
             (RedisTLSSkipVerify cfg))) (\<lambda>c. ret (Inr (Some c)))
      else ret (Inr None))"

definition new_strategy :: "config \<Rightarrow> string \<Rightarrow> string \<Rightarrow> authenticator \<Rightarrow> strategy res" where
  "new_strategy cfg uid nodeIP a =
     (if ElectionMode cfg = ElectionModeDeterministic \<or> ElectionMode cfg = [] then
        Inr (Deterministic (NewDeterministicStrategy (cfgPodName cfg) uid (Debug cfg)))
      else if ElectionMode cfg = ElectionModeRaft then
        Inr (RaftMode (NewRaftStrategy (cfgPodName cfg) uid nodeIP (RaftBindAddr cfg) (RaftPeers cfg)
          (RaftDataDir cfg) (cfgRaftBootstrap cfg) (Debug cfg) (Standalone cfg) a))
      else Inl (''unknown election mode: '' @ ElectionMode cfg))"

definition New :: "config \<Rightarrow> orchestrator res io" where
  "New cfg =
     attempt (new_client cfg) (\<lambda>client.
     attempt (wrap_res ''failed to get pod'' (podGet (cfgNamespace cfg) (cfgPodName cfg))) (\<lambda>pod.
     attempt (node_ip cfg (kPodIP pod)) (\<lambda>nodeIP.
       let a = NewAuthenticator (SharedSecret cfg)
       in case new_strategy cfg (kUID pod) nodeIP a of
           Inl e \<Rightarrow> ret (Inl e)
         | Inr strat \<Rightarrow>
             bnd now (\<lambda>n. ret (Inr
               \<lparr>oconfig = cfg, redisClient = client, startupTime = n, podIP = kPodIP pod,
                podUID = kUID pod, electionStrategy = strat, authn = a, peerStates = []\<rparr>)))))"

section \<open>The HTTP server\<close>

definition handleStateRequest :: "orchestrator \<Rightarrow> handler" where
  "handleStateRequest o1 req =
     bnd (getLocalState o1) (\<lambda>r. case r of
        Inl _ \<Rightarrow> ret (http_error ''Failed to get state'' StatusInternalServerError)
      | Inr st \<Rightarrow> ret (ok_json (encode_pod_state st)))"

definition handleHealthRequest :: handler where
  "handleHealthRequest req = ret \<lparr>StatusCode = StatusOK, RespBody = Text ''OK''\<rparr>"

text \<open>The routes registered by \<^verbatim>\<open>setupHTTPServer\<close>, and the dispatch of \<^verbatim>\<open>http.ServeMux\<close>.\<close>

definition setupHTTPServer :: "orchestrator \<Rightarrow> (string \<times> handler) list" where
  "setupHTTPServer o1 =
     [(''/state'', Middleware (authn o1) (handleStateRequest o1)),
      (''/health'', handleHealthRequest)] @
     (if ElectionMode (oconfig o1) = ElectionModeRaft then
        (case electionStrategy o1 of
           RaftMode r \<Rightarrow>
             [(''/raft/status'', Middleware (authn o1) (HandleRaftStatus r)),
              (''/raft/add-voter'', Middleware (authn o1) (HandleAddVoter r)),
              (''/raft/add-nonvoter'', Middleware (authn o1) (HandleAddNonvoter r)),
              (''/raft/peers'', Middleware (authn o1) (HandleRaftPeers r))]
         | Deterministic d \<Rightarrow> [])
      else [])"

text \<open>
  A request whose path is not clean is redirected to the clean one (\<^verbatim>\<open>CONNECT\<close> excepted); the
  location of the redirection is a header and not part of the modelled response.
\<close>

definition serveHTTP :: "orchestrator \<Rightarrow> handler" where
  "serveHTTP o1 req =
     (let p = url_path (URL req)
      in if Method req \<noteq> ''CONNECT'' \<and> mux_path p \<noteq> p
         then ret (http_error ''Moved Permanently'' StatusMovedPermanently)
         else case map_of (setupHTTPServer o1) p of
             None \<Rightarrow> ret (http_error ''404 page not found'' StatusNotFound)
           | Some h \<Rightarrow> h req)"

section \<open>Run and shutdown\<close>

text \<open>Errors during the shutdown are logged and otherwise ignored.\<close>

definition shutdown :: "orchestrator \<Rightarrow> gerror io" where
  "shutdown o1 =
     bnd (strat_Stop (electionStrategy o1)) (\<lambda>_.
     bnd httpShutdown (\<lambda>_.
     bnd (case redisClient o1 of None \<Rightarrow> ret () | Some c \<Rightarrow> bnd (CloseRedis c) (\<lambda>_. ret ())) (\<lambda>_.
     ret None)))"

text \<open>
  The loop of \<^verbatim>\<open>Run\<close>, fed with the wake-ups that \<^verbatim>\<open>select\<close> delivers. The second component of
  the result is the value \<^verbatim>\<open>Run\<close> returned, or \<^const>\<open>None\<close> while it still waits.
\<close>


fun run_loop :: "orchestrator \<Rightarrow> wakeup list \<Rightarrow> (orchestrator \<times> gerror option) io" where
  "run_loop o1 [] = ret (o1, None)"
| "run_loop o1 (Cancelled # _) = bnd (shutdown o1) (\<lambda>e. ret (o1, Some e))"
| "run_loop o1 (Tick # ws) = bnd (syncState o1) (\<lambda>(o2, _). run_loop o2 ws)"

text \<open>\<^verbatim>\<open>time.NewTicker\<close> panics for an interval that is not positive; \<^verbatim>\<open>main\<close> does not check it.\<close>

definition newTicker :: "int \<Rightarrow> unit io" where
  "newTicker d = (if d \<le> 0 then panic ''non-positive interval for NewTicker'' else ret ())"

definition Run :: "orchestrator \<Rightarrow> wakeup list \<Rightarrow> (orchestrator \<times> gerror option) io" where
  "Run o1 ws =
     bnd (strat_Start (electionStrategy o1)) (\<lambda>(s, err).
       let o2 = o1\<lparr>electionStrategy := s\<rparr>
       in case err of
           Some e \<Rightarrow> ret (o2, Some (Some (errorf ''failed to start election strategy'' e)))
         | None \<Rightarrow>
             bnd (call HttpListen (\<lambda>E t. ())) (\<lambda>_.
             bnd (newTicker (SyncInterval (oconfig o1))) (\<lambda>_.
             bnd (syncState o2) (\<lambda>(o3, _). run_loop o3 ws))))"

section \<open>Invariants\<close>

text \<open>
  What \<^const>\<open>New\<close> establishes and the loop keeps: the client exists exactly when Redis is
  managed, the table has one entry per name, the strategy fits the mode, and the
  authenticator carries the configured secret.
\<close>

definition orch_inv :: "orchestrator \<Rightarrow> bool" where
  "orch_inv o1 \<longleftrightarrow> client_inv o1 \<and> map_wf (peerStates o1) \<and>
     (ElectionMode (oconfig o1) = ElectionModeRaft \<longleftrightarrow> (\<exists>r. electionStrategy o1 = RaftMode r)) \<and>
     sharedSecret (authn o1) = SharedSecret (oconfig o1)"

lemma attempt_RetE:
  assumes "attempt m f E t = (Ret (Inr b), t')"
  obtains a t1 where "m E t = (Ret (Inr a), t1)" and "f a E t1 = (Ret (Inr b), t')"
  using assms unfolding attempt_def by (elim bnd_RetE) (auto split: sum.splits)

lemma wrap_res_RetE:
  assumes "wrap_res s m E t = (Ret (Inr b), t')"
  obtains "m E t = (Ret (Inr b), t')"
  using assms unfolding wrap_res_def by (elim bnd_RetE) (auto split: sum.splits)

lemma new_client_result:
  assumes "new_client cfg E t = (Ret (Inr c), t')"
  shows "c = None \<longleftrightarrow> Standalone cfg"
  using assms by (auto simp: new_client_def split: if_splits elim!: attempt_RetE)

lemma new_strategy_mode:
  assumes "new_strategy cfg uid ip a = Inr s"
  shows "ElectionMode cfg = ElectionModeRaft \<longleftrightarrow> (\<exists>r. s = RaftMode r)"
  using assms by (auto simp: new_strategy_def split: if_splits)

lemma New_result:
  assumes "New cfg E t = (Ret (Inr o1), t')"
  shows "orch_inv o1 \<and> oconfig o1 = cfg \<and> peerStates o1 = []"
proof -
  from assms obtain client t1 nodeIP t2 and pod :: kube_pod where
    c: "new_client cfg E t = (Ret (Inr client), t1)" and
    s: "(let a = NewAuthenticator (SharedSecret cfg)
       in case new_strategy cfg (kUID pod) nodeIP a of
           Inl e \<Rightarrow> ret (Inl e)
         | Inr strat \<Rightarrow>
             bnd now (\<lambda>n. ret (Inr
               \<lparr>oconfig = cfg, redisClient = client, startupTime = n, podIP = kPodIP pod,
                podUID = kUID pod, electionStrategy = strat, authn = a, peerStates = []\<rparr>)))
       E t2 = (Ret (Inr o1), t')"
    unfolding New_def by (elim attempt_RetE) (rule that, assumption+)
  from s obtain strat n where strat: "new_strategy cfg (kUID pod) nodeIP (NewAuthenticator (SharedSecret cfg)) = Inr strat"
    and o1: "o1 = \<lparr>oconfig = cfg, redisClient = client, startupTime = n, podIP = kPodIP pod,
      podUID = kUID pod, electionStrategy = strat, authn = NewAuthenticator (SharedSecret cfg), peerStates = []\<rparr>"
    by (auto simp: Let_def now_def split: sum.splits)
  show ?thesis
    using new_client_result [OF c] new_strategy_mode [OF strat]
    by (auto simp: o1 orch_inv_def client_inv_def NewAuthenticator_def)
qed

lemma syncState_wf:
  assumes "syncState o1 E t = (Ret (o2, err), t')" and "map_wf (peerStates o1)"
  shows "map_wf (peerStates o2)"
proof -
  from assms(1) obtain ls t1 where ls: "(case ls of
        Inl e \<Rightarrow> ret (o1, Some (errorf ''failed to get local state'' e))
      | Inr localState \<Rightarrow>
          bnd (discoverAndQueryPeers o1) (\<lambda>d.
          bnd (updatePeerStates o1 localState (case d of Inl _ \<Rightarrow> [] | Inr ps \<Rightarrow> ps)) (\<lambda>o2.
          bnd (reconcile o2 localState) (\<lambda>err. ret (o2, err))))) E t1 = (Ret (o2, err), t')"
    unfolding syncState_def by (elim bnd_RetE)
  show ?thesis
  proof (cases ls)
    case (Inl e)
    then show ?thesis using ls assms(2) by auto
  next
    case (Inr l)
    then show ?thesis using ls assms(2)
      by (auto elim!: bnd_RetE simp: updatePeerStates_def now_def merge_peers_wf)
  qed
qed

lemma orch_inv_syncState:
  assumes "syncState o1 E t = (Ret (o2, err), t')" and "orch_inv o1"
  shows "orch_inv o2 \<and> oconfig o2 = oconfig o1 \<and> podUID o2 = podUID o1"
proof -
  from assms(1) obtain ps where "o2 = o1\<lparr>peerStates := ps\<rparr>" by (rule syncState_frame)
  then show ?thesis using syncState_wf [OF assms(1)] assms(2) by (simp add: orch_inv_def)
qed

lemma returns_shutdown: "returns (shutdown o1)"
  by (auto simp: returns_def shutdown_def strat_Stop_def raft_Stop_def det_Stop_def
      CloseRedis_def call_defs split: strategy.splits option.splits)

lemma run_loop_inv:
  assumes "run_loop o1 ws E t = (Ret (o2, r), t')" and "orch_inv o1"
  shows "orch_inv o2 \<and> oconfig o2 = oconfig o1 \<and> podUID o2 = podUID o1"
  using assms
proof (induction o1 ws arbitrary: t rule: run_loop.induct)
  case (2 o1 ws)
  then show ?case by (auto elim!: bnd_RetE)
next
  case (3 o1 ws)
  then obtain o3 err t1 where s: "syncState o1 E t = (Ret (o3, err), t1)"
    and r: "run_loop o3 ws E t1 = (Ret (o2, r), t')"
    by (auto elim!: bnd_RetE)
  from orch_inv_syncState [OF s 3(3)] have "orch_inv o3" "oconfig o3 = oconfig o1" "podUID o3 = podUID o1"
    by auto
  with 3(1) [OF r] show ?case by simp
qed auto

lemma run_loop_stops:
  "run_loop o1 ws E t = (Ret (o2, r), t') \<Longrightarrow> r = None \<longleftrightarrow> Cancelled \<notin> set ws"
  by (induction o1 ws arbitrary: t rule: run_loop.induct) (auto elim!: bnd_RetE)

lemma returns_run_loop:
  assumes "orch_inv o1" and "\<not> Debug (oconfig o1)"
  shows "returns (run_loop o1 ws)"
  using assms
proof (induction o1 ws rule: run_loop.induct)
  case (1 o1)
  show ?case by (simp add: returns_def wp_def)
next
  case (2 o1 ws)
  then show ?case by (auto intro!: returns_bnd returns_shutdown)
next
  case (3 o1 ws)
  have "client_inv o1" using 3(2) by (simp add: orch_inv_def)
  then have ret: "returns (syncState o1)" using 3(3) by (rule returns_syncState)
  show ?case
    unfolding returns_def run_loop.simps wp_bnd
  proof (intro allI wp_returns [OF ret])
    fix E t a t'
    assume s: "syncState o1 E t = (Ret a, t')"
    obtain o2 err where a: "a = (o2, err)" by force
    have "orch_inv o2" "\<not> Debug (oconfig o2)"
      using orch_inv_syncState [OF s [unfolded a] 3(2)] 3(3) by auto
    then have "returns (run_loop o2 ws)" using 3(1) by blast
    then show "wp (case a of (o2, _) \<Rightarrow> run_loop o2 ws) (\<lambda>_ _. True) E t'"
      by (simp add: a returns_def)
  qed
qed

section \<open>Properties\<close>

text \<open>
  C7. Outside debug mode the main loop never panics, whatever Redis, Kubernetes, the peers and
  Raft answer and however long it runs; it keeps the invariant, the configuration and the
  UID, and returns exactly when the context is cancelled.
\<close>

theorem run_loop_safe:
  assumes "orch_inv o1" and "\<not> Debug (oconfig o1)"
  shows "\<exists>o2 r t'. run_loop o1 ws E t = (Ret (o2, r), t') \<and> orch_inv o2 \<and>
    oconfig o2 = oconfig o1 \<and> podUID o2 = podUID o1 \<and> (r = None \<longleftrightarrow> Cancelled \<notin> set ws)"
proof -
  obtain x t' where x: "run_loop o1 ws E t = (Ret x, t')"
    using returns_run_loop [OF assms] by (rule returns_obtain)
  obtain o2 r where x2: "x = (o2, r)" by force
  show ?thesis
    using run_loop_inv [OF x [unfolded x2] assms(1)] run_loop_stops [OF x [unfolded x2]] x x2 by blast
qed

lemma demo_orch_inv: "orch_inv (demo_orchestrator\<lparr>authn := NewAuthenticator []\<rparr>)"
  by (simp add: orch_inv_def client_inv_def map_wf_def demo_orchestrator_def NewAuthenticator_def)

theorem run_loop_safe_witness:
  "\<exists>o2 r t'. run_loop (demo_orchestrator\<lparr>authn := NewAuthenticator []\<rparr>) [Tick, Tick, Cancelled] dead_env [] =
      (Ret (o2, r), t') \<and> r \<noteq> None"
  using run_loop_safe [OF demo_orch_inv, of "[Tick, Tick, Cancelled]" dead_env "[]"] by auto

text \<open>The paths served behind the authentication.\<close>

definition guarded_path :: "orchestrator \<Rightarrow> string \<Rightarrow> bool" where
  "guarded_path o1 p \<longleftrightarrow> p = ''/state'' \<or>
     ElectionMode (oconfig o1) = ElectionModeRaft \<and> (\<exists>r. electionStrategy o1 = RaftMode r) \<and>
     p \<in> {''/raft/status'', ''/raft/add-voter'', ''/raft/add-nonvoter'', ''/raft/peers''}"

lemma routes_guarded:
  assumes "p \<noteq> ''/health''"
  shows "if guarded_path o1 p then \<exists>g. map_of (setupHTTPServer o1) p = Some (Middleware (authn o1) g)
    else map_of (setupHTTPServer o1) p = None"
  using assms
  by (cases "ElectionMode (oconfig o1) = ElectionModeRaft"; cases "electionStrategy o1")
    (simp_all add: setupHTTPServer_def guarded_path_def, blast+)

text \<open>
  C27. A request that fails validation reaches no handler but that of \<^verbatim>\<open>/health\<close>, and nothing but
  the clock is read. The answer is 301 for a path that is not clean, 401 on the guarded paths
  (\<^verbatim>\<open>/state\<close>, and the four Raft paths exactly in Raft mode), and 404 on every other one.
\<close>

theorem unauthenticated_rejected:
  assumes "ValidateRequest (authn o1) req E t = (Ret (Some e), t1)"
    and "url_path (URL req) \<noteq> ''/health''"
  shows "\<exists>resp t'. serveHTTP o1 req E t = (Ret resp, t') \<and>
    StatusCode resp =
      (if Method req \<noteq> ''CONNECT'' \<and> mux_path (url_path (URL req)) \<noteq> url_path (URL req) then 301
       else if guarded_path o1 (url_path (URL req)) then 401 else 404) \<and>
    (\<forall>ev \<in> set (calls (serveHTTP o1 req) E t). ev = ClockRead)"
proof (cases "(Method req = ''CONNECT'' \<or> mux_path (url_path (URL req)) = url_path (URL req)) \<and>
    guarded_path o1 (url_path (URL req))")
  case False
  then have "\<exists>resp. serveHTTP o1 req E t = (Ret resp, t) \<and> StatusCode resp =
      (if Method req \<noteq> ''CONNECT'' \<and> mux_path (url_path (URL req)) \<noteq> url_path (URL req) then 301 else 404)"
    using routes_guarded [OF assms(2), of o1] by (auto simp: serveHTTP_def Let_def http_error_def)
  then show ?thesis using False by (auto simp: calls_def)
next
  case True
  then obtain g where s: "serveHTTP o1 req = Middleware (authn o1) g req"
    using routes_guarded [OF assms(2), of o1] by (auto simp: serveHTTP_def Let_def)
  obtain resp where r: "Middleware (authn o1) g req E t = (Ret resp, t1)" "StatusCode resp = StatusUnauthorized"
    using au.guard_stop [OF assms(1)] by blast
  obtain es where es: "t1 = es @ t" "\<forall>e \<in> set es. e = ClockRead"
    using emits_ValidateRequest [of "\<lambda>e. e = ClockRead", OF refl] assms(1) by (rule emits_trace)
  have "calls (Middleware (authn o1) g req) E t = es" by (rule calls_eq) (simp add: r es)
  with es r True show ?thesis by (auto simp: s)
qed

lemma mux_path_state: "mux_path ''/state'' = ''/state''"
  using mux_path_plain [of "[''state'']"] by (simp add: plain_elem_def)

theorem unauthenticated_rejected_witness:
  "\<exists>resp t'. serveHTTP demo_orchestrator demo_request dead_env [] = (Ret resp, t') \<and> StatusCode resp = 401"
proof -
  have u: "url_path (URL demo_request) = ''/state''" by (simp add: demo_request_def url_path_def go_str Let_def)
  have "ValidateRequest (authn demo_orchestrator) demo_request dead_env [] = (Ret (Some ''missing timestamp header''), [])"
    by (simp add: ValidateRequest_def NewAuthenticator_def demo_request_def map_get_def)
  from unauthenticated_rejected [OF this] u mux_path_state show ?thesis by (auto simp: guarded_path_def)
qed

lemma state_route: "map_of (setupHTTPServer o1) ''/state'' = Some (Middleware (authn o1) (handleStateRequest o1))"
  by (simp add: setupHTTPServer_def)

lemma url_path_state_url:
  "\<forall>c \<in> set ip. c \<noteq> CHR ''/'' \<and> c \<noteq> CHR ''?'' \<and> c \<noteq> CHR ''#'' \<Longrightarrow> url_path (state_url ip) = ''/state''"
proof -
  assume ip: "\<forall>c \<in> set ip. c \<noteq> CHR ''/'' \<and> c \<noteq> CHR ''?'' \<and> c \<noteq> CHR ''#''"
  have f: "\<forall>c \<in> set (formatInt n). c \<noteq> CHR ''/'' \<and> c \<noteq> CHR ''?'' \<and> c \<noteq> CHR ''#''" for n
    using formatInt_no_char [of _ n] by (auto simp: digitVal_def)
  have "url_path (''http://'' @ (ip @ '':'' @ formatInt HTTPPort) @ ''/'' @ ''state'') = ''/'' @ ''state''"
    using ip f [of HTTPPort] by (intro url_path_http) auto
  then show ?thesis by (simp add: state_url_def)
qed

lemma serve_state:
  assumes "url_path (URL req) = ''/state''"
    and "ValidateRequest (authn o2) req E t = (Ret None, t1)"
    and "getLocalState o2 E t1 = (Ret (Inr st), t2)"
  shows "serveHTTP o2 req E t = (Ret (ok_json (encode_pod_state st)), t2)"
  using assms
  by (simp add: serveHTTP_def mux_path_state state_route Middleware_def handleStateRequest_def bnd_def Let_def)

text \<open>
  C6. One pod's query of another is faithful end to end: if the network delivers the request to
  the peer's server and the response back, both pods share a secret and their clocks are
  close, then the query returns exactly the state the peer determines about itself.
\<close>

theorem query_returns_peer_state:
  assumes "authn o1 = authn o2" and "sharedSecret (authn o2) \<noteq> []"
    and "\<forall>c \<in> set ip. c \<noteq> CHR ''/'' \<and> c \<noteq> CHR ''?'' \<and> c \<noteq> CHR ''#''"
    and "x_url E (state_url ip) = None"
    and "\<forall>req t. x_http E t req = (case fst (serveHTTP o2 req E2 t2) of Ret resp \<Rightarrow> Inr resp | Panic p \<Rightarrow> Inl ''EOF'')"
    and "clocks_close (x_now E2 t2) (x_now E t)"
    and "getLocalState o2 E2 (ClockRead # t2) = (Ret (Inr st), t3)"
  shows "\<exists>t'. queryPeer o1 ip E t = (Ret (Inr st), t')"
proof -
  define req where "req = sign_at (authn o2) (x_now E t)
    \<lparr>Method = ''GET'', URL = state_url ip, Header = [], ReqBody = Text []\<rparr>"
  have v: "ValidateRequest (authn o2) req E2 t2 = (Ret None, ClockRead # t2)"
    unfolding req_def by (rule ValidateRequest_sealed [OF assms(2,6)])
  have "serveHTTP o2 req E2 t2 = (Ret (ok_json (encode_pod_state st)), t3)"
    by (rule serve_state [OF _ v assms(7)]) (simp add: req_def url_path_state_url [OF assms(3)])
  then have "x_http E (ClockRead # t) req = Inr (ok_json (encode_pod_state st))" using assms(5) by simp
  then show ?thesis
    using assms(1,2,4)
    by (simp add: queryPeer_def attempt_def bnd_def newRequest_def wrap_res_def SignRequest_def now_def
        httpDo_def ok_json_def decode_encode_pod_state flip: req_def)
qed

definition demo_witness :: orchestrator where
  "demo_witness = demo_orchestrator\<lparr>oconfig := demo_config\<lparr>Standalone := True\<rparr>\<rparr>"

theorem query_returns_peer_state_witness:
  "\<exists>st t'. queryPeer demo_orchestrator ''10.0.0.1''
      (dead_env\<lparr>x_http := \<lambda>t req. case fst (serveHTTP demo_witness req dead_env []) of
         Ret resp \<Rightarrow> Inr resp | Panic p \<Rightarrow> Inl ''EOF''\<rparr>) [] = (Ret (Inr st), t') \<and> IsWitness st"
proof -
  have "\<exists>st. getLocalState demo_witness dead_env [ClockRead] = (Ret (Inr st), [ClockRead, ClockRead]) \<and> IsWitness st"
    by (simp add: getLocalState_def demo_witness_def now_def Let_def)
  then obtain st where st: "getLocalState demo_witness dead_env [ClockRead] = (Ret (Inr st), [ClockRead, ClockRead])"
    "IsWitness st" by blast
  have "\<exists>t'. queryPeer demo_orchestrator ''10.0.0.1''
      (dead_env\<lparr>x_http := \<lambda>t req. case fst (serveHTTP demo_witness req dead_env []) of
         Ret resp \<Rightarrow> Inr resp | Panic p \<Rightarrow> Inl ''EOF''\<rparr>) [] = (Ret (Inr st), t')"
    by (rule query_returns_peer_state [where ?o2.0 = demo_witness, OF _ _ _ _ _ _ st(1)])
      (simp_all add: demo_witness_def NewAuthenticator_def clocks_close_def inInt64_def)
  then show ?thesis using st(2) by blast
qed

text \<open>
  When the election strategy cannot be started, \<^verbatim>\<open>Run\<close> returns its error at once: no server
  is started and no cycle runs.
\<close>

lemma run_start_failure:
  assumes "strat_Start (electionStrategy o1) E t = (Ret (s, Some e), t1)"
  shows "Run o1 ws E t =
    (Ret (o1\<lparr>electionStrategy := s\<rparr>, Some (Some (errorf ''failed to start election strategy'' e))), t1)"
  using assms by (simp add: Run_def bnd_def Let_def)

end
