(* ===== verification/Cluster.thy ===== *)
theory Cluster
  imports Orchestrator
begin

text \<open>
  Several orchestrators together in deterministic mode. A step of the cluster is a whole sync
  cycle of one pod, run against its own Redis, the API server's list of pods and the other
  pods' HTTP servers. In these steps nothing fails: all pods are running, reachable and
  healthy, and Redis obeys. Clocks may differ and move during a cycle, as long as requests are
  accepted and no answer is stale when the table is updated.
\<close>

section \<open>The cluster as an environment\<close>

text \<open>
  The role of a Redis server after the commands of a history: \<^verbatim>\<open>REPLICAOF NO ONE\<close> makes it a
  master, \<^verbatim>\<open>REPLICAOF\<close> with a host and a port a replica.
\<close>

fun role_after :: "bool \<Rightarrow> trace \<Rightarrow> bool" where
  "role_after m [] = m"
| "role_after m (RedisDo args # t) =
     (if args = [''REPLICAOF'', ''NO'', ''ONE''] then True
      else if take 1 args = [''REPLICAOF''] then False
      else role_after m t)"
| "role_after m (_ # t) = role_after m t"

record cluster =
  members :: "orchestrator list"
  masters :: "bool list"

text \<open>
  The conditions of one cycle: a base for everything not mentioned (label updates may fail, for
  instance), the clock of each pod when it determines its own state, the clock of the acting
  pod when it asks each of the others and when it updates its table, and the lines each Redis
  reports beside its role.
\<close>

record world =
  w_base :: env
  w_clock :: "nat \<Rightarrow> instant"
  w_asks :: "nat \<Rightarrow> instant"
  w_now :: instant
  w_extra :: "nat \<Rightarrow> (string \<times> string) list"

text \<open>The acting pod's clock along its cycle: first its own state, then one request after the other.\<close>

definition asked :: "trace \<Rightarrow> nat" where
  "asked t = length (filter (\<lambda>e. case e of HttpDo _ \<Rightarrow> True | _ \<Rightarrow> False) t)"

definition listed :: "trace \<Rightarrow> bool" where
  "listed t \<longleftrightarrow> filter (\<lambda>e. case e of PodList _ _ \<Rightarrow> True | _ \<Rightarrow> False) t \<noteq> []"

definition own_clock :: "world \<Rightarrow> nat \<Rightarrow> nat \<Rightarrow> trace \<Rightarrow> instant" where
  "own_clock w n i t =
     (let others = filter (\<lambda>j. j \<noteq> i) [0..<n]
      in if \<not> listed t then w_clock w i
         else if asked t < length others then w_asks w (others ! asked t)
         else w_now w)"

definition info_text :: "world \<Rightarrow> nat \<Rightarrow> bool \<Rightarrow> string" where
  "info_text w j m = render_info ((''role'', if m then ''master'' else ''slave'') # w_extra w j)"

definition local_env :: "world \<Rightarrow> bool \<Rightarrow> nat \<Rightarrow> env" where
  "local_env w m j = (w_base w)\<lparr>x_now := \<lambda>t. w_clock w j, x_redis_ping := \<lambda>t. None,
     x_redis_info := \<lambda>t s. Inr (info_text w j (role_after m t)), x_redis_do := \<lambda>t a. None\<rparr>"

definition deliver :: "world \<Rightarrow> cluster \<Rightarrow> http_request \<Rightarrow> http_response res" where
  "deliver w c req =
     (case find (\<lambda>j. state_url (podIP (members c ! j)) = URL req) [0..<length (members c)] of
        None \<Rightarrow> Inl ''no route to host''
      | Some j \<Rightarrow>
          (case fst (serveHTTP (members c ! j) req (local_env w (masters c ! j) j) []) of
             Ret resp \<Rightarrow> Inr resp
           | Panic p \<Rightarrow> Inl ''EOF''))"

definition pod_of :: "orchestrator \<Rightarrow> kube_pod" where
  "pod_of o1 = \<lparr>kName = cfgPodName (oconfig o1), kUID = podUID o1, kLabels = None,
     kPhase = PodRunning, kPodIP = podIP o1\<rparr>"

definition node_env :: "world \<Rightarrow> cluster \<Rightarrow> nat \<Rightarrow> env" where
  "node_env w c i = (local_env w (masters c ! i) i)\<lparr>x_now := own_clock w (length (members c)) i,
     x_url := \<lambda>u. None,
     x_pod_list := \<lambda>t ns s. Inr (map pod_of (members c)), x_http := \<lambda>t req. deliver w c req\<rparr>"

definition cluster_step :: "world \<Rightarrow> cluster \<Rightarrow> nat \<Rightarrow> cluster" where
  "cluster_step w c i =
     (case syncState (members c ! i) (node_env w c i) [] of
        (Ret (o2, err), t) \<Rightarrow>
          c\<lparr>members := (members c)[i := o2], masters := (masters c)[i := role_after (masters c ! i) t]\<rparr>
      | (Panic p, t) \<Rightarrow> c)"

section \<open>Well-formed clusters\<close>

definition member_ok :: "orchestrator \<Rightarrow> bool" where
  "member_ok o1 \<longleftrightarrow> \<not> Standalone (oconfig o1) \<and> \<not> Debug (oconfig o1) \<and>
     ElectionMode (oconfig o1) \<noteq> ElectionModeRaft \<and> redisClient o1 \<noteq> None \<and>
     (\<forall>c \<in> set (podIP o1). c \<noteq> CHR ''/'' \<and> c \<noteq> CHR ''?'' \<and> c \<noteq> CHR ''#'') \<and> map_wf (peerStates o1)"

definition names :: "cluster \<Rightarrow> string list" where
  "names c = map (\<lambda>o1. cfgPodName (oconfig o1)) (members c)"

definition cluster_ok :: "cluster \<Rightarrow> bool" where
  "cluster_ok c \<longleftrightarrow> members c \<noteq> [] \<and> length (masters c) = length (members c) \<and>
     distinct (names c) \<and> distinct (map podUID (members c)) \<and> distinct (map podIP (members c)) \<and>
     (\<forall>o1 \<in> set (members c). member_ok o1 \<and> authn o1 = authn (hd (members c)) \<and>
        fst ` set (peerStates o1) \<subseteq> set (names c))"

text \<open>
  What a cycle of pod \<open>i\<close> needs: each other pod accepts the request (the clocks are within 30
  seconds of each other then), and no answer is older than 60 seconds, by the two pods' clocks,
  when the table is updated.
\<close>

definition world_ok :: "nat \<Rightarrow> nat \<Rightarrow> world \<Rightarrow> bool" where
  "world_ok n i w \<longleftrightarrow>
     (\<forall>j < n. j \<noteq> i \<longrightarrow> clocks_close (w_clock w j) (w_asks w j) \<and> \<not> w_clock w j < w_now w - 60 * Second) \<and>
     (\<forall>j < n. \<forall>(k, v) \<in> set (w_extra w j). good_key k \<and> good_value v \<and> k \<noteq> ''role'')"

definition node_state :: "world \<Rightarrow> cluster \<Rightarrow> nat \<Rightarrow> pod_state" where
  "node_state w c j =
     (let o1 = members c ! j
      in \<lparr>PodName = cfgPodName (oconfig o1), PodIP = podIP o1, PodUID = podUID o1,
          Namespace = cfgNamespace (oconfig o1), IsMaster = masters c ! j, IsHealthy = True,
          IsWitness = False, StartupTime = startupTime o1, LastSeen = w_clock w j\<rparr>)"

lemma cluster_okD:
  assumes "cluster_ok c" and "j < length (members c)"
  shows "member_ok (members c ! j)" and "authn (members c ! j) = authn (hd (members c))"
    and "fst ` set (peerStates (members c ! j)) \<subseteq> set (names c)"
  using assms(1) nth_mem [OF assms(2)] unfolding cluster_ok_def by blast+

section \<open>What a pod reports about itself\<close>

lemma parse_info_text:
  assumes "world_ok n i w" and "j < n"
  shows "\<exists>f. parseReplicationInfo (info_text w j m) = Inr f \<and> Role f = (if m then ''master'' else ''slave'')"
proof -
  let ?kvs = "(''role'', if m then ''master'' else ''slave'') # w_extra w j"
  have ex: "\<forall>(k, v) \<in> set (w_extra w j). good_key k \<and> good_value v \<and> k \<noteq> ''role''"
    using assms by (simp add: world_ok_def)
  have "good_key ''role''" "good_value (if m then ''master'' else ''slave'')"
    by (simp_all add: good_key_def good_value_def trimmedI crlf_free_def spaces_def)
  then have g: "\<forall>(k, v) \<in> set ?kvs. good_key k \<and> good_value v" using ex by auto
  have "map_of (rev (w_extra w j)) ''role'' = None"
    using ex by (auto simp: map_of_eq_None_iff)
  then have l: "last_value ''role'' ?kvs [] = (if m then ''master'' else ''slave'')"
    by (simp add: last_value_def map_add_def)
  then have "Role (fold (\<lambda>(k, v). set_field k v) ?kvs empty_info) = (if m then ''master'' else ''slave'')"
    unfolding fold_set_field_strings by (simp add: empty_info_def)
  moreover have "last_value ''role'' ?kvs [] \<noteq> []" using l by simp
  ultimately show ?thesis
    unfolding info_text_def parseReplicationInfo_render [OF g] Let_def by auto
qed

lemma local_state_of:
  assumes "world_ok (length (members c)) i w" and "cluster_ok c" and "j < length (members c)"
    and "role_after (masters c ! j) t = masters c ! j"
    and "x_now E (RedisPing # RedisInfo ''replication'' # t) = w_clock w j" and "x_redis_ping E = (\<lambda>t. None)"
    and "x_redis_info E = (\<lambda>t s. Inr (info_text w j (role_after (masters c ! j) t)))"
  shows "getLocalState (members c ! j) E t =
    (Ret (Inr (node_state w c j)), [ClockRead, RedisPing, RedisInfo ''replication''] @ t)"
proof -
  have m: "member_ok (members c ! j)" using assms(2,3) by (rule cluster_okD)
  then obtain cl where cl: "redisClient (members c ! j) = Some cl" by (auto simp: member_ok_def)
  obtain f where "parseReplicationInfo (info_text w j (masters c ! j)) = Inr f"
    "Role f = (if masters c ! j then ''master'' else ''slave'')"
    using parse_info_text [OF assms(1,3)] by blast
  with m cl assms(4-) show ?thesis
    by (simp add: getLocalState_def member_ok_def attempt_def bnd_def redis_runs now_def Let_def
        node_state_def)
qed

section \<open>What a pod learns about the others\<close>

lemma state_url_inj: "state_url a = state_url b \<Longrightarrow> a = b"
  by (simp add: state_url_def)

lemma deliver_to:
  assumes "cluster_ok c" and "j < length (members c)" and "URL req = state_url (podIP (members c ! j))"
  shows "deliver w c req =
    (case fst (serveHTTP (members c ! j) req (local_env w (masters c ! j) j) []) of
       Ret resp \<Rightarrow> Inr resp | Panic p \<Rightarrow> Inl ''EOF'')"
proof -
  have d: "distinct (map podIP (members c))" using assms(1) by (simp add: cluster_ok_def)
  have "find (\<lambda>k. state_url (podIP (members c ! k)) = URL req) [0..<length (members c)] = Some j"
    unfolding find_Some_iff
  proof (intro exI [of _ j] conjI allI impI)
    fix k
    assume k: "k < j"
    have "podIP (members c ! k) \<noteq> podIP (members c ! j)"
      using nth_eq_iff_index_eq [OF d, of k j] k assms(2) by simp
    then show "state_url (podIP (members c ! ([0..<length (members c)] ! k))) \<noteq> URL req"
      using state_url_inj assms(2,3) k by auto
  qed (use assms in auto)
  then show ?thesis by (simp add: deliver_def)
qed

text \<open>Where the acting pod's clock stands: \<open>k\<close> pods have been asked so far.\<close>

definition at_query :: "nat \<Rightarrow> trace \<Rightarrow> bool" where
  "at_query k t \<longleftrightarrow> listed t \<and> asked t = k"

lemma asked_simps [simp]:
  "asked [] = 0" "asked (ClockRead # t) = asked t" "asked (HttpDo r # t) = Suc (asked t)"
  "asked (RedisPing # t) = asked t" "asked (RedisInfo s # t) = asked t" "asked (PodList ns sel # t) = asked t"
  by (simp_all add: asked_def)

lemma listed_simps [simp]:
  "\<not> listed []" "listed (ClockRead # t) = listed t" "listed (HttpDo r # t) = listed t"
  "listed (RedisPing # t) = listed t" "listed (RedisInfo s # t) = listed t" "listed (PodList ns sel # t)"
  by (simp_all add: listed_def)

lemma others_nth:
  assumes "j < n" and "j \<noteq> i"
  shows "length (filter (\<lambda>j. j \<noteq> i) [0..<j]) < length (filter (\<lambda>j. j \<noteq> i) [0..<n])"
    and "filter (\<lambda>j. j \<noteq> i) [0..<n] ! length (filter (\<lambda>j. j \<noteq> i) [0..<j]) = j"
proof -
  have "[0..<n] = [0..<j] @ j # [Suc j..<n]"
    using assms(1) by (metis le0 less_imp_le upt_add_eq_append upt_conv_Cons le_add_diff_inverse)
  then show "length (filter (\<lambda>j. j \<noteq> i) [0..<j]) < length (filter (\<lambda>j. j \<noteq> i) [0..<n])"
    "filter (\<lambda>j. j \<noteq> i) [0..<n] ! length (filter (\<lambda>j. j \<noteq> i) [0..<j]) = j"
    using assms(2) by (simp_all add: nth_append)
qed

lemma query_member:
  assumes "cluster_ok c" and "world_ok (length (members c)) i w"
    and "i < length (members c)" and "j < length (members c)" and "j \<noteq> i"
    and "at_query (length (filter (\<lambda>j. j \<noteq> i) [0..<j])) t"
  shows "\<exists>es. queryPeer (members c ! i) (podIP (members c ! j)) (node_env w c i) t =
      (Ret (Inr (node_state w c j)), es @ t) \<and> (\<forall>e \<in> set es. peer_call e) \<and>
    at_query (Suc (length (filter (\<lambda>j. j \<noteq> i) [0..<j]))) (es @ t)"
proof -
  let ?a = "authn (members c ! i)" and ?E = "local_env w (masters c ! j) j"
  let ?r = "\<lparr>Method = ''GET'', URL = state_url (podIP (members c ! j)), Header = [], ReqBody = Text []\<rparr>"
  define req where "req = (if sharedSecret ?a = [] then ?r else sign_at ?a (w_asks w j) ?r)"
  define t1 where "t1 = (if sharedSecret ?a = [] then [] else [ClockRead])"
  have a: "authn (members c ! j) = ?a" using cluster_okD(2) [OF assms(1)] assms(3,4) by simp
  have now: "x_now ?E s = w_clock w j" "x_redis_ping ?E = (\<lambda>t. None)"
    "x_redis_info ?E = (\<lambda>t s. Inr (info_text w j (role_after (masters c ! j) t)))" for s
    by (simp_all add: local_env_def)
  have own: "x_now (node_env w c i) t = w_asks w j"
    using assms(6) others_nth [OF assms(4,5)] by (simp add: node_env_def own_clock_def at_query_def)
  have "clocks_close (x_now ?E []) (w_asks w j)" using assms(2,4,5) by (simp add: now world_ok_def)
  then have v: "ValidateRequest (authn (members c ! j)) req ?E [] = (Ret None, t1)"
    unfolding a req_def t1_def using ValidateRequest_sealed by (simp add: ValidateRequest_def)
  have "role_after (masters c ! j) t1 = masters c ! j" by (simp add: t1_def)
  note ls = local_state_of [OF assms(2,1,4) this now]
  have "member_ok (members c ! j)" using assms(1,4) by (rule cluster_okD)
  then have u: "url_path (URL req) = ''/state''"
    by (simp add: req_def member_ok_def url_path_state_url)
  have "deliver w c req = Inr (ok_json (encode_pod_state (node_state w c j)))"
    using serve_state [OF u v ls] by (subst deliver_to [OF assms(1,4)]) (simp_all add: req_def)
  moreover have "x_url (node_env w c i) u = None" "x_http (node_env w c i) t' q = deliver w c q" for u t' q
    by (simp_all add: node_env_def)
  ultimately have "queryPeer (members c ! i) (podIP (members c ! j)) (node_env w c i) t =
      (Ret (Inr (node_state w c j)), (HttpDo req # t1) @ t)"
    using own by (cases "sharedSecret ?a = []") (simp_all add: queryPeer_def attempt_def bnd_def newRequest_def
        wrap_res_def SignRequest_def now_def httpDo_def ok_json_def decode_encode_pod_state req_def t1_def)
  moreover have "Method req = ''GET''" by (simp add: req_def)
  ultimately show ?thesis
    using assms(6) by (intro exI [of _ "HttpDo req # t1"]) (simp add: t1_def peer_call_def at_query_def)
qed

text \<open>A loop over pods that all answer; \<open>R k\<close> is what holds of the history once \<open>k\<close> have been asked.\<close>

lemma query_pods_all:
  assumes "\<And>pre p post t. pods = pre @ p # post \<Longrightarrow> kName p \<noteq> self \<Longrightarrow>
      R (k + length (filter (\<lambda>p. kName p \<noteq> self) pre)) t \<Longrightarrow>
      \<exists>es. queryPeer o1 (kPodIP p) E t = (Ret (Inr (g p)), es @ t) \<and> (\<forall>e \<in> set es. peer_call e) \<and>
        R (Suc (k + length (filter (\<lambda>p. kName p \<noteq> self) pre))) (es @ t)"
    and "\<forall>p \<in> set pods. kPhase p = PodRunning" and "self = cfgPodName (oconfig o1)" and "R k t"
  shows "\<exists>es. query_pods o1 s pods E t =
    (Ret (foldl (\<lambda>m (k, v). map_set k v m) s (map (\<lambda>p. (kName p, g p)) (filter (\<lambda>p. kName p \<noteq> self) pods))), es @ t) \<and>
    (\<forall>e \<in> set es. peer_call e) \<and> R (k + length (filter (\<lambda>p. kName p \<noteq> self) pods)) (es @ t)"
  using assms(1,2,4)
proof (induction pods arbitrary: s t k)
  case (Cons p pods)
  show ?case
  proof (cases "kName p = self")
    case True
    have "\<exists>es. query_pods o1 s pods E t =
        (Ret (foldl (\<lambda>m (k, v). map_set k v m) s (map (\<lambda>p. (kName p, g p)) (filter (\<lambda>p. kName p \<noteq> self) pods))), es @ t) \<and>
        (\<forall>e \<in> set es. peer_call e) \<and> R (k + length (filter (\<lambda>p. kName p \<noteq> self) pods)) (es @ t)"
      using Cons.prems True by (intro Cons.IH) (auto dest: Cons.prems(1) [of "p # _", simplified])
    then show ?thesis using True assms(3) by simp
  next
    case False
    obtain es where q: "queryPeer o1 (kPodIP p) E t = (Ret (Inr (g p)), es @ t)" "\<forall>e \<in> set es. peer_call e"
        "R (Suc k) (es @ t)"
      using Cons.prems(1) [of "[]" p pods t] Cons.prems(3) False by auto
    have "\<exists>fs. query_pods o1 (map_set (kName p) (g p) s) pods E (es @ t) =
        (Ret (foldl (\<lambda>m (k, v). map_set k v m) (map_set (kName p) (g p) s)
          (map (\<lambda>p. (kName p, g p)) (filter (\<lambda>p. kName p \<noteq> self) pods))), fs @ es @ t) \<and>
        (\<forall>e \<in> set fs. peer_call e) \<and> R (Suc k + length (filter (\<lambda>p. kName p \<noteq> self) pods)) (fs @ es @ t)"
      using Cons.prems(2) q(3) False by (intro Cons.IH) (auto dest: Cons.prems(1) [of "p # _", simplified])
    then obtain fs where r: "query_pods o1 (map_set (kName p) (g p) s) pods E (es @ t) =
        (Ret (foldl (\<lambda>m (k, v). map_set k v m) (map_set (kName p) (g p) s)
          (map (\<lambda>p. (kName p, g p)) (filter (\<lambda>p. kName p \<noteq> self) pods))), fs @ es @ t)"
      "\<forall>e \<in> set fs. peer_call e" "R (Suc k + length (filter (\<lambda>p. kName p \<noteq> self) pods)) (fs @ es @ t)" by blast
    have "kName p \<noteq> cfgPodName (oconfig o1)" "kPhase p = PodRunning"
      using False assms(3) Cons.prems(2) by auto
    then show ?thesis
      using q r False by (intro exI [of _ "fs @ es"]) (auto simp: bnd_def)
  qed
qed simp

section \<open>The table of a pod after its cycle\<close>

definition table :: "world \<Rightarrow> cluster \<Rightarrow> pod_state gomap" where
  "table w c = map (\<lambda>j. (names c ! j, node_state w c j)) [0..<length (members c)]"

lemma table_keys: "map fst (table w c) = names c"
  by (rule nth_equalityI) (simp_all add: table_def names_def)

lemma table_wf: "cluster_ok c \<Longrightarrow> map_wf (table w c)"
  by (simp add: map_wf_def table_keys cluster_ok_def)

lemma table_lookup:
  assumes "cluster_ok c" and "j < length (members c)"
  shows "map_of (table w c) (names c ! j) = Some (node_state w c j)"
proof (rule map_of_is_SomeI)
  show "distinct (map fst (table w c))" using table_wf [OF assms(1)] by (simp add: map_wf_def)
  show "(names c ! j, node_state w c j) \<in> set (table w c)" using assms(2) by (force simp: table_def)
qed

lemma table_None: "k \<notin> set (names c) \<Longrightarrow> map_of (table w c) k = None"
  by (simp add: map_of_eq_None_iff flip: table_keys [of w c])

lemma table_Some:
  assumes "cluster_ok c" and "map_of (table w c) k = Some st"
  obtains j where "j < length (members c)" and "k = names c ! j" and "st = node_state w c j"
  using map_of_SomeD [OF assms(2)] by (auto simp: table_def intro: that)

lemma wf_map_of_mset:
  assumes "map_wf xs" and "map_wf ys" and "map_of xs = map_of ys"
  shows "mset xs = mset ys"
proof -
  have d: "distinct (map fst xs)" "distinct (map fst ys)" using assms by (simp_all add: map_wf_def)
  have "set xs = set ys"
    using map_of_eq_Some_iff [OF d(1)] map_of_eq_Some_iff [OF d(2)] assms(3) by auto
  moreover have "distinct xs" "distinct ys" using d by (simp_all add: distinct_map)
  ultimately show ?thesis by (simp add: set_eq_iff_mset_eq_distinct)
qed

lemma names_nth [simp]: "j < length (members c) \<Longrightarrow> names c ! j = cfgPodName (oconfig (members c ! j))"
  by (simp add: names_def)

lemma others_count:
  assumes "cluster_ok c" and "i < length (members c)" and "k \<le> length (members c)"
  shows "length (filter (\<lambda>p. kName p \<noteq> names c ! i) (map pod_of (take k (members c)))) =
    length (filter (\<lambda>j. j \<noteq> i) [0..<k])"
  using assms(3)
proof (induction k)
  case (Suc k)
  have "kName (pod_of (members c ! k)) = names c ! i \<longleftrightarrow> k = i"
    using nth_eq_iff_index_eq [of "names c" k i] assms(1,2) Suc.prems by (simp add: cluster_ok_def names_def pod_of_def)
  then show ?case using Suc by (simp add: take_Suc_conv_app_nth)
qed simp

lemma others_before:
  assumes "cluster_ok c" and "i < length (members c)" and "map pod_of (members c) = pre @ p # post"
  shows "length (filter (\<lambda>p. kName p \<noteq> names c ! i) pre) = length (filter (\<lambda>j. j \<noteq> i) [0..<length pre])"
    and "length pre < length (members c)" and "p = pod_of (members c ! length pre)"
proof -
  have "length (map pod_of (members c)) = length (pre @ p # post)" by (simp add: assms(3))
  then show l: "length pre < length (members c)" by simp
  have "pod_of (members c ! length pre) = (pre @ p # post) ! length pre" using l by (simp flip: assms(3))
  then show "p = pod_of (members c ! length pre)" by simp
  have "map pod_of (take (length pre) (members c)) = pre" by (simp flip: take_map add: assms(3))
  then show "length (filter (\<lambda>p. kName p \<noteq> names c ! i) pre) = length (filter (\<lambda>j. j \<noteq> i) [0..<length pre])"
    using others_count [OF assms(1,2), of "length pre"] l by simp
qed

lemma discover_members:
  assumes "cluster_ok c" and "world_ok (length (members c)) i w" and "i < length (members c)" and "asked t = 0"
  shows "\<exists>peers es. discoverAndQueryPeers (members c ! i) (node_env w c i) t = (Ret (Inr peers), es @ t) \<and>
    (\<forall>e \<in> set es. peer_call e) \<and> map_wf peers \<and>
    map_of peers = (map_of (table w c))(names c ! i := None) \<and> x_now (node_env w c i) (es @ t) = w_now w"
proof -
  let ?o = "members c ! i" and ?E = "node_env w c i"
  define self where "self = cfgPodName (oconfig ?o)"
  define g where "g p = the (map_of (table w c) (kName p))" for p :: kube_pod
  define src where "src = map (\<lambda>p. (kName p, g p)) (filter (\<lambda>p. kName p \<noteq> self) (map pod_of (members c)))"
  have self: "self = names c ! i" using assms(3) by (simp add: self_def)
  have gj: "g (pod_of (members c ! j)) = node_state w c j" if "j < length (members c)" for j
    using table_lookup [OF assms(1) that] that by (simp add: g_def pod_of_def)
  have q: "\<exists>es. queryPeer ?o (kPodIP p) ?E t = (Ret (Inr (g p)), es @ t) \<and> (\<forall>e \<in> set es. peer_call e) \<and>
      at_query (Suc (0 + length (filter (\<lambda>p. kName p \<noteq> self) pre))) (es @ t)"
    if "map pod_of (members c) = pre @ p # post" "kName p \<noteq> self"
      "at_query (0 + length (filter (\<lambda>p. kName p \<noteq> self) pre)) t" for pre p post t
  proof -
    note b = others_before [OF assms(1,3) that(1), folded self]
    have "length pre \<noteq> i" using that(2) b(3) assms(3) by (auto simp: self_def pod_of_def)
    moreover have "at_query (length (filter (\<lambda>j. j \<noteq> i) [0..<length pre])) t" using that(3) b(1) by simp
    ultimately show ?thesis
      using query_member [OF assms(1-3) b(2)] gj [OF b(2)] by (simp add: b(1,3) pod_of_def)
  qed
  have run: "\<forall>p \<in> set (map pod_of (members c)). kPhase p = PodRunning" by (auto simp: pod_of_def)
  let ?pl = "PodList (cfgNamespace (oconfig ?o)) (LabelSelector (oconfig ?o))"
  have "at_query 0 (?pl # t)" using assms(4) by (simp add: at_query_def)
  with run self_def have "\<exists>es. query_pods ?o [] (map pod_of (members c)) ?E (?pl # t) =
      (Ret (foldl (\<lambda>m (k, v). map_set k v m) [] (map (\<lambda>p. (kName p, g p)) (filter (\<lambda>p. kName p \<noteq> self) (map pod_of (members c))))),
        es @ ?pl # t) \<and> (\<forall>e \<in> set es. peer_call e) \<and>
      at_query (0 + length (filter (\<lambda>p. kName p \<noteq> self) (map pod_of (members c)))) (es @ ?pl # t)"
    by (intro query_pods_all [where R = at_query]) (rule q)
  then obtain es where es: "query_pods ?o [] (map pod_of (members c)) ?E (?pl # t) =
      (Ret (foldl (\<lambda>m (k, v). map_set k v m) [] src), es @ ?pl # t)" "\<forall>e \<in> set es. peer_call e"
      "at_query (0 + length (filter (\<lambda>p. kName p \<noteq> self) (map pod_of (members c)))) (es @ ?pl # t)"
    unfolding src_def by blast
  have "length (filter (\<lambda>p. kName p \<noteq> self) (map pod_of (members c))) =
      length (filter (\<lambda>j. j \<noteq> i) [0..<length (members c)])"
    using others_count [OF assms(1,3) order_refl] unfolding self by simp
  then have now: "x_now ?E ((es @ [?pl]) @ t) = w_now w"
    using es(3) by (simp add: node_env_def own_clock_def at_query_def)
  have d: "discoverAndQueryPeers ?o ?E t =
      (Ret (Inr (foldl (\<lambda>m (k, v). map_set k v m) [] src)), (es @ [?pl]) @ t)"
    using es(1) by (simp add: discoverAndQueryPeers_def podList_def bnd_def node_env_def)
  have "map (\<lambda>p. (kName p, g p)) (map pod_of (members c)) = table w c"
    by (rule nth_equalityI) (simp_all add: table_def gj, simp add: pod_of_def)
  moreover have "src = filter (\<lambda>kv. fst kv \<noteq> self) (map (\<lambda>p. (kName p, g p)) (map pod_of (members c)))"
    by (simp only: src_def filter_map [where f = "\<lambda>p. (kName p, g p)"] comp_def fst_conv)
  ultimately have src: "src = filter (\<lambda>kv. fst kv \<noteq> self) (table w c)" by simp
  have wf: "map_wf src" unfolding src using table_wf [OF assms(1)] by simp
  have "map_of (foldl (\<lambda>m (k, v). map_set k v m) [] src) k = map_of src k" for k
    unfolding gm.lookup_merge map_of_rev_wf [OF wf] by (simp split: option.splits)
  moreover have "map_of src k = ((map_of (table w c))(names c ! i := None)) k" for k
    unfolding src map_of_filter_wf [OF table_wf [OF assms(1)]]
    using assms(3) by (simp add: self_def split: option.splits)
  ultimately have "map_of (foldl (\<lambda>m (k, v). map_set k v m) [] src) =
      (map_of (table w c))(names c ! i := None)" by (simp add: fun_eq_iff)
  moreover have "map_wf (foldl (\<lambda>m (k, v). map_set k v m) [] src)" by (rule gm.wf_merge) simp
  moreover have "\<forall>e \<in> set (es @ [?pl]). peer_call e" using es(2) by (auto simp: peer_call_def)
  ultimately show ?thesis using d now by blast
qed

lemma update_members:
  assumes "cluster_ok c" and "world_ok (length (members c)) i w" and "i < length (members c)"
    and "map_wf peers" and "map_of peers = (map_of (table w c))(names c ! i := None)"
    and now: "x_now (node_env w c i) t = w_now w"
  shows "\<exists>ps. updatePeerStates (members c ! i) (node_state w c i) peers (node_env w c i) t =
      (Ret ((members c ! i)\<lparr>peerStates := ps\<rparr>), ClockRead # t) \<and>
    map_wf ps \<and> mset ps = mset (table w c)"
proof -
  let ?o = "members c ! i"
  let ?m = "merge_peers ?o (node_state w c i) peers"
  let ?ps = "filter (\<lambda>kv. \<not> stale (cfgPodName (oconfig ?o)) (w_now w) kv) ?m"
  have mo: "member_ok ?o" using assms(1,3) by (rule cluster_okD)
  then have wf: "map_wf ?m" by (intro merge_peers_wf) (simp add: member_ok_def)
  have old: "map_of (peerStates ?o) k = None" if "map_of (table w c) k = None" for k
  proof -
    have "k \<notin> set (names c)" using that by (simp add: map_of_eq_None_iff flip: table_keys [of w c])
    then show ?thesis using cluster_okD(3) [OF assms(1,3)] by (auto simp: map_of_eq_None_iff)
  qed
  have m: "map_of ?m k = map_of (table w c) k" for k
  proof (cases "k = names c ! i")
    case True
    then show ?thesis
      using table_lookup [OF assms(1,3), of w] assms(3)
      by (simp add: lookup_merge_peers [OF assms(4)] assms(5))
  next
    case False
    then show ?thesis
      using assms(3) old [of k]
      by (auto simp: lookup_merge_peers [OF assms(4)] assms(5) split: option.splits)
  qed
  have "map_of ?ps k = map_of (table w c) k" for k
  proof (cases "map_of (table w c) k")
    case (Some st)
    then obtain j where j: "j < length (members c)" "k = names c ! j" "st = node_state w c j"
      by (rule table_Some [OF assms(1)])
    have "j \<noteq> i \<longrightarrow> \<not> LastSeen st < w_now w - 60 * Second"
      using assms(2) j(1,3) by (simp add: world_ok_def node_state_def Let_def)
    then show ?thesis unfolding map_of_filter_wf [OF wf] m Some using j(1,2) assms(3) by (auto simp: stale_def)
  qed (simp add: map_of_filter_wf [OF wf] m)
  then have "mset ?ps = mset (table w c)"
    using wf table_wf [OF assms(1)] by (intro wf_map_of_mset) (auto simp: fun_eq_iff)
  moreover have "updatePeerStates ?o (node_state w c i) peers (node_env w c i) t =
      (Ret (?o\<lparr>peerStates := ?ps\<rparr>), ClockRead # t)"
    using now by (simp add: updatePeerStates_def now_def)
  ultimately show ?thesis using wf by (intro exI [of _ ?ps]) simp
qed

lemma healthy_members:
  assumes "mset ps = mset (table w c)"
  shows "mset (healthy_states (o1\<lparr>peerStates := ps\<rparr>)) = mset (map (node_state w c) [0..<length (members c)])"
proof -
  have "mset (map snd ps) = mset (map snd (table w c))" using assms by simp
  then have "mset (filter IsHealthy (map snd ps)) = mset (filter IsHealthy (map snd (table w c)))" by simp
  moreover have "map snd (table w c) = map (node_state w c) [0..<length (members c)]"
    by (simp add: table_def)
  moreover have "filter IsHealthy (map (node_state w c) js) = map (node_state w c) js" for js
    by (induction js) (simp_all add: node_state_def Let_def)
  ultimately show ?thesis by (simp add: healthy_states_def)
qed

section \<open>The role of Redis after a cycle\<close>

lemma role_after_keep:
  "\<forall>e \<in> set es. \<forall>a. e \<noteq> RedisDo a \<Longrightarrow> role_after m (es @ t) = role_after m t"
proof (induction es)
  case (Cons e es)
  then show ?case by (cases e) auto
qed simp

lemma role_after_modest:
  "\<forall>e \<in> set es. \<not> promote_call e \<Longrightarrow> role_after m (es @ t) \<Longrightarrow> role_after m t"
proof (induction es)
  case (Cons e es)
  then show ?case by (cases e) (auto simp: promote_call_def split: if_splits)
qed simp

lemma perform_role:
  assumes "redisClient o1 = Some cl" and "a = Promote \<longrightarrow> \<not> NoPromote (oconfig o1)"
    and "\<forall>t a. x_redis_do E t a = None" and "a = CheckReplication \<longrightarrow> \<not> role_after m t"
  shows "role_after m (snd (perform o1 l a E t)) =
    (case a of Promote \<Rightarrow> True | Demote \<Rightarrow> False | _ \<Rightarrow> role_after m t)"
proof -
  have lab: "\<exists>es. snd (ensureMasterLabel (oconfig o1) E s) = es @ s \<and> (\<forall>e \<in> set es. \<forall>a. e \<noteq> RedisDo a)" for s
  proof -
    obtain es where "snd (ensureMasterLabel (oconfig o1) E s) = es @ s" "\<forall>e \<in> set es. label_call (oconfig o1) e"
      using emits_ensureMasterLabel unfolding emits_def by blast
    then show ?thesis by (auto simp: label_call_def)
  qed
  show ?thesis
  proof (cases a)
    case Promote
    obtain es where "snd (ensureMasterLabel (oconfig o1) E (RedisDo [''REPLICAOF'', ''NO'', ''ONE''] # t)) =
        es @ RedisDo [''REPLICAOF'', ''NO'', ''ONE''] # t" "\<forall>e \<in> set es. \<forall>a. e \<noteq> RedisDo a"
      using lab by blast
    then show ?thesis
      using Promote assms(2,3) promoteToMaster_run [OF assms(1), of E t] by (simp add: perform_def role_after_keep)
  next
    case Demote
    then show ?thesis
      using demoteToReplica_run [OF assms(1), of E t] by (auto simp: perform_def formatInt_not_ONE)
  next
    case EnsureLabel
    obtain es where "snd (ensureMasterLabel (oconfig o1) E t) = es @ t" "\<forall>e \<in> set es. \<forall>a. e \<noteq> RedisDo a"
      using lab by blast
    then show ?thesis using EnsureLabel by (simp add: perform_def role_after_keep)
  next
    case CheckReplication
    obtain es where "snd (perform o1 l a E t) = es @ t" "\<forall>e \<in> set es. \<not> promote_call e"
      using emits_perform_other [of a o1 l] CheckReplication unfolding emits_def by blast
    then show ?thesis using assms(4) CheckReplication role_after_modest by auto
  qed (simp add: perform_def)
qed

section \<open>The pod that will be master\<close>

definition rk :: "cluster \<Rightarrow> nat \<Rightarrow> rank" where
  "rk c j = Rank (startupTime (members c ! j)) (cfgPodName (oconfig (members c ! j))) (podUID (members c ! j))"

definition master_set :: "cluster \<Rightarrow> nat set" where
  "master_set c = {j. j < length (members c) \<and> masters c ! j}"

text \<open>The least rank among the masters, or among all pods if there is no master.\<close>

definition contenders :: "cluster \<Rightarrow> nat set" where
  "contenders c = (if master_set c = {} then {..<length (members c)} else master_set c)"

definition chosen :: "cluster \<Rightarrow> rank" where
  "chosen c = Min (rk c ` contenders c)"

lemma rk_node_state: "rank_of (node_state w c j) = rk c j"
  by (simp add: rank_of_def node_state_def rk_def Let_def)

lemma uid_inj:
  assumes "cluster_ok c" and "i < length (members c)" and "j < length (members c)"
    and "podUID (members c ! i) = podUID (members c ! j)"
  shows "i = j"
  using nth_eq_iff_index_eq [of "map podUID (members c)" i j] assms by (simp add: cluster_ok_def)

lemma rk_inj: "cluster_ok c \<Longrightarrow> inj_on (rk c) {..<length (members c)}"
  by (rule inj_onI) (auto simp: rk_def intro: uid_inj)

lemma finite_contenders [simp]: "finite (contenders c)" "finite (master_set c)"
  by (simp_all add: contenders_def master_set_def)

lemma contenders_sub: "contenders c \<subseteq> {..<length (members c)}"
  by (auto simp: contenders_def master_set_def)

lemma least_uid_rk:
  assumes "cluster_ok c" and "A \<subseteq> {..<length (members c)}" and "A \<noteq> {}" and "i < length (members c)"
  shows "least_uid (node_state w c ` A) = podUID (members c ! i) \<longleftrightarrow> rk c i = Min (rk c ` A)"
proof -
  have f: "finite (rk c ` A)" using assms(2) finite_subset by auto
  have l: "least_uid (node_state w c ` A) = rank_uid (Min (rk c ` A))"
    by (simp add: least_uid_def image_image rk_node_state)
  obtain k where k: "k \<in> A" "Min (rk c ` A) = rk c k" using Min_in [OF f] assms(3) by auto
  have "k < length (members c)" using k(1) assms(2) by auto
  then show ?thesis
    using uid_inj [OF assms(1) _ assms(4)] inj_onD [OF rk_inj [OF assms(1)]] assms(4)
    unfolding l k(2) by (auto simp: rk_def)
qed

lemma Min_member:
  assumes "cluster_ok c" and "A \<subseteq> {..<length (members c)}" and "A \<noteq> {}" and "i < length (members c)"
    and "rk c i = Min (rk c ` A)"
  shows "i \<in> A"
proof -
  have f: "finite (rk c ` A)" using assms(2) finite_subset by auto
  then have "rk c i \<in> rk c ` A" using Min_in [OF f] assms(3,5) by auto
  then obtain k where "k \<in> A" "rk c i = rk c k" by blast
  then show ?thesis using inj_onD [OF rk_inj [OF assms(1)], of i k] assms(2,4) by auto
qed

lemma master_states:
  "set (filter IsMaster (map (node_state w c) [0..<length (members c)])) = node_state w c ` master_set c"
  by (auto simp: master_set_def node_state_def Let_def)

text \<open>What the cycle of a pod makes of its role, by the decision on the states of all pods.\<close>

definition after_role :: "world \<Rightarrow> cluster \<Rightarrow> nat \<Rightarrow> bool" where
  "after_role w c i =
     (case decide (oconfig (members c ! i)) (podUID (members c ! i)) (node_state w c i)
         (map (node_state w c) [0..<length (members c)]) of
        Promote \<Rightarrow> True | Demote \<Rightarrow> False | _ \<Rightarrow> masters c ! i)"

lemma decide_check: "decide cfg uid l xs = CheckReplication \<Longrightarrow> \<not> IsMaster l"
  by (auto simp: decide_def Let_def split: if_splits)

lemma node_state_sel [simp]:
  "IsMaster (node_state w c i) = masters c ! i" "PodUID (node_state w c i) = podUID (members c ! i)"
  by (simp_all add: node_state_def Let_def)

lemma no_masters: "filter IsMaster (map (node_state w c) [0..<length (members c)]) = [] \<longleftrightarrow> master_set c = {}"
  using master_states [of w c] by (metis image_is_empty set_empty)

lemma winner_uid:
  assumes "cluster_ok c" and "i < length (members c)" and "master_set c = {}"
  shows "least_uid (set (map (node_state w c) [0..<length (members c)])) = podUID (members c ! i) \<longleftrightarrow> rk c i = chosen c"
proof -
  have s: "set (map (node_state w c) [0..<length (members c)]) = node_state w c ` {..<length (members c)}"
    by (simp add: atLeast0LessThan)
  show ?thesis
    unfolding s chosen_def contenders_def
    using least_uid_rk [OF assms(1) order_refl _ assms(2)] assms(2,3) by auto
qed

lemma after_role_chosen:
  assumes "cluster_ok c" and "i < length (members c)" and "\<not> NoPromote (oconfig (members c ! i))"
  shows "after_role w c i \<longleftrightarrow> rk c i = chosen c"
proof -
  let ?S = "map (node_state w c) [0..<length (members c)]"
  let ?ms = "filter IsMaster ?S"
  have mo: "\<not> Standalone (oconfig (members c ! i))"
    using cluster_okD(1) [OF assms(1,2)] by (simp add: member_ok_def)
  have ne: "?S \<noteq> []" using assms(2) by auto
  show ?thesis
  proof (cases "master_set c = {}")
    case True
    have "\<not> masters c ! i" using True assms(2) by (auto simp: master_set_def)
    then show ?thesis
      unfolding after_role_def decide_def Let_def
      using mo ne no_masters True winner_uid [OF assms(1,2) True] assms(3) by (simp del: set_map)
  next
    case False
    have sub: "master_set c \<subseteq> {..<length (members c)}" by (auto simp: master_set_def)
    have u: "least_uid (set ?ms) = podUID (members c ! i) \<longleftrightarrow> rk c i = chosen c"
      unfolding master_states chosen_def contenders_def
      using least_uid_rk [OF assms(1) sub False assms(2)] False by simp
    have "rk c i = chosen c \<longrightarrow> masters c ! i"
      using Min_member [OF assms(1) sub False assms(2)] False
      by (auto simp: chosen_def contenders_def master_set_def)
    then show ?thesis unfolding after_role_def decide_def Let_def
      using mo ne no_masters False u assms(3) by (simp del: set_map set_filter) (metis (full_types))
  qed
qed

text \<open>Without a master, a pod that is not the winner or must not be promoted stays a replica.\<close>

lemma after_role_standby:
  assumes "cluster_ok c" and "i < length (members c)" and "master_set c = {}"
    and "rk c i = chosen c \<longrightarrow> NoPromote (oconfig (members c ! i))"
  shows "\<not> after_role w c i"
proof -
  have "\<not> Standalone (oconfig (members c ! i))"
    using cluster_okD(1) [OF assms(1,2)] by (simp add: member_ok_def)
  moreover have "map (node_state w c) [0..<length (members c)] \<noteq> []" using assms(2) by auto
  moreover have "\<not> masters c ! i" using assms(2,3) by (auto simp: master_set_def)
  ultimately show ?thesis
    unfolding after_role_def decide_def Let_def
    using no_masters assms(3,4) winner_uid [OF assms(1-3)] by (simp del: set_map)
qed

section \<open>One step of the cluster\<close>

lemma node_env_simps:
  "x_now (node_env w c i) = own_clock w (length (members c)) i" "x_redis_ping (node_env w c i) = (\<lambda>t. None)"
  "x_redis_info (node_env w c i) = (\<lambda>t s. Inr (info_text w i (role_after (masters c ! i) t)))"
  "x_redis_do (node_env w c i) = (\<lambda>t a. None)"
  by (simp_all add: node_env_def local_env_def)

lemma reconcile_role:
  assumes "cluster_ok c" and "i < length (members c)" and "mset ps = mset (table w c)"
    and "role_after (masters c ! i) t = masters c ! i"
  shows "\<exists>err t'. reconcile ((members c ! i)\<lparr>peerStates := ps\<rparr>) (node_state w c i) (node_env w c i) t = (Ret err, t') \<and>
    (role_after (masters c ! i) t' \<longleftrightarrow> after_role w c i)"
proof -
  let ?o = "(members c ! i)\<lparr>peerStates := ps\<rparr>" and ?E = "node_env w c i" and ?l = "node_state w c i"
  let ?S = "map (node_state w c) [0..<length (members c)]"
  let ?a = "decide (oconfig ?o) (podUID ?o) ?l ?S"
  have mo: "member_ok (members c ! i)" using assms(1,2) by (rule cluster_okD)
  then obtain cl where cl: "redisClient ?o = Some cl" by (auto simp: member_ok_def)
  have a: "decide (oconfig ?o) (podUID ?o) ?l (healthy_states ?o) = ?a"
    using healthy_members [OF assms(3)] by (rule decide_perm)
  have "same_run (reconcile ?o ?l) (perform ?o ?l (decide (oconfig ?o) (podUID ?o) ?l (healthy_states ?o)))"
    using mo by (intro reconcile_refines) (simp_all add: member_ok_def)
  then have "snd (reconcile ?o ?l ?E t) = snd (perform ?o ?l ?a ?E t)" unfolding a by (simp add: same_run_def)
  moreover have np: "?a = Promote \<longrightarrow> \<not> NoPromote (oconfig ?o)" by (simp add: decide_Promote)
  have cr: "?a = CheckReplication \<longrightarrow> \<not> role_after (masters c ! i) t"
    unfolding assms(4) using decide_check node_state_sel(1) by metis
  have do: "\<forall>t a. x_redis_do ?E t a = None" by (simp add: node_env_simps)
  have "role_after (masters c ! i) (snd (perform ?o ?l ?a ?E t)) \<longleftrightarrow> after_role w c i"
    using perform_role [OF cl np do cr, of ?l] unfolding assms(4) by (simp add: after_role_def)
  moreover have "returns (reconcile ?o ?l)"
    using mo by (intro returns_reconcile) (simp_all add: member_ok_def client_inv_def)
  then obtain err t' where "reconcile ?o ?l ?E t = (Ret err, t')" by (rule returns_obtain)
  ultimately show ?thesis by (metis snd_conv)
qed

lemma sync_member:
  assumes "cluster_ok c" and "world_ok (length (members c)) i w" and "i < length (members c)"
  shows "\<exists>ps err t. syncState (members c ! i) (node_env w c i) [] =
      (Ret ((members c ! i)\<lparr>peerStates := ps\<rparr>, err), t) \<and>
    map_wf ps \<and> mset ps = mset (table w c) \<and> (role_after (masters c ! i) t \<longleftrightarrow> after_role w c i)"
proof -
  let ?o = "members c ! i" and ?E = "node_env w c i"
  let ?t0 = "[ClockRead, RedisPing, RedisInfo ''replication'']"
  have ls: "getLocalState ?o ?E [] = (Ret (Inr (node_state w c i)), ?t0)"
    using local_state_of [OF assms(2,1,3), of "[]" ?E] by (simp add: node_env_simps own_clock_def)
  have "asked ?t0 = 0" by simp
  then obtain peers es where p: "discoverAndQueryPeers ?o ?E ?t0 = (Ret (Inr peers), es @ ?t0)"
      "\<forall>e \<in> set es. peer_call e" "map_wf peers" "map_of peers = (map_of (table w c))(names c ! i := None)"
      "x_now ?E (es @ ?t0) = w_now w"
    using discover_members [OF assms] by blast
  obtain ps where ps: "updatePeerStates ?o (node_state w c i) peers ?E (es @ ?t0) =
      (Ret (?o\<lparr>peerStates := ps\<rparr>), ClockRead # es @ ?t0)" "map_wf ps" "mset ps = mset (table w c)"
    using update_members [OF assms p(3,4,5)] by blast
  have "\<forall>e \<in> set (ClockRead # es @ ?t0). \<forall>a. e \<noteq> RedisDo a" using p(2) by (auto simp: peer_call_def)
  then have r: "role_after (masters c ! i) (ClockRead # es @ ?t0) = masters c ! i"
    using role_after_keep [of "ClockRead # es @ ?t0" "masters c ! i" "[]"] by simp
  obtain err t' where rec: "reconcile (?o\<lparr>peerStates := ps\<rparr>) (node_state w c i) ?E (ClockRead # es @ ?t0) = (Ret err, t')"
      "role_after (masters c ! i) t' \<longleftrightarrow> after_role w c i"
    using reconcile_role [OF assms(1,3) ps(3) r] by blast
  have "syncState ?o ?E [] = (Ret (?o\<lparr>peerStates := ps\<rparr>, err), t')"
    using ls p(1) ps(1) rec(1) by (simp add: syncState_def bnd_def)
  then show ?thesis using ps(2,3) rec(2) by blast
qed

lemma step_member:
  assumes "cluster_ok c" and "world_ok (length (members c)) i w" and "i < length (members c)"
  obtains ps where "cluster_step w c i =
      c\<lparr>members := (members c)[i := (members c ! i)\<lparr>peerStates := ps\<rparr>],
        masters := (masters c)[i := after_role w c i]\<rparr>"
    and "map_wf ps" and "mset ps = mset (table w c)"
proof -
  obtain ps err t where s: "syncState (members c ! i) (node_env w c i) [] =
      (Ret ((members c ! i)\<lparr>peerStates := ps\<rparr>, err), t)" "map_wf ps" "mset ps = mset (table w c)"
      "role_after (masters c ! i) t \<longleftrightarrow> after_role w c i"
    using sync_member [OF assms] by blast
  then show thesis by (intro that [of ps]) (simp_all add: cluster_step_def)
qed

lemma update_peers_maps:
  assumes "\<And>o1. f (o1\<lparr>peerStates := ps\<rparr>) = f o1"
  shows "map f (xs[i := (xs ! i)\<lparr>peerStates := ps\<rparr>]) = map f xs"
  by (cases "i < length xs") (simp_all add: map_update assms list_update_beyond, metis list_update_id nth_map)

lemma step_effect:
  assumes "cluster_ok c" and "world_ok (length (members c)) i w" and "i < length (members c)"
  defines "c' \<equiv> cluster_step w c i"
  shows "cluster_ok c'" and "length (members c') = length (members c)" and "rk c' = rk c"
    and "map oconfig (members c') = map oconfig (members c)" and "masters c' ! i \<longleftrightarrow> after_role w c i"
proof -
  obtain ps where c': "c' = c\<lparr>members := (members c)[i := (members c ! i)\<lparr>peerStates := ps\<rparr>],
        masters := (masters c)[i := after_role w c i]\<rparr>"
    and wf: "map_wf ps" and ps: "mset ps = mset (table w c)"
    unfolding c'_def by (rule step_member [OF assms(1-3)])
  have len: "length (masters c) = length (members c)" using assms(1) by (simp add: cluster_ok_def)
  show "length (members c') = length (members c)" "masters c' ! i \<longleftrightarrow> after_role w c i"
    "map oconfig (members c') = map oconfig (members c)"
    using assms(3) len by (simp_all add: c' update_peers_maps)
  have nth: "f (members c' ! j) = f (members c ! j)" if "\<And>o1. f (o1\<lparr>peerStates := ps\<rparr>) = f o1"
    for f :: "orchestrator \<Rightarrow> 'x" and j
    using that by (cases "j = i") (simp_all add: c' assms(3))
  show "rk c' = rk c" by (rule ext) (simp add: rk_def nth [of startupTime] nth [of podUID]
      nth [of "\<lambda>o1. cfgPodName (oconfig o1)"])
  have maps: "names c' = names c" "map podUID (members c') = map podUID (members c)"
    "map podIP (members c') = map podIP (members c)" "map authn (members c') = map authn (members c)"
    by (simp_all add: c' names_def update_peers_maps)
  have keys: "fst ` set ps \<subseteq> set (names c)"
    using mset_eq_setD [OF ps] by (simp flip: table_keys [of w c])
  have ne: "members c' \<noteq> []" using assms(1) by (simp add: c' cluster_ok_def)
  have hd: "authn (hd (members c')) = authn (hd (members c))"
    using maps(4) ne assms(1) by (metis cluster_ok_def hd_map)
  have mem: "member_ok o2 \<and> authn o2 = authn (hd (members c')) \<and> fst ` set (peerStates o2) \<subseteq> set (names c')"
    if o2: "o2 \<in> set (members c')" for o2
  proof -
    from o2 have "o2 = (members c ! i)\<lparr>peerStates := ps\<rparr> \<or> o2 \<in> set (members c)"
      using set_update_subset_insert [of "members c" i] by (auto simp: c')
    then show ?thesis
    proof
      assume "o2 = (members c ! i)\<lparr>peerStates := ps\<rparr>"
      then show ?thesis
        using cluster_okD(1,2) [OF assms(1,3)] wf keys unfolding hd maps by (simp add: member_ok_def)
    next
      assume "o2 \<in> set (members c)"
      then show ?thesis using assms(1) unfolding hd maps cluster_ok_def by blast
    qed
  qed
  have "length (masters c') = length (members c')" using len by (simp add: c')
  then show "cluster_ok c'"
    unfolding cluster_ok_def maps using ne mem assms(1) unfolding maps cluster_ok_def by blast
qed

text \<open>
  A pod that decides on roles that may be out of date still comes to the same decision, as
  long as the masters it sees are initial masters or the chosen pod, and the chosen pod is
  seen as a master if it was one from the start.
\<close>

definition fits :: "cluster \<Rightarrow> nat \<Rightarrow> bool \<Rightarrow> bool" where
  "fits c j b \<longleftrightarrow> (b \<longrightarrow> j \<in> master_set c \<or> rk c j = chosen c) \<and>
     (master_set c \<noteq> {} \<longrightarrow> rk c j = chosen c \<longrightarrow> b)"

definition settled :: "cluster \<Rightarrow> (nat \<Rightarrow> bool) \<Rightarrow> bool" where
  "settled c v \<longleftrightarrow> (\<forall>j < length (members c). fits c j (v j))"

lemma chosen_index:
  assumes "cluster_ok c"
  obtains k where "k < length (members c)" and "rk c k = chosen c" and "k \<in> contenders c"
    and "\<And>j. j < length (members c) \<Longrightarrow> rk c j = chosen c \<longleftrightarrow> j = k"
proof -
  have ne: "contenders c \<noteq> {}" using assms by (auto simp: contenders_def cluster_ok_def)
  have "chosen c \<in> rk c ` contenders c" unfolding chosen_def using ne by (intro Min_in) auto
  then obtain k where k: "k \<in> contenders c" "chosen c = rk c k" by blast
  have "k < length (members c)" using k(1) contenders_sub by auto
  then show thesis using k inj_onD [OF rk_inj [OF assms]] by (intro that [of k]) auto
qed

lemma chosen_settled:
  assumes "cluster_ok c" and "rk c' = rk c" and "length (members c') = length (members c)"
    and "settled c (\<lambda>j. masters c' ! j)"
  shows "chosen c' = chosen c"
proof -
  obtain k where k: "k < length (members c)" "rk c k = chosen c" "k \<in> contenders c"
    "\<And>j. j < length (members c) \<Longrightarrow> rk c j = chosen c \<longleftrightarrow> j = k"
    using chosen_index [OF assms(1)] by blast
  have sub: "master_set c' \<subseteq> insert k (master_set c)"
    using assms(3,4) k(4) by (auto simp: settled_def fits_def master_set_def)
  show ?thesis
  proof (cases "master_set c = {}")
    case True
    then have "master_set c' = {} \<or> master_set c' = {k}" using sub by auto
    then show ?thesis
    proof
      assume "master_set c' = {}"
      then show ?thesis using True assms(2,3) by (simp add: chosen_def contenders_def)
    next
      assume "master_set c' = {k}"
      then show ?thesis using k(2) assms(2) by (simp add: chosen_def [of c'] contenders_def)
    qed
  next
    case False
    have km: "k \<in> master_set c" using k(3) False by (simp add: contenders_def)
    have k': "k \<in> master_set c'" using assms(3,4) k False by (simp add: settled_def fits_def master_set_def)
    have ch: "chosen c = Min (rk c ` master_set c)" using False by (simp add: chosen_def contenders_def)
    have "master_set c' \<subseteq> master_set c" using sub km by auto
    then have "\<forall>x \<in> rk c ` master_set c'. chosen c \<le> x" unfolding ch by auto
    moreover have "chosen c \<in> rk c ` master_set c'" using k' k(2) by (metis image_eqI)
    moreover have "finite (master_set c')" by (simp add: master_set_def)
    ultimately have "Min (rk c ` master_set c') = chosen c" by (intro Min_eqI) auto
    then show ?thesis using k' assms(2) by (auto simp: chosen_def [of c'] contenders_def)
  qed
qed

lemma settled_start: "cluster_ok c \<Longrightarrow> settled c (\<lambda>j. masters c ! j)"
proof -
  assume ok: "cluster_ok c"
  have sub: "master_set c \<subseteq> {..<length (members c)}" by (auto simp: master_set_def)
  have "j \<in> master_set c" if "j < length (members c)" "rk c j = chosen c" "master_set c \<noteq> {}" for j
  proof -
    have "rk c j = Min (rk c ` master_set c)" using that(2,3) by (simp add: chosen_def contenders_def)
    then show ?thesis using Min_member [OF ok sub that(3,1)] by simp
  qed
  then show ?thesis by (auto simp: settled_def fits_def master_set_def)
qed

end
