(* ===== verification/Overlap.thy ===== *)
theory Overlap
  imports Cluster
begin

text \<open>
  Overlapping sync cycles. A pod asks the others one by one while they run cycles of their own,
  so that it decides on roles that were never true together. The steps below split a cycle into
  its start, each question to a peer, and its end; the theorems hold for every interleaving of
  them, within the limits of the steps: no pod, Redis or network fails, every request is
  accepted by the peer's clock, and no answer is more than 60 seconds old, by the clocks of the
  two pods, when the pod that collected it updates its table.
\<close>

section \<open>The steps\<close>

text \<open>
  Beside the cluster, the answers each pod has collected in its current cycle: the role of the
  peer, the clock of the asking pod when it signed the request, and the clock of the peer when
  it answered, which is the \<^verbatim>\<open>LastSeen\<close> of the answer.
\<close>

type_synonym answer = "bool \<times> instant \<times> instant"

record system =
  sys_cluster :: cluster
  seen :: "nat \<Rightarrow> nat \<Rightarrow> answer option"

datatype move = Begin nat | Observe nat nat instant instant | Finish world nat

definition start :: "cluster \<Rightarrow> system" where
  "start c = \<lparr>sys_cluster = c, seen = (\<lambda>i j. None)\<rparr>"

text \<open>The cluster as pod \<open>i\<close> has seen it: its own role and the roles in the answers.\<close>

definition viewed :: "system \<Rightarrow> nat \<Rightarrow> cluster" where
  "viewed s i = (sys_cluster s)\<lparr>masters :=
     map (\<lambda>j. if j = i then masters (sys_cluster s) ! i
               else case seen s i j of Some (m, _, _) \<Rightarrow> m | None \<Rightarrow> False)
       [0..<length (members (sys_cluster s))]\<rparr>"

text \<open>The conditions of a cycle with the recorded times of its questions and answers.\<close>

definition stamped :: "system \<Rightarrow> nat \<Rightarrow> world \<Rightarrow> world" where
  "stamped s i w = w\<lparr>
     w_asks := \<lambda>j. case seen s i j of Some (_, a, _) \<Rightarrow> a | None \<Rightarrow> w_asks w j,
     w_clock := \<lambda>j. case seen s i j of Some (_, _, n) \<Rightarrow> n | None \<Rightarrow> w_clock w j\<rparr>"

text \<open>
  The last step of a cycle runs the modelled \<^verbatim>\<open>syncState\<close> against peers that answer as they did
  when they were asked, with the role and the clock of that moment; the clock of the pod itself
  has moved on to \<open>w_now w\<close> when it updates its table.
\<close>

definition finish :: "world \<Rightarrow> system \<Rightarrow> nat \<Rightarrow> system" where
  "finish w s i =
     (let c = sys_cluster s; c' = cluster_step (stamped s i w) (viewed s i) i
      in \<lparr>sys_cluster = c\<lparr>members := members c', masters := (masters c)[i := masters c' ! i]\<rparr>,
          seen = (seen s)(i := (\<lambda>j. None))\<rparr>)"

inductive sys_step :: "system \<Rightarrow> move \<Rightarrow> system \<Rightarrow> bool" where
  step_begin: "i < length (members (sys_cluster s)) \<Longrightarrow>
    sys_step s (Begin i) (s\<lparr>seen := (seen s)(i := (\<lambda>j. None))\<rparr>)"
| step_observe: "i < length (members (sys_cluster s)) \<Longrightarrow> j < length (members (sys_cluster s)) \<Longrightarrow> j \<noteq> i \<Longrightarrow>
    sys_step s (Observe i j a n)
      (s\<lparr>seen := (seen s)(i := (seen s i)(j := Some (masters (sys_cluster s) ! j, a, n)))\<rparr>)"
| step_finish: "i < length (members (sys_cluster s)) \<Longrightarrow>
    \<forall>j < length (members (sys_cluster s)). j \<noteq> i \<longrightarrow> seen s i j \<noteq> None \<Longrightarrow>
    world_ok (length (members (sys_cluster s))) i (stamped s i w) \<Longrightarrow>
    sys_step s (Finish w i) (finish w s i)"

inductive sys_run :: "system \<Rightarrow> move list \<Rightarrow> system \<Rightarrow> bool" for s where
  run_nil: "sys_run s [] s"
| run_snoc: "sys_run s ms s' \<Longrightarrow> sys_step s' m s'' \<Longrightarrow> sys_run s (ms @ [m]) s''"

inductive_cases sys_step_cases: "sys_step s m s'"

definition finished :: "move list \<Rightarrow> nat set" where
  "finished ms = {i. \<exists>w. Finish w i \<in> set ms}"

lemma finished_simps [simp]:
  "finished [] = {}" "finished (ms @ ms') = finished ms \<union> finished ms'"
  "finished (Begin i # ms) = finished ms" "finished (Observe i j a n # ms) = finished ms"
  "finished (Finish w i # ms) = insert i (finished ms)"
  by (auto simp: finished_def)

section \<open>What every step keeps\<close>

definition sys_frame :: "cluster \<Rightarrow> system \<Rightarrow> bool" where
  "sys_frame c s \<longleftrightarrow> cluster_ok (sys_cluster s) \<and>
     length (members (sys_cluster s)) = length (members c) \<and> rk (sys_cluster s) = rk c \<and>
     map oconfig (members (sys_cluster s)) = map oconfig (members c)"

text \<open>Clusters without a standby pod.\<close>

definition promotable :: "cluster \<Rightarrow> bool" where
  "promotable c \<longleftrightarrow> (\<forall>o1 \<in> set (members c). \<not> NoPromote (oconfig o1))"

lemma cluster_ok_masters:
  assumes "cluster_ok c" and "length ms = length (members c)"
  shows "cluster_ok (c\<lparr>masters := ms\<rparr>)"
proof -
  have s: "members (c\<lparr>masters := ms\<rparr>) = members c" "masters (c\<lparr>masters := ms\<rparr>) = ms" by simp_all
  show ?thesis unfolding cluster_ok_def names_def s using assms unfolding cluster_ok_def names_def by blast
qed

lemma rk_masters [simp]: "rk (c\<lparr>masters := ms\<rparr>) = rk c"
  by (simp add: rk_def fun_eq_iff)

lemma rk_members: "members c = members c' \<Longrightarrow> rk c = rk c'"
  by (simp add: rk_def fun_eq_iff)

lemma viewed_simps [simp]: "members (viewed s i) = members (sys_cluster s)" "rk (viewed s i) = rk (sys_cluster s)"
  by (simp_all add: viewed_def)

lemma viewed_frame:
  assumes "sys_frame c s"
  shows "cluster_ok (viewed s i)" and "length (members (viewed s i)) = length (members c)"
    and "rk (viewed s i) = rk c" and "map oconfig (members (viewed s i)) = map oconfig (members c)"
proof -
  show "cluster_ok (viewed s i)"
    using assms unfolding viewed_def sys_frame_def by (intro cluster_ok_masters) simp_all
qed (use assms in \<open>simp_all add: sys_frame_def\<close>)

lemma finish_effect:
  assumes "sys_frame c s" and "i < length (members c)" and "world_ok (length (members c)) i (stamped s i w)"
  shows "sys_frame c (finish w s i)"
    and "j < length (members c) \<Longrightarrow> masters (sys_cluster (finish w s i)) ! j \<longleftrightarrow>
      (if j = i then after_role (stamped s i w) (viewed s i) i else masters (sys_cluster s) ! j)"
proof -
  let ?c = "sys_cluster s" and ?c' = "cluster_step (stamped s i w) (viewed s i) i"
  let ?r = "sys_cluster (finish w s i)"
  note v = viewed_frame [OF assms(1), of i]
  have lm: "length (masters ?c) = length (members c)"
    using assms(1) by (simp add: sys_frame_def cluster_ok_def)
  have "world_ok (length (members (viewed s i))) i (stamped s i w)" "i < length (members (viewed s i))"
    using assms(2,3) v(2) by simp_all
  note eff = step_effect [OF v(1) this]
  have r: "?r = ?c\<lparr>members := members ?c', masters := (masters ?c)[i := masters ?c' ! i]\<rparr>"
    by (simp add: finish_def Let_def)
  have "?r = ?c'\<lparr>masters := (masters ?c)[i := masters ?c' ! i]\<rparr>" by (simp add: r)
  then have "cluster_ok ?r" using eff(1,2) lm v(2) by (simp add: cluster_ok_masters)
  moreover have "rk ?r = rk c" using eff(3) v(3) rk_members [of ?r ?c'] r by simp
  moreover have "length (members ?r) = length (members c)" using eff(2) v(2) r by simp
  moreover have "map oconfig (members ?r) = map oconfig (members c)" using eff(4) v(4) r by simp
  ultimately show "sys_frame c (finish w s i)" by (simp add: sys_frame_def)
  show "masters ?r ! j \<longleftrightarrow> (if j = i then after_role (stamped s i w) (viewed s i) i else masters ?c ! j)"
    if "j < length (members c)"
    using that lm eff(5) by (simp add: r)
qed

lemma viewed_config:
  assumes "sys_frame c s" and "i < length (members c)"
  shows "oconfig (members (viewed s i) ! i) = oconfig (members c ! i)"
  using assms nth_map [of i "members (viewed s i)" oconfig] viewed_frame(2,4) [OF assms(1)] by (metis nth_map)

lemma frame_start: "cluster_ok c \<Longrightarrow> sys_frame c (start c)"
  by (simp add: sys_frame_def start_def)

lemma frame_len: "sys_frame c s \<Longrightarrow> length (members (sys_cluster s)) = length (members c)"
  by (simp add: sys_frame_def)

lemma frame_seen [simp]: "sys_frame c (s\<lparr>seen := f\<rparr>) = sys_frame c s"
  by (simp add: sys_frame_def)

lemma sys_run_frame:
  assumes "sys_run (start c) ms s" and "cluster_ok c"
  shows "sys_frame c s"
  using assms
proof (induction rule: sys_run.induct)
  case (run_snoc ms s' m s'')
  then have "sys_frame c s'" by simp
  with run_snoc.hyps(2) show ?case
    by (cases rule: sys_step.cases) (simp_all add: frame_len finish_effect)
qed (simp add: frame_start)

section \<open>The invariant of a cluster without standby pods\<close>

definition sys_inv :: "cluster \<Rightarrow> nat set \<Rightarrow> system \<Rightarrow> bool" where
  "sys_inv c D s \<longleftrightarrow> sys_frame c s \<and> settled c (\<lambda>j. masters (sys_cluster s) ! j) \<and>
     (\<forall>i j m a n. seen s i j = Some (m, a, n) \<longrightarrow> fits c j m) \<and>
     (\<forall>i \<in> D. masters (sys_cluster s) ! i \<longleftrightarrow> rk c i = chosen c)"

lemma sys_inv_start: "cluster_ok c \<Longrightarrow> sys_inv c {} (start c)"
  by (simp add: sys_inv_def frame_start) (simp add: start_def settled_start)

lemma viewed_masters:
  assumes "j < length (members (sys_cluster s))"
  shows "masters (viewed s i) ! j = (if j = i then masters (sys_cluster s) ! i
    else case seen s i j of Some (m, _, _) \<Rightarrow> m | None \<Rightarrow> False)"
  using assms by (simp add: viewed_def)

lemma viewed_settled:
  assumes "sys_inv c D s" and "i < length (members c)"
    and "\<forall>j < length (members c). j \<noteq> i \<longrightarrow> seen s i j \<noteq> None"
  shows "settled c (\<lambda>j. masters (viewed s i) ! j)"
proof -
  have len: "length (members (sys_cluster s)) = length (members c)"
    using assms(1) by (simp add: sys_inv_def frame_len)
  have "fits c j (masters (viewed s i) ! j)" if "j < length (members c)" for j
  proof (cases "j = i")
    case True
    then show ?thesis using assms(1) that len by (simp add: sys_inv_def viewed_masters settled_def)
  next
    case False
    then have "seen s i j \<noteq> None" using assms(3) that by blast
    then obtain m a n where e: "seen s i j = Some (m, a, n)" by auto
    then have "fits c j m" using assms(1) unfolding sys_inv_def by blast
    then show ?thesis using that False len e by (simp add: viewed_masters)
  qed
  then show ?thesis by (simp add: settled_def)
qed

lemma sys_inv_finish:
  assumes "cluster_ok c" and "promotable c" and inv: "sys_inv c D s" and "i < length (members c)"
    and "\<forall>j < length (members c). j \<noteq> i \<longrightarrow> seen s i j \<noteq> None"
    and "world_ok (length (members c)) i (stamped s i w)"
  shows "sys_inv c (insert i D) (finish w s i)"
proof -
  let ?r = "sys_cluster (finish w s i)"
  have f: "sys_frame c s" using inv by (simp add: sys_inv_def)
  note v = viewed_frame [OF f, of i]
  have i: "i < length (members (viewed s i))" using assms(4) v(2) by simp
  have "chosen (viewed s i) = chosen c"
    using assms(1) v(2,3) viewed_settled [OF inv assms(4,5)] by (intro chosen_settled) simp_all
  moreover have "\<not> NoPromote (oconfig (members (viewed s i) ! i))"
    unfolding viewed_config [OF f assms(4)] using assms(2,4) by (simp add: promotable_def)
  ultimately have role: "after_role (stamped s i w) (viewed s i) i \<longleftrightarrow> rk c i = chosen c"
    using after_role_chosen [OF v(1) i] v(3) by simp
  have m: "masters ?r ! j \<longleftrightarrow> (if j = i then rk c i = chosen c else masters (sys_cluster s) ! j)"
    if "j < length (members c)" for j
    using finish_effect(2) [OF f assms(4,6) that] role by simp
  then have "settled c (\<lambda>j. masters ?r ! j)"
    using inv by (simp add: sys_inv_def settled_def fits_def)
  moreover have "masters ?r ! j \<longleftrightarrow> rk c j = chosen c" if "j \<in> insert i D" for j
  proof (cases "j < length (members c)")
    case True
    then show ?thesis using that m inv by (cases "j = i") (simp_all add: sys_inv_def)
  next
    case False
    then have "j \<noteq> i" "j \<in> D" using that assms(4) by auto
    then show ?thesis using inv by (simp add: sys_inv_def finish_def Let_def)
  qed
  moreover have "\<forall>a j m x n. seen (finish w s i) a j = Some (m, x, n) \<longrightarrow> fits c j m"
    using inv by (simp add: sys_inv_def finish_def Let_def)
  ultimately show ?thesis using finish_effect(1) [OF f assms(4,6)] by (simp add: sys_inv_def)
qed

lemma sys_run_inv:
  assumes "sys_run (start c) ms s" and "cluster_ok c" and "promotable c"
  shows "sys_inv c (finished ms) s"
  using assms
proof (induction rule: sys_run.induct)
  case run_nil
  then show ?case by (simp add: sys_inv_start)
next
  case (run_snoc ms s' m s'')
  then have inv: "sys_inv c (finished ms) s'" by simp
  then have len: "length (members (sys_cluster s')) = length (members c)" by (simp add: sys_inv_def frame_len)
  from run_snoc.hyps(2) show ?case
  proof (cases rule: sys_step.cases)
    case (step_begin i)
    then show ?thesis using inv by (simp add: sys_inv_def)
  next
    case (step_observe i j a n)
    then show ?thesis using inv len by (auto simp: sys_inv_def settled_def)
  next
    case (step_finish i w)
    then show ?thesis using sys_inv_finish [OF run_snoc.prems inv] len by simp
  qed
qed

section \<open>The invariant of a cluster whose oldest pod is on standby\<close>

definition standby_inv :: "cluster \<Rightarrow> system \<Rightarrow> bool" where
  "standby_inv c s \<longleftrightarrow> sys_frame c s \<and> (\<forall>j < length (members c). \<not> masters (sys_cluster s) ! j) \<and>
     (\<forall>i j a n. seen s i j \<noteq> Some (True, a, n))"

lemma standby_inv_finish:
  assumes inv: "standby_inv c s" and "i < length (members c)"
    and "world_ok (length (members c)) i (stamped s i w)" and "master_set c = {}"
    and "rk c i = chosen c \<longrightarrow> NoPromote (oconfig (members c ! i))"
  shows "standby_inv c (finish w s i)"
proof -
  have f: "sys_frame c s" using inv by (simp add: standby_inv_def)
  note v = viewed_frame [OF f, of i]
  have len: "length (members (sys_cluster s)) = length (members c)" using f by (rule frame_len)
  have i: "i < length (members (viewed s i))" using assms(2) v(2) by simp
  have none: "master_set (viewed s i) = {}"
  proof -
    have "\<not> (case seen s i j of Some (m, _, _) \<Rightarrow> m | None \<Rightarrow> False)" for j
      using inv unfolding standby_inv_def by (auto split: option.splits)
    then show ?thesis using inv assms(2) len by (auto simp: master_set_def viewed_masters standby_inv_def)
  qed
  then have "chosen (viewed s i) = chosen c"
    using v(2,3) assms(4) by (simp add: chosen_def contenders_def)
  then have "\<not> after_role (stamped s i w) (viewed s i) i"
    using assms(5) v(3) viewed_config [OF f assms(2)] by (intro after_role_standby [OF v(1) i none]) simp
  then have "\<forall>j < length (members c). \<not> masters (sys_cluster (finish w s i)) ! j"
    using finish_effect(2) [OF f assms(2,3)] inv by (simp add: standby_inv_def)
  moreover have "\<forall>a j x n. seen (finish w s i) a j \<noteq> Some (True, x, n)"
    using inv by (simp add: standby_inv_def finish_def Let_def)
  ultimately show ?thesis using finish_effect(1) [OF f assms(2,3)] by (simp add: standby_inv_def)
qed

lemma sys_run_standby:
  assumes "sys_run (start c) ms s" and "cluster_ok c" and "master_set c = {}"
    and "\<forall>j < length (members c). rk c j = chosen c \<longrightarrow> NoPromote (oconfig (members c ! j))"
  shows "standby_inv c s"
  using assms
proof (induction rule: sys_run.induct)
  case run_nil
  have "sys_frame c (start c)" using run_nil.prems(1) by (rule frame_start)
  then show ?case using run_nil.prems(2) by (auto simp: standby_inv_def start_def master_set_def)
next
  case (run_snoc ms s' m s'')
  then have inv: "standby_inv c s'" by simp
  then have len: "length (members (sys_cluster s')) = length (members c)" by (simp add: standby_inv_def frame_len)
  from run_snoc.hyps(2) show ?case
  proof (cases rule: sys_step.cases)
    case (step_begin i)
    then show ?thesis using inv by (simp add: standby_inv_def)
  next
    case (step_observe i j a n)
    then show ?thesis using inv len by (auto simp: standby_inv_def)
  next
    case (step_finish i w)
    then show ?thesis using standby_inv_finish [OF inv] run_snoc.prems len by simp
  qed
qed

section \<open>Every cycle can complete\<close>

lemma observe_all:
  assumes "sys_run s0 ms s" and "i < length (members (sys_cluster s))" and "k \<le> length (members (sys_cluster s))"
  shows "\<exists>ms' s'. sys_run s0 (ms @ ms') s' \<and> sys_cluster s' = sys_cluster s \<and>
    (\<forall>j < k. j \<noteq> i \<longrightarrow> (\<exists>m. seen s' i j = Some (m, 0, 0)))"
  using assms(3)
proof (induction k)
  case 0
  show ?case using assms(1) by (intro exI [of _ "[]"] exI [of _ s]) simp
next
  case (Suc k)
  then obtain ms' s' where r: "sys_run s0 (ms @ ms') s'" "sys_cluster s' = sys_cluster s"
    "\<forall>j < k. j \<noteq> i \<longrightarrow> (\<exists>m. seen s' i j = Some (m, 0, 0))" by auto
  show ?case
  proof (cases "k = i")
    case True
    then show ?thesis using r less_Suc_eq by blast
  next
    case False
    let ?s = "s'\<lparr>seen := (seen s')(i := (seen s' i)(k := Some (masters (sys_cluster s') ! k, 0, 0)))\<rparr>"
    have "sys_step s' (Observe i k 0 0) ?s" using assms(2) Suc.prems r(2) False by (intro step_observe) simp_all
    with r(1) have "sys_run s0 ((ms @ ms') @ [Observe i k 0 0]) ?s" by (rule run_snoc)
    then have "sys_run s0 (ms @ (ms' @ [Observe i k 0 0])) ?s" by simp
    moreover have "\<forall>j < Suc k. j \<noteq> i \<longrightarrow> (\<exists>m. seen ?s i j = Some (m, 0, 0))" using r(3) by (simp add: less_Suc_eq)
    moreover have "sys_cluster ?s = sys_cluster s" using r(2) by simp
    ultimately show ?thesis by blast
  qed
qed

lemma finish_next:
  assumes "cluster_ok c" and "sys_run (start c) ms s" and "i < length (members c)"
  shows "\<exists>ms' s'. sys_run (start c) (ms @ ms') s' \<and> i \<in> finished ms'"
proof -
  let ?w = "\<lparr>w_base = dead_env, w_clock = (\<lambda>j. 0), w_asks = (\<lambda>j. 0), w_now = 0, w_extra = (\<lambda>j. [])\<rparr>"
  have len: "length (members (sys_cluster s)) = length (members c)"
    using sys_run_frame [OF assms(2,1)] by (rule frame_len)
  obtain ms' s' where r: "sys_run (start c) (ms @ ms') s'" "sys_cluster s' = sys_cluster s"
    "\<forall>j < length (members c). j \<noteq> i \<longrightarrow> (\<exists>m. seen s' i j = Some (m, 0, 0))"
    using observe_all [OF assms(2), of i "length (members c)"] assms(3) len by auto
  have "world_ok (length (members c)) i (stamped s' i ?w)"
    using r(3) by (fastforce simp: world_ok_def stamped_def clocks_close_def inInt64_def Second_def)
  moreover have "\<forall>j < length (members c). j \<noteq> i \<longrightarrow> seen s' i j \<noteq> None" using r(3) by fastforce
  ultimately have "sys_step s' (Finish ?w i) (finish ?w s' i)"
    using r(2) len assms(3) by (intro step_finish) simp_all
  with r(1) have "sys_run (start c) ((ms @ ms') @ [Finish ?w i]) (finish ?w s' i)" by (rule run_snoc)
  then have "sys_run (start c) (ms @ (ms' @ [Finish ?w i])) (finish ?w s' i)" by simp
  moreover have "i \<in> finished (ms' @ [Finish ?w i])" by simp
  ultimately show ?thesis by blast
qed

text \<open>No interleaving is a dead end: from every reachable state all pods can complete another cycle.\<close>

lemma cycles_complete:
  assumes "cluster_ok c" and "sys_run (start c) ms s"
  shows "\<exists>ms' s'. sys_run (start c) (ms @ ms') s' \<and> {..<length (members c)} \<subseteq> finished ms'"
proof -
  have "\<exists>ms' s'. sys_run (start c) (ms @ ms') s' \<and> {..<k} \<subseteq> finished ms'" if "k \<le> length (members c)" for k
    using that
  proof (induction k)
    case 0
    then show ?case using assms(2) by (intro exI [of _ "[]"] exI [of _ s]) simp
  next
    case (Suc k)
    then obtain ms' s' where r: "sys_run (start c) (ms @ ms') s'" "{..<k} \<subseteq> finished ms'" by auto
    have "k < length (members c)" using Suc.prems by simp
    then obtain ms'' s'' where r': "sys_run (start c) ((ms @ ms') @ ms'') s''" "k \<in> finished ms''"
      using finish_next [OF assms(1) r(1)] by blast
    have "{..<Suc k} \<subseteq> finished (ms' @ ms'')" using r(2) r'(2) by (auto simp: lessThan_Suc)
    with r'(1) show ?case by (intro exI [of _ "ms' @ ms''"] exI [of _ s'']) simp
  qed
  then show ?thesis by simp
qed

section \<open>The theorems\<close>

text \<open>
  C1. Convergence in deterministic mode, for clusters without standby, witness or debug pods,
  with the sync cycles of the pods overlapping in any way. As long as no pod, Redis or network
  connection fails, the pods accept each other's requests, and no answer is more than 60 seconds
  old by the clocks of the two pods when it is used: once every pod has completed a cycle,
  exactly one is master, and it is the one that \<open>chosen\<close> names from the initial state (the
  oldest master, or the oldest pod if none was master). Further cycles keep it. Moreover every
  run, wherever it stands, can be continued so that each pod completes one more cycle.
\<close>

theorem overlapped_converges:
  assumes "cluster_ok c" and "promotable c" and "sys_run (start c) ms s"
  shows "({..<length (members c)} \<subseteq> finished ms \<longrightarrow>
      (\<exists>k < length (members c). rk c k = chosen c \<and>
        (\<forall>j < length (members c). masters (sys_cluster s) ! j \<longleftrightarrow> j = k))) \<and>
    (\<exists>ms' s'. sys_run (start c) (ms @ ms') s' \<and> {..<length (members c)} \<subseteq> finished ms')"
proof (intro conjI impI)
  assume all: "{..<length (members c)} \<subseteq> finished ms"
  obtain k where k: "k < length (members c)" "rk c k = chosen c"
    "\<And>j. j < length (members c) \<Longrightarrow> rk c j = chosen c \<longleftrightarrow> j = k"
    using chosen_index [OF assms(1)] by blast
  have "masters (sys_cluster s) ! j \<longleftrightarrow> rk c j = chosen c" if "j < length (members c)" for j
    using sys_run_inv [OF assms(3,1,2)] that all unfolding sys_inv_def by blast
  then show "\<exists>k < length (members c). rk c k = chosen c \<and>
      (\<forall>j < length (members c). masters (sys_cluster s) ! j \<longleftrightarrow> j = k)"
    using k by blast
qed (rule cycles_complete [OF assms(1,3)])

text \<open>
  C9. Safety in every state on the way, for the clusters and runs of the convergence theorem (no
  standby, witness or debug pod, nothing fails, requests are accepted, no answer is more than 60
  seconds old when it is used), whatever the interleaving: no pod becomes master except the
  chosen one, and if there was a master at the start the chosen one never loses its role. So in
  such a run a cluster with a master is never without one, and a single master stays the only one.
\<close>

theorem single_master_invariant:
  assumes "cluster_ok c" and "promotable c" and "sys_run (start c) ms s"
  shows "\<exists>k < length (members c). rk c k = chosen c \<and>
    (\<forall>j < length (members c). masters (sys_cluster s) ! j \<longrightarrow> masters c ! j \<or> j = k) \<and>
    ((\<exists>j < length (members c). masters c ! j) \<longrightarrow> masters c ! k \<and> masters (sys_cluster s) ! k)"
proof -
  obtain k where k: "k < length (members c)" "rk c k = chosen c" "k \<in> contenders c"
    "\<And>j. j < length (members c) \<Longrightarrow> rk c j = chosen c \<longleftrightarrow> j = k"
    using chosen_index [OF assms(1)] by blast
  have s: "settled c (\<lambda>j. masters (sys_cluster s) ! j)"
    using sys_run_inv [OF assms(3,1,2)] by (simp add: sys_inv_def)
  have "masters c ! j \<or> j = k" if "j < length (members c)" "masters (sys_cluster s) ! j" for j
    using s that k(4) by (auto simp: settled_def fits_def master_set_def)
  moreover have "masters c ! k \<and> masters (sys_cluster s) ! k" if "\<exists>j < length (members c). masters c ! j"
  proof -
    have ne: "master_set c \<noteq> {}" using that by (auto simp: master_set_def)
    then have "k \<in> master_set c" using k(3) by (simp add: contenders_def)
    with ne s k(1,2) show ?thesis by (auto simp: settled_def fits_def master_set_def)
  qed
  ultimately show ?thesis using k(1,2) by blast
qed

text \<open>
  C36. A standby pod can keep a healthy cluster without a master for ever: if no pod is master
  and the oldest one runs with \<^verbatim>\<open>--no-promote\<close>, then after any number of cycles of any of the
  pods, overlapping in any way, still no pod is master, although the other pods may be promoted
  and every pod can always complete another cycle. The standby pod takes part in the election
  of the others, wins it, and declines.
\<close>

theorem standby_blocks_forever:
  assumes "cluster_ok c" and "\<forall>j < length (members c). \<not> masters c ! j"
    and "k < length (members c)" and "\<forall>j < length (members c). rk c k \<le> rk c j"
    and "NoPromote (oconfig (members c ! k))" and "sys_run (start c) ms s"
  shows "(\<forall>j < length (members c). \<not> masters (sys_cluster s) ! j) \<and>
    (\<exists>ms' s'. sys_run (start c) (ms @ ms') s' \<and> {..<length (members c)} \<subseteq> finished ms')"
proof
  have none: "master_set c = {}" using assms(2) by (auto simp: master_set_def)
  have "chosen c = rk c k"
    unfolding chosen_def contenders_def using none assms(3,4) by (intro Min_eqI) auto
  then have "\<forall>j < length (members c). rk c j = chosen c \<longrightarrow> NoPromote (oconfig (members c ! j))"
    using inj_onD [OF rk_inj [OF assms(1)]] assms(3,5) by (metis lessThan_iff)
  then show "\<forall>j < length (members c). \<not> masters (sys_cluster s) ! j"
    using sys_run_standby [OF assms(6,1) none] by (simp add: standby_inv_def)
  show "\<exists>ms' s'. sys_run (start c) (ms @ ms') s' \<and> {..<length (members c)} \<subseteq> finished ms'"
    using assms(1,6) by (rule cycles_complete)
qed

section \<open>Clusters of two pods\<close>

definition demo_member :: orchestrator where
  "demo_member = demo_orchestrator\<lparr>podUID := ''uid-of-redis-1'', podIP := ''10.0.0.2'', startupTime := 3,
     oconfig := demo_config\<lparr>ElectionMode := ElectionModeDeterministic, cfgPodName := ''redis-1''\<rparr>,
     peerStates := []\<rparr>"

definition demo_cluster :: cluster where
  "demo_cluster = \<lparr>members = [demo_orchestrator, demo_member], masters = [True, True]\<rparr>"

text \<open>The older of the two pods on standby, and no master.\<close>

definition standby_cluster :: cluster where
  "standby_cluster = \<lparr>members = [demo_orchestrator, demo_member\<lparr>oconfig := (oconfig demo_member)\<lparr>NoPromote := True\<rparr>\<rparr>],
     masters = [False, False]\<rparr>"

definition demo_world :: world where
  "demo_world = \<lparr>w_base = dead_env, w_clock = (\<lambda>i. 0), w_asks = (\<lambda>i. 0), w_now = 50 * Second,
     w_extra = (\<lambda>i. [(''master_link_status'', ''down'')])\<rparr>"

lemma demo_cluster_ok: "cluster_ok demo_cluster" "cluster_ok standby_cluster"
  by (simp_all add: cluster_ok_def demo_cluster_def standby_cluster_def member_ok_def demo_member_def
      demo_orchestrator_def names_def map_wf_def)

lemma demo_promotable: "promotable demo_cluster"
  by (simp add: promotable_def demo_cluster_def demo_member_def)

text \<open>
  Both pods ask each other before either has decided; pod 0's clock is one second ahead, and the
  answers are about half a minute old when the tables are updated.
\<close>

definition demo_moves :: "move list" where
  "demo_moves = [Begin 0, Begin 1, Observe 0 1 (21 * Second) (20 * Second),
     Observe 1 0 (22 * Second) (23 * Second), Finish demo_world 0, Finish demo_world 1]"

lemma demo_world_ok:
  assumes "\<And>j. j < 2 \<Longrightarrow> j \<noteq> i \<Longrightarrow> \<exists>m. seen s i j = Some (m, 21 * Second, 20 * Second) \<or>
    seen s i j = Some (m, 22 * Second, 23 * Second)"
  shows "world_ok 2 i (stamped s i demo_world)"
proof -
  have "clocks_close (w_clock (stamped s i demo_world) j) (w_asks (stamped s i demo_world) j) \<and>
      \<not> w_clock (stamped s i demo_world) j < w_now (stamped s i demo_world) - 60 * Second"
    if "j < 2" "j \<noteq> i" for j
    using assms [OF that] by (auto simp: stamped_def demo_world_def clocks_close_def Second_def inInt64_def)
  moreover have "w_extra (stamped s i demo_world) j = [(''master_link_status'', ''down'')]" for j
    by (simp add: stamped_def demo_world_def)
  ultimately show ?thesis
    by (simp add: world_ok_def good_key_def good_value_def trimmedI crlf_free_def spaces_def)
qed

lemma demo_overlap:
  assumes "cluster_ok c" and "length (members c) = 2"
  shows "\<exists>s. sys_run (start c) demo_moves s"
proof -
  let ?s0 = "start c"
  let ?s2 = "?s0\<lparr>seen := (\<lambda>i j. None)(0 := (\<lambda>j. None)(1 := Some (masters c ! 1, 21 * Second, 20 * Second)))\<rparr>"
  let ?s3 = "?s2\<lparr>seen := (seen ?s2)(1 := (\<lambda>j. None)(0 := Some (masters c ! 0, 22 * Second, 23 * Second)))\<rparr>"
  let ?s4 = "finish demo_world ?s3 0"
  have "(\<lambda>i j. None)(n := \<lambda>j. None) = ((\<lambda>i j. None) :: nat \<Rightarrow> nat \<Rightarrow> answer option)" for n
    by (simp add: fun_eq_iff)
  then have b: "sys_step ?s0 (Begin 0) ?s0" "sys_step ?s0 (Begin 1) ?s0"
    using step_begin [of 0 ?s0] step_begin [of 1 ?s0] assms(2) by (simp_all add: start_def)
  have o0: "sys_step ?s0 (Observe 0 1 (21 * Second) (20 * Second)) ?s2"
    using step_observe [of 0 ?s0 1] assms(2) by (simp add: start_def)
  have o1: "sys_step ?s2 (Observe 1 0 (22 * Second) (23 * Second)) ?s3"
    using step_observe [of 1 ?s2 0] assms(2) by (simp add: start_def)
  have "world_ok 2 0 (stamped ?s3 0 demo_world)" by (rule demo_world_ok) (auto simp: less_2_cases_iff)
  then have f0: "sys_step ?s3 (Finish demo_world 0) ?s4"
    using assms(2) by (intro step_finish) (auto simp: start_def less_2_cases_iff)
  have r: "sys_run ?s0 ((((([] @ [Begin 0]) @ [Begin 1]) @ [Observe 0 1 (21 * Second) (20 * Second)]) @
      [Observe 1 0 (22 * Second) (23 * Second)]) @ [Finish demo_world 0]) ?s4"
    by (rule run_snoc [OF run_snoc [OF run_snoc [OF run_snoc [OF run_snoc [OF run_nil b(1)] b(2)] o0] o1] f0])
  have len: "length (members (sys_cluster ?s4)) = 2"
    using frame_len [OF sys_run_frame [OF r assms(1)]] assms(2) by simp
  have seen: "seen ?s4 1 0 = Some (masters c ! 0, 22 * Second, 23 * Second)" by (simp add: finish_def Let_def)
  then have "world_ok 2 1 (stamped ?s4 1 demo_world)"
    by (intro demo_world_ok) (auto simp: less_2_cases_iff)
  then have "sys_step ?s4 (Finish demo_world 1) (finish demo_world ?s4 1)"
    using len seen by (intro step_finish) (auto simp: less_2_cases_iff)
  with r show ?thesis unfolding demo_moves_def using run_snoc by fastforce
qed

lemma demo_finished: "{..<2} \<subseteq> finished demo_moves"
  by (auto simp: demo_moves_def less_2_cases_iff)

theorem overlapped_converges_witness:
  "\<exists>s. sys_run (start demo_cluster) demo_moves s \<and> masters demo_cluster = [True, True] \<and>
     masters (sys_cluster s) ! 0 \<noteq> masters (sys_cluster s) ! 1"
proof -
  have len: "length (members demo_cluster) = 2" by (simp add: demo_cluster_def)
  obtain s where s: "sys_run (start demo_cluster) demo_moves s"
    using demo_overlap [OF demo_cluster_ok(1) len] ..
  from overlapped_converges [OF demo_cluster_ok(1) demo_promotable s] obtain k where
    "k < 2" "\<forall>j < 2. masters (sys_cluster s) ! j \<longleftrightarrow> j = k"
    unfolding len using demo_finished by blast
  then have "masters (sys_cluster s) ! 0 \<noteq> masters (sys_cluster s) ! 1" by (auto simp: less_2_cases_iff)
  with s show ?thesis by (auto simp: demo_cluster_def)
qed

theorem single_master_invariant_witness:
  "\<exists>s. sys_run (start demo_cluster) demo_moves s \<and>
     (\<exists>k < 2. masters demo_cluster ! k \<and> masters (sys_cluster s) ! k)"
proof -
  have len: "length (members demo_cluster) = 2" by (simp add: demo_cluster_def)
  obtain s where s: "sys_run (start demo_cluster) demo_moves s"
    using demo_overlap [OF demo_cluster_ok(1) len] ..
  have "\<exists>j < 2. masters demo_cluster ! j" by (rule exI [of _ 0]) (simp add: demo_cluster_def)
  with single_master_invariant [OF demo_cluster_ok(1) demo_promotable s] have
    "\<exists>k < 2. masters demo_cluster ! k \<and> masters (sys_cluster s) ! k"
    unfolding len by blast
  with s show ?thesis by blast
qed

theorem standby_blocks_forever_witness:
  "\<exists>s. sys_run (start standby_cluster) demo_moves s \<and> {..<2} \<subseteq> finished demo_moves \<and>
     map (NoPromote \<circ> oconfig) (members standby_cluster) = [False, True] \<and>
     \<not> masters (sys_cluster s) ! 0 \<and> \<not> masters (sys_cluster s) ! 1"
proof -
  let ?c = standby_cluster
  have len: "length (members ?c) = 2" by (simp add: standby_cluster_def)
  obtain s where s: "sys_run (start ?c) demo_moves s" using demo_overlap [OF demo_cluster_ok(2) len] ..
  have none: "\<forall>j < 2. \<not> masters ?c ! j" by (simp add: standby_cluster_def less_2_cases_iff)
  have "rk ?c 1 < rk ?c 0" by (simp add: standby_cluster_def rk_def demo_member_def demo_orchestrator_def)
  then have least: "\<forall>j < 2. rk ?c 1 \<le> rk ?c j" by (auto simp: less_2_cases_iff)
  have np: "map (NoPromote \<circ> oconfig) (members ?c) = [False, True]"
    by (simp add: standby_cluster_def)
  have "NoPromote (oconfig (members ?c ! 1))" by (simp add: standby_cluster_def)
  then have "\<forall>j < 2. \<not> masters (sys_cluster s) ! j"
    using standby_blocks_forever [OF demo_cluster_ok(2), of 1] none least s unfolding len by simp
  with s np show ?thesis using demo_finished by auto
qed

end
