(* ===== verification/Raft_Cycle.thy ===== *)
theory Raft_Cycle
  imports Cluster
begin

text \<open>
  The sync cycle in Raft mode. The decision depends on the Raft library's answer and the local
  role only, so a cycle leaves the local Redis as a master exactly on the Raft leader, whatever
  the peers, the Kubernetes API and the clock do.
\<close>

section \<open>The decision in Raft mode\<close>

definition raft_decide :: "bool \<Rightarrow> pod_state \<Rightarrow> action" where
  "raft_decide leader localState =
     (if leader then (if IsMaster localState then EnsureLabel else Promote)
      else if IsMaster localState then Demote else CheckReplication)"

definition plain_raft :: "orchestrator \<Rightarrow> bool" where
  "plain_raft o1 \<longleftrightarrow> ElectionMode (oconfig o1) = ElectionModeRaft \<and> \<not> Standalone (oconfig o1) \<and>
     \<not> NoPromote (oconfig o1) \<and> \<not> Debug (oconfig o1) \<and> redisClient o1 \<noteq> None \<and> map_wf (peerStates o1) \<and>
     (\<exists>r. electionStrategy o1 = RaftMode r)"

definition raft_leads :: "orchestrator \<Rightarrow> env \<Rightarrow> trace \<Rightarrow> bool" where
  "raft_leads o1 E t \<longleftrightarrow>
     (case electionStrategy o1 of RaftMode r \<Rightarrow> rs_raft r \<and> x_raft_state E t = Leader | _ \<Rightarrow> False)"

lemma handleRaftMode_refines:
  assumes "plain_raft o1"
  shows "\<exists>es. (\<forall>e \<in> set es. reading e) \<and>
    handleRaftMode o1 l E t = perform o1 l (raft_decide (raft_leads o1 E t) l) E (es @ t)"
proof -
  obtain r where r: "electionStrategy o1 = RaftMode r" using assms by (auto simp: plain_raft_def)
  have s: "\<not> Standalone (oconfig o1)" "\<not> NoPromote (oconfig o1)" "\<not> Debug (oconfig o1)"
    using assms by (simp_all add: plain_raft_def)
  show ?thesis
  proof (cases "rs_raft r")
    case False
    then show ?thesis
      using r s by (intro exI [of _ "[]"])
        (simp add: handleRaftMode_def Let_def strat_IsLeader_def raft_IsLeader_def raft_decide_def
          raft_leads_def perform_def strat_GetLeader_def raft_GetLeader_def)
  next
    case True
    let ?es = "if IsMaster l \<and> x_raft_state E t \<noteq> Leader then [RaftLeader, RaftState] else [RaftState]"
    show ?thesis
      using True r s by (intro exI [of _ ?es])
        (auto simp: handleRaftMode_def Let_def strat_IsLeader_def raft_IsLeader_def raft_decide_def
          raft_leads_def perform_def strat_GetLeader_def raft_GetLeader_def raftState_def
          raftLeaderWithID_def bnd_def split: prod.splits option.splits)
  qed
qed

section \<open>A whole cycle\<close>

text \<open>A Redis server that obeys commands and reports the role they leave it in.\<close>

definition obedient_redis :: "bool \<Rightarrow> (string \<times> string) list \<Rightarrow> env \<Rightarrow> bool" where
  "obedient_redis m extra E \<longleftrightarrow> (\<forall>t. x_redis_ping E t = None) \<and> (\<forall>t a. x_redis_do E t a = None) \<and>
     (\<forall>t s. x_redis_info E t s =
        Inr (render_info ((''role'', if role_after m t then ''master'' else ''slave'') # extra))) \<and>
     (\<forall>(k, v) \<in> set extra. good_key k \<and> good_value v \<and> k \<noteq> ''role'')"

lemma obedient_local_state:
  assumes "obedient_redis m extra E" and "\<not> Standalone (oconfig o1)" and "redisClient o1 \<noteq> None"
  shows "\<exists>l es. getLocalState o1 E t = (Ret (Inr l), es @ t) \<and> (\<forall>e \<in> set es. reading e) \<and>
    IsHealthy l \<and> (IsMaster l \<longleftrightarrow> role_after m t)"
proof -
  let ?w = "\<lparr>w_base = E, w_clock = (\<lambda>i. 0), w_asks = (\<lambda>i. 0), w_now = 0, w_extra = (\<lambda>i. extra)\<rparr>"
  have "world_ok 1 0 ?w" using assms(1) by (simp add: world_ok_def obedient_redis_def)
  then obtain i where i: "parseReplicationInfo (info_text ?w 0 (role_after m t)) = Inr i"
      "Role i = (if role_after m t then ''master'' else ''slave'')"
    using parse_info_text by blast
  obtain cl where cl: "redisClient o1 = Some cl" using assms(3) by auto
  have info: "x_redis_info E t s = Inr (info_text ?w 0 (role_after m t))" for s
    using assms(1) by (simp add: obedient_redis_def info_text_def)
  have "getLocalState o1 E t = (Ret (Inr
       \<lparr>PodName = cfgPodName (oconfig o1), PodIP = podIP o1, PodUID = podUID o1,
        Namespace = cfgNamespace (oconfig o1), IsMaster = role_after m t, IsHealthy = True,
        IsWitness = False, StartupTime = startupTime o1,
        LastSeen = x_now E (RedisPing # RedisInfo ''replication'' # t)\<rparr>),
      [ClockRead, RedisPing, RedisInfo ''replication''] @ t)"
    using assms(1,2) cl i info
    by (simp add: getLocalState_def attempt_def bnd_def redis_runs now_def Let_def obedient_redis_def)
  then show ?thesis by (intro exI conjI) (assumption, simp_all)
qed

lemma discover_result:
  obtains d es where "discoverAndQueryPeers o1 E t = (Ret d, es @ t)" and "\<forall>e \<in> set es. peer_call e"
    and "\<forall>ps. d = Inr ps \<longrightarrow> map_wf ps \<and> cfgPodName (oconfig o1) \<notin> fst ` set ps"
proof -
  obtain d t' where d: "discoverAndQueryPeers o1 E t = (Ret d, t')"
    by (rule returns_obtain [OF returns_discover])
  obtain es where "snd (discoverAndQueryPeers o1 E t) = es @ t" "\<forall>e \<in> set es. peer_call e"
    using emits_discover unfolding emits_def by blast
  moreover have "map_wf ps \<and> cfgPodName (oconfig o1) \<notin> fst ` set ps" if "d = Inr ps" for ps
  proof -
    from d that obtain pods t1 where "query_pods o1 [] pods E t1 = (Ret ps, t')"
      unfolding discoverAndQueryPeers_def by (auto elim!: bnd_RetE split: sum.splits)
    then show ?thesis
      using query_pods_wf [of "[]"] query_pods_keys [of o1 "[]" pods E t1 ps t']
      by (auto simp: map_wf_def other_running_def)
  qed
  ultimately show thesis using that d by simp
qed

lemma own_state_kept:
  assumes "map_wf (peerStates o1)" and "map_wf ps" and "cfgPodName (oconfig o1) \<notin> fst ` set ps"
  shows "\<exists>tab. updatePeerStates o1 l ps E t = (Ret (o1\<lparr>peerStates := tab\<rparr>), ClockRead # t) \<and> l \<in> snd ` set tab"
proof -
  let ?tab = "filter (\<lambda>kv. \<not> stale (cfgPodName (oconfig o1)) (x_now E t) kv) (merge_peers o1 l ps)"
  have "map_of ps (cfgPodName (oconfig o1)) = None" using assms(3) by (simp add: map_of_eq_None_iff)
  then have "map_of (merge_peers o1 l ps) (cfgPodName (oconfig o1)) = Some l"
    using lookup_merge_peers [OF assms(2)] by simp
  then have "(cfgPodName (oconfig o1), l) \<in> set ?tab"
    using map_of_SomeD by (fastforce simp: stale_def)
  then have "l \<in> snd ` set ?tab" by (metis image_eqI snd_conv)
  then show ?thesis by (intro exI [of _ ?tab]) (simp add: updatePeerStates_def now_def bnd_def)
qed

lemma raft_cycle_role:
  assumes o1: "plain_raft o1" and redis: "obedient_redis m extra E"
    and st: "\<And>t. raft_leads o1 E t \<longleftrightarrow> b"
  shows "\<exists>o2 err t. syncState o1 E [] = (Ret (o2, err), t) \<and> (role_after m t \<longleftrightarrow> b)"
proof -
  have mode: "ElectionMode (oconfig o1) = ElectionModeRaft" "\<not> Standalone (oconfig o1)"
    "\<not> NoPromote (oconfig o1)" "\<not> Debug (oconfig o1)" "redisClient o1 \<noteq> None" "map_wf (peerStates o1)"
    using o1 by (simp_all add: plain_raft_def)
  obtain l es0 where l: "getLocalState o1 E [] = (Ret (Inr l), es0 @ [])" "\<forall>e \<in> set es0. reading e"
      "IsHealthy l" "IsMaster l \<longleftrightarrow> role_after m []"
    using obedient_local_state [OF redis mode(2,5), of "[]"] by blast
  obtain d es1 where d: "discoverAndQueryPeers o1 E es0 = (Ret d, es1 @ es0)" "\<forall>e \<in> set es1. peer_call e"
      "\<forall>ps. d = Inr ps \<longrightarrow> map_wf ps \<and> cfgPodName (oconfig o1) \<notin> fst ` set ps"
    by (rule discover_result [of o1 E es0])
  let ?ps = "case d of Inl e \<Rightarrow> [] | Inr ps \<Rightarrow> ps"
  have "map_wf ?ps \<and> cfgPodName (oconfig o1) \<notin> fst ` set ?ps"
    using d(3) by (cases d) (simp_all add: map_wf_def)
  then obtain tab where tab: "updatePeerStates o1 l ?ps E (es1 @ es0) =
      (Ret (o1\<lparr>peerStates := tab\<rparr>), ClockRead # es1 @ es0)" "l \<in> snd ` set tab"
    using own_state_kept [OF mode(6)] by blast
  let ?o2 = "o1\<lparr>peerStates := tab\<rparr>" and ?t = "ClockRead # es1 @ es0"
  have "healthy_states ?o2 \<noteq> []" using tab(2) l(3) by (auto simp: healthy_states_def filter_empty_conv)
  then have rec: "reconcile ?o2 l = handleRaftMode o1 l" using mode(1) by (simp add: reconcile_def Let_def)
  obtain es where es: "\<forall>e \<in> set es. reading e"
      "handleRaftMode o1 l E ?t = perform o1 l (raft_decide b l) E (es @ ?t)"
    using handleRaftMode_refines [OF o1, of l E ?t] unfolding st by blast
  have "\<forall>e \<in> set (es @ ?t). \<forall>a. e \<noteq> RedisDo a"
    using es(1) l(2) d(2) by (auto simp: peer_call_def)
  then have keep: "role_after m (es @ ?t) = role_after m []"
    using role_after_keep [of "es @ ?t" m "[]"] by simp
  obtain cl where cl: "redisClient o1 = Some cl" using mode(5) by auto
  have do: "\<forall>t a. x_redis_do E t a = None" using redis by (simp add: obedient_redis_def)
  have cr: "raft_decide b l = CheckReplication \<longrightarrow> \<not> role_after m (es @ ?t)"
    unfolding keep using l(4) by (simp add: raft_decide_def)
  have "role_after m (snd (perform o1 l (raft_decide b l) E (es @ ?t))) =
      (case raft_decide b l of Promote \<Rightarrow> True | Demote \<Rightarrow> False | _ \<Rightarrow> IsMaster l)"
    using perform_role [OF cl _ do cr, of l] mode(3) unfolding keep l(4) by blast
  then have "role_after m (snd (perform o1 l (raft_decide b l) E (es @ ?t))) \<longleftrightarrow> b"
    unfolding raft_decide_def by (cases b; cases "IsMaster l") simp_all
  moreover have "client_inv o1" using mode by (simp add: client_inv_def)
  then obtain err t' where "handleRaftMode o1 l E ?t = (Ret err, t')"
    by (rule returns_obtain [OF returns_handleRaftMode [OF _ mode(4)]])
  ultimately show ?thesis
    using l(1) d(1) tab(1) rec es(2) by (simp add: syncState_def bnd_def)
qed

section \<open>The cluster\<close>

text \<open>
  C5. In Raft mode the master follows the Raft leader. Each pod runs a sync cycle in an
  environment of its own, in which anything may fail except the local Redis: peers, the
  Kubernetes API, the clock, the label updates. If the Raft library names exactly one pod as
  the leader during these cycles (its election safety, with an election decided), then every
  cycle completes and exactly that pod's Redis ends as master, from any roles at the start.
\<close>

theorem raft_cluster_converges:
  assumes "\<forall>i < n. plain_raft (os i) \<and> obedient_redis (ms i) (extra i) (Es i)"
    and "\<forall>i < n. \<forall>t. raft_leads (os i) (Es i) t \<longleftrightarrow> i = k" and "k < n"
  shows "\<forall>i < n. \<exists>o2 err t. syncState (os i) (Es i) [] = (Ret (o2, err), t) \<and>
    (role_after (ms i) t \<longleftrightarrow> i = k)"
proof (intro allI impI)
  fix i
  assume i: "i < n"
  show "\<exists>o2 err t. syncState (os i) (Es i) [] = (Ret (o2, err), t) \<and> (role_after (ms i) t \<longleftrightarrow> i = k)"
    using assms(1,2) i by (intro raft_cycle_role) auto
qed

definition obedient_env :: "bool \<Rightarrow> raft_role \<Rightarrow> env" where
  "obedient_env m st = dead_env\<lparr>x_raft_state := \<lambda>t. st, x_redis_ping := \<lambda>t. None, x_redis_do := \<lambda>t a. None,
     x_redis_info := \<lambda>t s. Inr (render_info [(''role'', if role_after m t then ''master'' else ''slave'')])\<rparr>"

definition started_orchestrator :: orchestrator where
  "started_orchestrator = demo_raft_orchestrator\<lparr>electionStrategy := RaftMode (demo_raft\<lparr>rs_raft := True\<rparr>)\<rparr>"

text \<open>Two pods whose peers are unreachable; the master lost the Raft leadership to the other.\<close>

theorem raft_cluster_converges_witness:
  "(\<exists>o2 err t. syncState started_orchestrator (obedient_env True Follower) [] = (Ret (o2, err), t) \<and>
      \<not> role_after True t) \<and>
   (\<exists>o2 err t. syncState started_orchestrator (obedient_env False Leader) [] = (Ret (o2, err), t) \<and>
      role_after False t)"
proof -
  let ?Es = "\<lambda>i. if i = (0::nat) then obedient_env True Follower else obedient_env False Leader"
  have "plain_raft started_orchestrator"
    by (simp add: plain_raft_def started_orchestrator_def demo_raft_orchestrator_def map_wf_def demo_config_defs)
  moreover have "obedient_redis m [] (obedient_env m st)" for m st
    by (simp add: obedient_redis_def obedient_env_def)
  moreover have "raft_leads started_orchestrator (obedient_env m st) t \<longleftrightarrow> st = Leader" for m st t
    by (simp add: raft_leads_def started_orchestrator_def obedient_env_def)
  ultimately have "\<forall>i < 2. \<exists>o2 err t. syncState started_orchestrator (?Es i) [] = (Ret (o2, err), t) \<and>
      (role_after (i = 0) t \<longleftrightarrow> i = 1)"
    by (intro raft_cluster_converges [where extra = "\<lambda>i. []"]) auto
  from this [rule_format, of 0] this [rule_format, of 1] show ?thesis by simp
qed

end
