(* ===== verification/Raft_Join.thy ===== *)
theory Raft_Join
  imports Orchestrator
begin

text \<open>
  Joining a Raft cluster end to end: the request of the joining node (\<^verbatim>\<open>raft_discovery.go\<close>) given
  to the HTTP server of the leader (\<^verbatim>\<open>setupHTTPServer\<close>, the middleware, \<^verbatim>\<open>raft_handlers.go\<close>).
\<close>

definition plain_host :: "string \<Rightarrow> bool" where
  "plain_host h \<longleftrightarrow> (\<forall>c \<in> set h. c \<noteq> CHR '':'' \<and> c \<noteq> CHR ''/'' \<and> c \<noteq> CHR ''?'' \<and> c \<noteq> CHR ''#'')"

lemma join_url_host:
  assumes "plain_host h"
  shows "join_url r (h @ CHR '':'' # port) = ''http://'' @ h @ '':8080'' @ join_endpoint r"
proof -
  have "takeWhile (\<lambda>c. c \<noteq> CHR '':'') (h @ CHR '':'' # port) = h"
    using assms by (subst takeWhile_append2) (auto simp: plain_host_def)
  then show ?thesis using split_hd [of "CHR '':''" "h @ CHR '':'' # port"] by (simp add: join_url_def)
qed

lemma join_path:
  assumes "plain_host h"
  shows "url_path (''http://'' @ h @ '':8080'' @ join_endpoint r) = join_endpoint r"
    and "mux_path (join_endpoint r) = join_endpoint r"
proof -
  have "url_path (''http://'' @ (h @ '':8080'') @ ''/'' @ p) = ''/'' @ p"
    if "\<forall>c \<in> set p. c \<noteq> CHR ''?'' \<and> c \<noteq> CHR ''#''" for p
    using assms that by (intro url_path_http) (auto simp: plain_host_def)
  from this [of "''raft/add-voter''"] this [of "''raft/add-nonvoter''"]
  show "url_path (''http://'' @ h @ '':8080'' @ join_endpoint r) = join_endpoint r"
    by (simp add: join_endpoint_def)
  show "mux_path (join_endpoint r) = join_endpoint r"
    using mux_path_plain [of "[''raft'', ''add-voter'']"] mux_path_plain [of "[''raft'', ''add-nonvoter'']"]
    by (simp add: join_endpoint_def plain_elem_def)
qed

text \<open>The leader's answer to the request: the sender becomes a member, and what it is depends on the sender.\<close>

lemma leader_adds:
  assumes "plain_host h" and "sharedSecret a \<noteq> []" and "clocks_close (x_now E t) n"
    and "authn o2 = a" and "ElectionMode (oconfig o2) = ElectionModeRaft"
    and "electionStrategy o2 = RaftMode leader" and "rs_raft leader" and "8 \<le> length (rs_localPodUID r)"
    and "x_raft_state E (ClockRead # t) = Leader"
    and "x_raft_configuration E (RaftState # ClockRead # t) = Inr servers"
    and "rs_localPodUID r \<notin> srvID ` set servers"
  defines "suf \<equiv> (if rs_standalone r then Nonvoter else Voter)"
  shows "\<exists>resp. serveHTTP o2 (sign_at a n (join_request r (h @ '':'' @ port))) E t =
      (Ret resp, [RaftAdd suf (rs_localPodUID r) (local_advertise r), RaftGetConfiguration, RaftState, ClockRead] @ t) \<and>
    (x_raft_add E (RaftGetConfiguration # RaftState # ClockRead # t) suf (rs_localPodUID r) (local_advertise r) = None \<longrightarrow>
      StatusCode resp = StatusOK)"
proof -
  let ?q = "join_request r (h @ '':'' @ port)"
  let ?req = "sign_at a n ?q"
  have u: "url_path (URL ?req) = join_endpoint r" "Method ?req = ''POST''" "ReqBody ?req = join_body r"
    using join_path(1) [OF assms(1)] by (simp_all add: join_request_def join_url_host [OF assms(1)])
  have v: "ValidateRequest a ?req E t = (Ret None, ClockRead # t)"
    by (rule ValidateRequest_sealed [OF assms(2,3)])
  have id: "rs_localPodUID r \<noteq> []" using assms(8) by auto
  have route: "map_of (setupHTTPServer o2) (join_endpoint r) =
      Some (Middleware a (if rs_standalone r then HandleAddNonvoter leader else HandleAddVoter leader))"
    using assms(4-6) by (simp add: setupHTTPServer_def join_endpoint_def)
  have "serveHTTP o2 ?req E t =
      (if rs_standalone r then HandleAddNonvoter leader else HandleAddVoter leader) ?req E (ClockRead # t)"
    using u(1,2) join_path(2) [OF assms(1)] v by (simp add: serveHTTP_def Let_def route Middleware_def bnd_def)
  moreover have "\<exists>resp. add_server suf what leader ?req E (ClockRead # t) =
      (Ret resp, [RaftAdd suf (rs_localPodUID r) (local_advertise r), RaftGetConfiguration, RaftState, ClockRead] @ t) \<and>
    (x_raft_add E (RaftGetConfiguration # RaftState # ClockRead # t) suf (rs_localPodUID r) (local_advertise r) = None \<longrightarrow>
      StatusCode resp = StatusOK)" for what
    using assms(7-11) u(3) id
    by (auto simp: add_server_def raftState_def raftGetConfiguration_def raftAdd_def decode_join_body
        slice8_cases image_iff status_json_def ok_json_def split: option.splits)
  ultimately show ?thesis
    by (cases "rs_standalone r") (simp_all add: HandleAddVoter_def HandleAddNonvoter_def suf_def)
qed

text \<open>
  C18. A node joins end to end. It sends one request, signed with the shared secret, to the HTTP
  server of the leader's host; that server accepts it if the clocks are close, and the route it
  goes to adds exactly this server to the configuration, by its UID at its advertised address,
  as a voter or, for a witness, as a non-voter. If the library accepts the change, the join
  reports success.
\<close>

theorem join_adds_this_node:
  assumes "rs_raft r" and "rs_authenticator r = Some a" and "sharedSecret a \<noteq> []"
    and "8 \<le> length (rs_localPodUID r)" and "plain_host h" and "x_url E (join_url r (h @ '':'' @ port)) = None"
    and "authn o2 = a" and "ElectionMode (oconfig o2) = ElectionModeRaft"
    and "electionStrategy o2 = RaftMode leader" and "rs_raft leader"
    and "clocks_close (x_now E2 t2) (x_now E t)"
    and "\<forall>req. x_http E (ClockRead # t) req =
      (if hasPrefix (URL req) (''http://'' @ h @ '':8080/'')
       then (case fst (serveHTTP o2 req E2 t2) of Ret resp \<Rightarrow> Inr resp | Panic p \<Rightarrow> Inl ''EOF'')
       else Inl ''no route to host'')"
    and "x_raft_state E2 (ClockRead # t2) = Leader"
    and "x_raft_configuration E2 (RaftState # ClockRead # t2) = Inr servers"
    and "rs_localPodUID r \<notin> srvID ` set servers"
    and "\<forall>suf. x_raft_add E2 (RaftGetConfiguration # RaftState # ClockRead # t2) suf
      (rs_localPodUID r) (local_advertise r) = None"
  shows "\<exists>req. JoinCluster r (h @ '':'' @ port) E t = (Ret None, [HttpDo req, ClockRead] @ t) \<and>
    snd (serveHTTP o2 req E2 t2) =
      [RaftAdd (if rs_standalone r then Nonvoter else Voter) (rs_localPodUID r) (local_advertise r),
       RaftGetConfiguration, RaftState, ClockRead] @ t2"
proof -
  let ?req = "sign_at a (x_now E t) (join_request r (h @ '':'' @ port))"
  obtain resp where s: "serveHTTP o2 ?req E2 t2 = (Ret resp,
      [RaftAdd (if rs_standalone r then Nonvoter else Voter) (rs_localPodUID r) (local_advertise r),
       RaftGetConfiguration, RaftState, ClockRead] @ t2)" "StatusCode resp = StatusOK"
    using leader_adds [OF assms(5,3,11,7-10,4,13-15), of port] assms(16) by metis
  have "hasPrefix (URL ?req) (''http://'' @ h @ '':8080/'')"
    by (auto simp: join_request_def join_url_host [OF assms(5)] join_endpoint_def hasPrefix_def)
  then have "x_http E (ClockRead # t) ?req = Inr resp" using assms(12) s(1) by simp
  then have "JoinCluster r (h @ '':'' @ port) E t = (Ret None, [HttpDo ?req, ClockRead] @ t)"
    using JoinCluster_run [OF assms(1) _ assms(2,3,6), of t] assms(4) s(2) by simp
  then show ?thesis using s(1) by (metis snd_conv)
qed

definition demo_raft_leader :: orchestrator where
  "demo_raft_leader = demo_orchestrator\<lparr>oconfig := demo_config, electionStrategy := RaftMode demo_raft\<rparr>"

definition join_env :: env where
  "join_env = dead_env\<lparr>x_http := \<lambda>t req.
     if hasPrefix (URL req) (''http://'' @ ''10.0.0.1'' @ '':8080/'')
     then (case fst (serveHTTP demo_raft_leader req leader_env []) of Ret resp \<Rightarrow> Inr resp | Panic p \<Rightarrow> Inl ''EOF'')
     else Inl ''no route to host''\<rparr>"

text \<open>A witness joins as a non-voter.\<close>

theorem join_adds_this_node_witness:
  "\<exists>req. JoinCluster (demo_raft\<lparr>rs_standalone := True\<rparr>) (''10.0.0.1'' @ '':'' @ ''7000'') join_env [] =
      (Ret None, [HttpDo req, ClockRead] @ []) \<and>
    snd (serveHTTP demo_raft_leader req leader_env []) =
      [RaftAdd (if rs_standalone (demo_raft\<lparr>rs_standalone := True\<rparr>) then Nonvoter else Voter)
         (rs_localPodUID (demo_raft\<lparr>rs_standalone := True\<rparr>)) (local_advertise (demo_raft\<lparr>rs_standalone := True\<rparr>)),
       RaftGetConfiguration, RaftState, ClockRead] @ [] \<and>
    rs_standalone (demo_raft\<lparr>rs_standalone := True\<rparr>)"
proof -
  let ?r = "demo_raft\<lparr>rs_standalone := True\<rparr>"
  have "\<exists>req. JoinCluster ?r (''10.0.0.1'' @ '':'' @ ''7000'') join_env [] = (Ret None, [HttpDo req, ClockRead] @ []) \<and>
    snd (serveHTTP demo_raft_leader req leader_env []) =
      [RaftAdd (if rs_standalone ?r then Nonvoter else Voter) (rs_localPodUID ?r) (local_advertise ?r),
       RaftGetConfiguration, RaftState, ClockRead] @ []"
    by (rule join_adds_this_node [where a = "NewAuthenticator ''k''" and leader = demo_raft and servers = "[]"])
      (simp_all add: demo_raft_leader_def plain_host_def join_env_def leader_env_def NewAuthenticator_def
        clocks_close_def inInt64_def demo_config_defs)
  then show ?thesis by simp
qed

end
