(* ===== verification/Program.thy ===== *)
theory Program
  imports Orchestrator
begin

text \<open>
  The whole program: \<^verbatim>\<open>main\<close> of \<^verbatim>\<open>main.go\<close>, from the parsed flags to the end of the process.
\<close>

section \<open>main\<close>

text \<open>
  The ways \<^verbatim>\<open>main\<close> ends: \<^verbatim>\<open>klog.Fatal\<close> with a message, or the last log line. \<open>Running\<close> is the state
  after the wake-ups given, before the process has ended. A termination signal cancels the
  context, which reaches the loop as the wake-up \<^const>\<open>Cancelled\<close>.
\<close>

datatype exit = Fatal string | Running | ShutdownComplete

text \<open>
  \<open>inCluster\<close> and \<open>newForConfig\<close> are the errors of the two constructors of client-go.
\<close>

definition go_main ::
  "(string \<Rightarrow> string) \<Rightarrow> gerror \<Rightarrow> gerror \<Rightarrow> flags \<Rightarrow> wakeup list \<Rightarrow> exit io" where
  "go_main getenv inCluster newForConfig f ws =
     (case main_config getenv f of
        Inl e \<Rightarrow> ret (Fatal e)
      | Inr cfg \<Rightarrow>
          (case inCluster of
             Some e \<Rightarrow> ret (Fatal (''Failed to create in-cluster config: '' @ e))
           | None \<Rightarrow>
               (case newForConfig of
                  Some e \<Rightarrow> ret (Fatal (''Failed to create Kubernetes client: '' @ e))
                | None \<Rightarrow>
                    bnd (New cfg) (\<lambda>r. case r of
                       Inl e \<Rightarrow> ret (Fatal (''Failed to create orchestrator: '' @ e))
                     | Inr orch \<Rightarrow>
                         bnd (Run orch ws) (\<lambda>(_, done). case done of
                            None \<Rightarrow> ret Running
                          | Some (Some e) \<Rightarrow> ret (Fatal (''Orchestrator error: '' @ e))
                          | Some None \<Rightarrow> ret ShutdownComplete)))))"

section \<open>Start-up returns and does not serve\<close>

lemma returns_NewClient [simp]: "returns (NewClient h p pw tls skip)"
  unfolding NewClient_def redisConnect_def redisPing_def
  by (intro returns_bnd returns_split returns_call returns_ret returns_attempt returns_wrap)

lemma returns_New [simp]: "returns (New cfg)"
  unfolding New_def new_client_def node_ip_def podGet_def now_def Let_def
  by (intro returns_attempt returns_wrap returns_bnd returns_split returns_call returns_ret
      returns_lb_retry returns_NewClient)

definition quiet :: "event \<Rightarrow> bool" where
  "quiet e \<longleftrightarrow> e \<noteq> HttpListen"

lemma emits_lb_retry: "emits quiet (lb_retry cfg ip n)"
proof (induction n)
  case (Suc n)
  show ?case
    unfolding lb_retry.simps discoverLoadBalancerIP_def podGet_def serviceList_def sleep_def
    by (intro emit_intros Suc) (simp_all add: emits_call quiet_def)
qed (simp add: emits_def)

lemma emits_New: "emits quiet (New cfg)"
  unfolding New_def new_client_def node_ip_def NewClient_def redisConnect_def redisPing_def podGet_def now_def
  by (intro emit_intros emits_lb_retry) (simp_all add: emits_call quiet_def)

lemma emits_raft_Start_quiet: "emits quiet (raft_Start r)"
proof -
  have c: "emits quiet (create_raft r)"
    by (rule emits_mono [OF emits_create_raft]) (auto simp: quiet_def)
  have n: "emits quiet m" if "emits net_call m" for m :: "'x io"
    using that by (rule emits_mono) (auto simp: net_call_def quiet_def)
  have d: "emits quiet (DiscoverCluster r' ps)" "emits quiet (JoinCluster r' a)" for r' ps a
    by (rule n, rule emits_DiscoverCluster, rule emits_mono [OF emits_JoinCluster])
      (auto simp: net_call_def quiet_def)
  show ?thesis
    unfolding raft_Start_def join_or_bootstrap_def bootstrap_self_def raftLastIndex_def goStmt_def raftBootstrap_def
    by (intro emit_intros c d) (simp_all add: emits_call quiet_def)
qed

lemma emits_Start: "emits quiet (strat_Start s)"
proof (cases s)
  case (Deterministic d)
  then show ?thesis by (simp add: strat_Start_def det_Start_def emits_def)
next
  case (RaftMode r)
  then show ?thesis
    unfolding RaftMode strat_Start_def strategy.case by (intro emit_intros emits_raft_Start_quiet)
qed

definition plain_strategy :: "strategy \<Rightarrow> bool" where
  "plain_strategy s = (case s of Deterministic d \<Rightarrow> True | RaftMode r \<Rightarrow> \<not> rs_debug r)"

lemma returns_JoinCluster: "\<not> rs_debug r \<Longrightarrow> returns (JoinCluster r a)"
  unfolding JoinCluster_def sign_opt_def httpDo_def Let_def
  by (intro returns_bnd returns_split returns_call returns_ret returns_newRequest returns_SignRequest) auto

lemma returns_raft_Start:
  assumes "\<not> rs_debug r"
  shows "returns (raft_Start r)"
proof -
  have "returns (create_raft r)"
    unfolding create_raft_def raftSetup_def Let_def
    by (intro returns_check returns_wrap returns_split returns_call returns_ret)
  moreover have "returns (join_or_bootstrap (r\<lparr>rs_raft := True\<rparr>))"
    unfolding join_or_bootstrap_def bootstrap_self_def raftBootstrap_def Let_def
    using assms by (intro returns_bnd returns_split returns_call returns_ret returns_DiscoverCluster
        returns_JoinCluster) auto
  ultimately show ?thesis
    unfolding raft_Start_def raftLastIndex_def goStmt_def Let_def
    by (intro returns_bnd returns_split returns_call returns_ret)
qed

lemma returns_Start: "plain_strategy s \<Longrightarrow> returns (strat_Start s)"
  by (cases s) (auto simp: plain_strategy_def strat_Start_def det_Start_def
      intro!: returns_bnd returns_raft_Start returns_split)

lemma New_plain:
  assumes "New cfg E t = (Ret (Inr o1), t')" and "\<not> Debug cfg"
  shows "plain_strategy (electionStrategy o1)"
proof -
  from assms(1) obtain uid ip a where "new_strategy cfg uid ip a = Inr (electionStrategy o1)"
    unfolding New_def by (elim attempt_RetE) (auto simp: Let_def now_def split: sum.splits)
  then show ?thesis using assms(2)
    by (cases "electionStrategy o1")
      (auto simp: new_strategy_def plain_strategy_def NewRaftStrategy_def split: if_splits)
qed

section \<open>Run\<close>

lemma strat_Start_mode:
  assumes "strat_Start s E t = (Ret (s', err), t')"
  shows "(\<exists>r. s' = RaftMode r) \<longleftrightarrow> (\<exists>r. s = RaftMode r)"
  using assms by (cases s) (auto simp: strat_Start_def elim!: bnd_RetE)

lemma run_loop_no_error:
  "run_loop o1 ws E t = (Ret (o2, r), t') \<Longrightarrow> r = None \<or> r = Some None"
proof (induction o1 ws arbitrary: t rule: run_loop.induct)
  case (2 o1 ws)
  then show ?case by (auto simp: shutdown_def elim!: bnd_RetE)
qed (auto elim!: bnd_RetE)

text \<open>The history only grows, also over many cycles.\<close>

lemma grows_reconcile: "emits (\<lambda>_. True) (reconcile o1 l)"
proof -
  have p: "emits (\<lambda>_. True) (promoteToMaster o1)" "emits (\<lambda>_. True) (demoteToReplica o1)"
    "emits (\<lambda>_. True) (checkAndFixReplication o1 l)" "emits (\<lambda>_. True) (ensureMasterLabel (oconfig o1))"
    by (auto simp: promoteToMaster_def
        intro!: emit_intros emits_with_client emits_PromoteToMaster emits_mono [OF emits_ensureMasterLabel]
          emits_mono [OF emits_demote_modest] emits_mono [OF emits_check_modest])
  have s: "emits (\<lambda>_. True) (strat_IsLeader x)" "emits (\<lambda>_. True) (strat_GetLeader x)" for x
    by (auto intro: emits_mono [OF emits_IsLeader] emits_mono [OF emits_GetLeader])
  show ?thesis
    unfolding reconcile_def handleRaftMode_def handleNoMaster_def handleSingleMaster_def handleSplitBrain_def
    by (intro emit_intros p s emits_log_reason)
qed

lemma grows_Stop: "emits (\<lambda>_. True) (strat_Stop s)"
  by (cases s) (auto simp: strat_Stop_def det_Stop_def raft_Stop_def raftShutdown_def emits_call emits_def)

lemma grows_run_loop: "emits (\<lambda>_. True) (run_loop o1 ws)"
proof (induction o1 ws rule: run_loop.induct)
  case (2 o1 ws)
  show ?case
    unfolding run_loop.simps shutdown_def httpShutdown_def CloseRedis_def redisClose_def
    by (intro emit_intros grows_Stop) (simp_all add: emits_call)
next
  case (3 o1 ws)
  then show ?case
    unfolding run_loop.simps by (intro emit_intros emits_syncState grows_reconcile) auto
qed (simp add: emits_def)

text \<open>The loop ends with the shutdown: the HTTP server and, if there is one, the Redis client are closed.\<close>

lemma run_loop_closes:
  assumes "run_loop o1 ws E t = (Ret (o2, Some r), t')"
  shows "\<exists>fs. t' = fs @ t \<and> HttpShutdown \<in> set fs \<and> (redisClient o1 \<noteq> None \<longrightarrow> RedisClose \<in> set fs)"
  using assms
proof (induction o1 ws arbitrary: t rule: run_loop.induct)
  case (2 o1 ws)
  have "returns (strat_Stop (electionStrategy o1))"
    by (cases "electionStrategy o1") (auto simp: strat_Stop_def det_Stop_def raft_Stop_def raftShutdown_def)
  then obtain x t1 where x: "strat_Stop (electionStrategy o1) E t = (Ret x, t1)" by (rule returns_obtain)
  obtain es where "t1 = es @ t" using grows_Stop x by (rule emits_trace)
  with x show ?case
    using "2.prems"
    by (cases "redisClient o1") (auto simp: shutdown_def bnd_def httpShutdown_def CloseRedis_def redisClose_def)
next
  case (3 o1 ws)
  then obtain o3 err t1 where s: "syncState o1 E t = (Ret (o3, err), t1)"
    and r: "run_loop o3 ws E t1 = (Ret (o2, Some r), t')"
    by (auto elim!: bnd_RetE)
  have "redisClient o3 = redisClient o1" by (rule syncState_frame [OF s]) simp
  moreover have "emits (\<lambda>_. True) (syncState o1)" by (intro emits_syncState grows_reconcile) simp
  then obtain es where "t1 = es @ t" using s by (rule emits_trace)
  ultimately show ?case using "3.IH" [OF r] by auto
qed simp

text \<open>A started orchestrator serves and syncs until the context is cancelled, and then ends without an error.\<close>

lemma Run_outcome:
  assumes "orch_inv o1" and "\<not> Debug (oconfig o1)" and "plain_strategy (electionStrategy o1)"
  obtains (failed) o2 e es where "Run o1 ws E t = (Ret (o2, Some (Some e)), es @ t)" and "HttpListen \<notin> set es"
  | (ticker) es where "SyncInterval (oconfig o1) \<le> 0" and "HttpListen \<in> set es"
      and "Run o1 ws E t = (Panic ''non-positive interval for NewTicker'', es @ t)"
  | (served) o2 r es where "0 < SyncInterval (oconfig o1)" and "HttpListen \<in> set es"
      and "Run o1 ws E t = (Ret (o2, r), es @ t)" and "r = (if Cancelled \<in> set ws then Some None else None)"
      and "Cancelled \<in> set ws \<longrightarrow> HttpShutdown \<in> set es \<and> (redisClient o1 \<noteq> None \<longrightarrow> RedisClose \<in> set es)"
proof -
  obtain se t1 where "strat_Start (electionStrategy o1) E t = (Ret se, t1)"
    by (rule returns_obtain [OF returns_Start [OF assms(3)]])
  then obtain s err where s: "strat_Start (electionStrategy o1) E t = (Ret (s, err), t1)" by (cases se) auto
  from emits_trace [OF emits_Start s] obtain es where es: "t1 = es @ t" "\<forall>e \<in> set es. quiet e" by blast
  consider (fail) e where "err = Some e" | (tick) "err = None" "SyncInterval (oconfig o1) \<le> 0"
    | (ok) "err = None" "0 < SyncInterval (oconfig o1)" by (cases err) force+
  then show thesis
  proof cases
    case fail
    then show ?thesis
      using s es by (intro failed [of _ _ es]) (auto simp: Run_def bnd_def Let_def quiet_def)
  next
    case tick
    then have "Run o1 ws E t = (Panic ''non-positive interval for NewTicker'', (HttpListen # es) @ t)"
      using s es(1) by (simp add: Run_def bnd_def Let_def call_def newTicker_def panic_def)
    then show ?thesis using tick by (intro ticker) auto
  next
    case ok
    let ?o = "o1\<lparr>electionStrategy := s\<rparr>"
    have inv: "orch_inv ?o" using assms(1) strat_Start_mode [OF s] by (simp add: orch_inv_def client_inv_def)
    then have "client_inv ?o" by (simp add: orch_inv_def)
    then obtain x t2 where x: "syncState ?o E (HttpListen # t1) = (Ret x, t2)"
      using returns_obtain [OF returns_syncState, of ?o E "HttpListen # t1"] assms(2) by auto
    obtain o3 e3 where x3: "x = (o3, e3)" by (cases x)
    note sync = x [unfolded x3]
    have inv3: "orch_inv o3" "\<not> Debug (oconfig o3)" using orch_inv_syncState [OF sync inv] assms(2) by auto
    have cl: "redisClient o3 = redisClient o1" by (rule syncState_frame [OF sync]) simp
    obtain y t3 where "run_loop o3 ws E t2 = (Ret y, t3)"
      by (rule returns_obtain [OF returns_run_loop [OF inv3]])
    then obtain o4 r where r: "run_loop o3 ws E t2 = (Ret (o4, r), t3)" by (cases y) auto
    have "emits (\<lambda>_. True) (syncState ?o)" by (intro emits_syncState grows_reconcile) simp
    then obtain gs where gs: "t2 = gs @ HttpListen # t1" using sync by (rule emits_trace)
    obtain fs where fs: "t3 = fs @ t2" using grows_run_loop r by (rule emits_trace)
    have r': "r = (if Cancelled \<in> set ws then Some None else None)"
      using run_loop_stops [OF r] run_loop_no_error [OF r] by auto
    have "Cancelled \<in> set ws \<longrightarrow> HttpShutdown \<in> set fs \<and> (redisClient o1 \<noteq> None \<longrightarrow> RedisClose \<in> set fs)"
      using run_loop_closes [of o3 ws E t2 o4 None t3] r r' fs cl by auto
    moreover have "Run o1 ws E t = (Ret (o4, r), (fs @ gs @ HttpListen # es) @ t)"
      using s ok sync r es(1) fs gs by (simp add: Run_def bnd_def Let_def call_def newTicker_def)
    ultimately show ?thesis using r' ok(2)
      by (intro served [of "fs @ gs @ HttpListen # es" o4 r]) auto
  qed
qed

section \<open>Properties\<close>

text \<open>
  C8. The main goroutine of the process outside debug mode, whatever its environment answers.
  Flags that fail the checks end it with their message before any outside call. It ends with a
  fatal error exactly when it has not begun to serve. Once it serves, a sync interval that is
  not positive makes it panic at once, since \<^verbatim>\<open>main\<close> does not check that flag; with a positive
  interval it never panics and runs until a termination signal, on which it closes the HTTP
  server and, unless it is a witness, the Redis client, and ends without an error. Panics of
  other goroutines are not part of it.
\<close>

theorem main_lifecycle:
  assumes "\<not> Debug (f_cfg f)"
  shows "\<exists>x es. go_main getenv inCluster newForConfig f ws E t = (x, es @ t) \<and>
    (\<forall>e. main_config getenv f = Inl e \<longrightarrow> x = Ret (Fatal e) \<and> es = []) \<and>
    ((\<exists>e. x = Ret (Fatal e)) \<longleftrightarrow> HttpListen \<notin> set es) \<and>
    (HttpListen \<in> set es \<longrightarrow> x =
      (if SyncInterval (f_cfg f) \<le> 0 then Panic ''non-positive interval for NewTicker''
       else if Cancelled \<in> set ws then Ret ShutdownComplete else Ret Running)) \<and>
    (x = Ret ShutdownComplete \<longrightarrow>
      HttpShutdown \<in> set es \<and> (\<not> Standalone (f_cfg f) \<longrightarrow> RedisClose \<in> set es))"
proof (cases "main_config getenv f")
  case (Inl e)
  then show ?thesis by (simp add: go_main_def)
next
  case (Inr cfg)
  have cfg: "\<not> Debug cfg" "SyncInterval cfg = SyncInterval (f_cfg f)" "Standalone cfg = Standalone (f_cfg f)"
    using main_config_frame [OF Inr] assms by simp_all
  show ?thesis
  proof (cases "inCluster = None \<and> newForConfig = None")
    case False
    then show ?thesis using Inr by (auto simp: go_main_def split: option.splits)
  next
    case True
    obtain n t1 where n: "New cfg E t = (Ret n, t1)" by (rule returns_obtain [OF returns_New])
    from emits_trace [OF emits_New n] obtain es1 where es1: "t1 = es1 @ t" "\<forall>e \<in> set es1. quiet e" by blast
    show ?thesis
    proof (cases n)
      case (Inl e)
      then show ?thesis
        using True Inr n es1 by (auto simp: go_main_def bnd_def quiet_def)
    next
      case o1: (Inr o1)
      note n' = n [unfolded o1]
      note go = go_main_def bnd_def True Inr n' es1(1)
      have inv: "orch_inv o1" "oconfig o1 = cfg" using New_result [OF n'] by auto
      have cl: "Standalone cfg \<or> redisClient o1 \<noteq> None" using inv by (auto simp: orch_inv_def client_inv_def)
      have "\<not> Debug (oconfig o1)" using inv(2) cfg(1) by simp
      with inv(1) show ?thesis using New_plain [OF n' cfg(1)]
      proof (cases rule: Run_outcome [of o1 ws E t1])
        case (failed o2 e es)
        then show ?thesis
          using es1(2)
          by (intro exI [of _ "Ret (Fatal (''Orchestrator error: '' @ e))"] exI [of _ "es @ es1"])
            (auto simp: go quiet_def)
      next
        case (ticker es)
        then show ?thesis
          using cfg(2) inv(2)
          by (intro exI [of _ "Panic ''non-positive interval for NewTicker''"] exI [of _ "es @ es1"])
            (auto simp: go)
      next
        case (served o2 r es)
        then show ?thesis
          using cfg(2,3) inv(2) cl
          by (intro exI [of _ "Ret (if Cancelled \<in> set ws then ShutdownComplete else Running)"] exI [of _ "es @ es1"])
            (auto simp: go)
      qed
    qed
  qed
qed

text \<open>
  A pod whose API server knows it and whose Redis answers pings: with the default flags it
  serves and shuts down on a signal; with an interval of zero it panics; without a namespace
  it does not start.
\<close>

definition demo_getenv :: "string \<Rightarrow> string" where
  "demo_getenv v = (if v = ''POD_NAME'' then ''redis-0'' else if v = ''POD_NAMESPACE'' then ''default'' else [])"

definition demo_flags :: "int \<Rightarrow> flags" where
  "demo_flags d = (flag_defaults demo_getenv)\<lparr>f_cfg := (f_cfg (flag_defaults demo_getenv))\<lparr>SyncInterval := d\<rparr>\<rparr>"

definition demo_main_env :: env where
  "demo_main_env = dead_env\<lparr>x_pod_get := \<lambda>t ns n. Inr demo_kube_pod, x_redis_ping := \<lambda>t. None\<rparr>"

lemma demo_serves: "HttpListen \<in> set (snd (go_main demo_getenv None None (demo_flags d) ws demo_main_env []))"
proof -
  obtain cfg where cfg: "main_config demo_getenv (demo_flags d) = Inr cfg" "\<not> Standalone cfg" "\<not> DiscoverLBService cfg"
    "ElectionMode cfg = ElectionModeDeterministic" "\<not> Debug cfg"
    by (simp add: main_config_def select_mode_def demo_flags_def flag_defaults_def apply_env_def demo_getenv_def Let_def)
  have "\<exists>o1 t1. New cfg demo_main_env [] = (Ret (Inr o1), t1) \<and> (\<exists>d. electionStrategy o1 = Deterministic d)"
    using cfg(2-4)
    by (simp add: New_def new_client_def NewClient_def redisConnect_def redisPing_def podGet_def
        node_ip_def new_strategy_def attempt_def wrap_res_def bnd_assoc demo_main_env_def now_def Let_def)
  then obtain o1 t1 d where n: "New cfg demo_main_env [] = (Ret (Inr o1), t1)" "electionStrategy o1 = Deterministic d"
    by blast
  let ?rest = "bnd (newTicker (SyncInterval (oconfig o1))) (\<lambda>_. 
      bnd (syncState (o1\<lparr>electionStrategy := Deterministic d\<rparr>)) (\<lambda>(o3, _). run_loop o3 ws))"
  have "emits (\<lambda>_. True) ?rest"
    unfolding newTicker_def by (intro emit_intros emits_syncState grows_reconcile grows_run_loop) simp
  then obtain es where "snd (?rest demo_main_env (HttpListen # t1)) = es @ HttpListen # t1"
    unfolding emits_def by blast
  then have "HttpListen \<in> set (snd (Run o1 ws demo_main_env t1))"
    using n(2) by (simp add: Run_def strat_Start_def det_Start_def Let_def)
  then show ?thesis
    using cfg(1) n(1) by (auto simp: go_main_def bnd_def split: prod.splits go.splits option.splits)
qed

theorem main_lifecycle_witness:
  "fst (go_main demo_getenv None None (demo_flags (15 * Second)) [Tick, Cancelled] demo_main_env []) = Ret ShutdownComplete \<and>
   fst (go_main demo_getenv None None (demo_flags 0) [Tick, Cancelled] demo_main_env []) =
     Panic ''non-positive interval for NewTicker'' \<and>
   go_main (\<lambda>v. []) None None (flag_defaults (\<lambda>v. [])) [Tick] demo_main_env [] = (Ret (Fatal ''POD_NAME is required''), [])"
proof (intro conjI)
  have f: "\<not> Debug (f_cfg (demo_flags d))" "SyncInterval (f_cfg (demo_flags d)) = d" for d
    by (simp_all add: demo_flags_def flag_defaults_def)
  show "fst (go_main demo_getenv None None (demo_flags (15 * Second)) [Tick, Cancelled] demo_main_env []) = Ret ShutdownComplete"
    using main_lifecycle [OF f(1), of demo_getenv None None "15 * Second" "[Tick, Cancelled]" demo_main_env "[]"] f(2)
      demo_serves [of "15 * Second" "[Tick, Cancelled]"] by (auto simp: Second_def)
  show "fst (go_main demo_getenv None None (demo_flags 0) [Tick, Cancelled] demo_main_env []) =
     Panic ''non-positive interval for NewTicker''"
    using main_lifecycle [OF f(1), of demo_getenv None None 0 "[Tick, Cancelled]" demo_main_env "[]"] f(2)
      demo_serves [of 0 "[Tick, Cancelled]"] by auto
  have "\<not> Debug (f_cfg (flag_defaults (\<lambda>v. [])))" by (simp add: flag_defaults_def)
  moreover have "main_config (\<lambda>v. []) (flag_defaults (\<lambda>v. [])) = Inl ''POD_NAME is required''"
    by (simp add: main_config_def select_mode_def flag_defaults_def apply_env_def Let_def)
  ultimately show "go_main (\<lambda>v. []) None None (flag_defaults (\<lambda>v. [])) [Tick] demo_main_env [] =
      (Ret (Fatal ''POD_NAME is required''), [])"
    using main_lifecycle [of "flag_defaults (\<lambda>v. [])" "\<lambda>v. []" None None "[Tick]" demo_main_env "[]"] by auto
qed

end
