(* ===== verification/Spec2Isabelle.thy ===== *)
theory Spec2Isabelle
  imports Overlap Raft_Cycle Raft_Join Program
begin

text \<open>
  A verification library for redis-orchestrator, a sidecar that runs beside every Redis server
  of a Kubernetes StatefulSet and keeps exactly one of them master.

  \<^bold>\<open>The program.\<close> Every pod runs one orchestrator. In each sync cycle it asks the local Redis for
  its role, lists the pods of its namespace, asks every other running pod for its state over
  HTTP (signed with a shared secret), merges the answers into a table of peers, and reconciles:
  with no master among the healthy pods it elects the oldest and promotes it, with one master
  it keeps it, with several all but the oldest step down. In Raft mode the leader of a
  HashiCorp Raft cluster is the master instead; nodes find and join that cluster through HTTP
  endpoints of their own. The master's pod carries a label that a Kubernetes service selects.

  \<^bold>\<open>How it is modelled.\<close> Computations are functions of an environment and the history of all
  outside calls, and return a value or a panic with the longer history (\<^verbatim>\<open>Go_IO\<close>). The environment
  is a record of functions that answer each call from the history: it stands for Redis behind
  go-redis, the Kubernetes API, the network, the clock and the Raft library, about which
  nothing is assumed except where a theorem says so. Go's errors are option and sum values, its
  maps association lists with a uniqueness invariant, its \<^verbatim>\<open>int64\<close> 64-bit words where the
  arithmetic can wrap around, and an index or slice out of range and a nil dereference are
  panics, also in the arguments of log messages.

  \<^bold>\<open>Theories\<close> and the code under \<^verbatim>\<open>src/\<close> they follow:
  \<^item> \<^verbatim>\<open>Go_Base\<close>, \<^verbatim>\<open>Go_IO\<close>, \<^verbatim>\<open>Json\<close>, \<^verbatim>\<open>Net_Addr\<close>, \<^verbatim>\<open>Crypto\<close>: the parts of Go's library the program
    uses (strings, numbers, maps, cleaning of file and URL paths, HTTP values, JSON decoding, host
    and port, SHA-256 and HMAC), and \<^verbatim>\<open>splitHostPort\<close> of \<^verbatim>\<open>raft_discovery.go\<close>. \<^verbatim>\<open>Go_IO\<close> also has the calculus: \<open>emits\<close> bounds the
    calls of a computation, \<open>wp\<close> and \<open>returns\<close> say that it does not panic.
  \<^item> \<^verbatim>\<open>Config\<close>: \<^verbatim>\<open>pkg/config/config.go\<close> and the flag handling of \<^verbatim>\<open>main.go\<close>.
  \<^item> \<^verbatim>\<open>Election\<close>: \<^verbatim>\<open>pkg/orchestrator/state/state.go\<close> and \<^verbatim>\<open>pkg/election/deterministic.go\<close>.
  \<^item> \<^verbatim>\<open>Redis_Client\<close>: \<^verbatim>\<open>pkg/redis/client.go\<close>, with the parser of \<^verbatim>\<open>INFO replication\<close>.
  \<^item> \<^verbatim>\<open>Auth\<close>: \<^verbatim>\<open>pkg/auth/auth.go\<close>.
  \<^item> \<^verbatim>\<open>Raft_Strategy\<close>: \<^verbatim>\<open>pkg/election/raft.go\<close>, \<^verbatim>\<open>raft_discovery.go\<close>, \<^verbatim>\<open>raft_handlers.go\<close>; \<^verbatim>\<open>Raft_Facts\<close>: its
    properties. \<^verbatim>\<open>Raft_Join\<close>: a join request end to end, through the HTTP server of the leader.
  \<^item> \<^verbatim>\<open>Pod_Labels\<close>, \<^verbatim>\<open>Peers\<close>, \<^verbatim>\<open>Reconcile\<close>, \<^verbatim>\<open>Orchestrator\<close>: \<^verbatim>\<open>pkg/orchestrator/orchestrator.go\<close>, in
    this order the label and LoadBalancer functions, the exchange of states, the reconciliation
    with its handlers, and \<^verbatim>\<open>New\<close>, the HTTP server, \<^verbatim>\<open>Run\<close> and \<^verbatim>\<open>shutdown\<close>. \<^verbatim>\<open>Reconcile_Facts\<close> and
    \<^verbatim>\<open>Reconcile_Props\<close> hold the library lemmas and the properties of the sync cycle.
  \<^item> \<^verbatim>\<open>Program\<close>: \<^verbatim>\<open>main\<close> of \<^verbatim>\<open>main.go\<close> from the parsed flags to the end of the process.
  \<^item> \<^verbatim>\<open>Cluster\<close>: several orchestrators together in deterministic mode; a whole sync cycle of one pod
    runs against its own Redis and the HTTP servers of the others, as modelled in the other
    theories. The clocks of the pods differ, and the clock of the acting pod moves on from one
    question to the next and to the update of its table (\<open>own_clock\<close>). \<^verbatim>\<open>Overlap\<close> splits the cycles
    into their start, the questions to the peers and their end (an inductive step relation) and
    interleaves them; an answer keeps the role and the time it was given with. \<^verbatim>\<open>Raft_Cycle\<close> does
    a cycle in Raft mode.

  \<^bold>\<open>Interfaces\<close> are locales, interpreted on the model: \<open>map_contract\<close> (what the users of a Go map
  rely on), \<open>sort_contract\<close> (what \<^verbatim>\<open>sort.Slice\<close> promises for an order given by a key; stability is
  not used), \<open>sealed_requests\<close> (what one pod signs another accepts, and a guard built on it).

  \<^bold>\<open>What is proved.\<close> The election picks the least rank whatever the order of its input. In
  deterministic mode \<^verbatim>\<open>reconcile\<close> implements \<open>decide\<close>, a specification without sorting, does not
  depend on the order in which Go visits the table, promotes only the winner and demotes all
  masters but one. Standby pods never promote, witnesses touch nothing, in Raft mode only the
  leader promotes. Outside debug mode the main loop never panics and keeps its invariant. A
  query of a peer returns what that peer determines about itself; requests without a valid
  signature reach no handler. Signatures round trip inside the clock window, which is exact up
  to 292 years and wrong beyond. Raft membership changes happen on the leader only and for the
  server that asked; bootstrapping is guarded; joining ends. The main goroutine ends with a fatal
  error before it serves or with an orderly shutdown on a signal, unless the sync interval is not
  positive, which makes it panic. Finally, in deterministic mode every interleaving of the sync
  cycles ends with exactly one master once each pod has completed one, never makes a second pod
  master and never loses the chosen one. This is for clusters without standby, witness and debug
  pods in which nothing fails: all pods, their Redis servers and the connections between them
  work, the clocks are close enough for requests to be accepted, and no answer is more than 60
  seconds old by the two clocks when it is used. Outside these limits it does not hold: a
  partition, or a cycle that stalls so long that the master's answer counts as stale, can make a
  second master, and an oldest pod on standby keeps the cluster without one for ever, which is
  proved too. In Raft mode the cycles leave exactly the Raft leader as master, provided the
  library names one.

  \<^bold>\<open>Bounds.\<close> No fuel is used: every loop of the program is structural or counts down (18 attempts to
  join, 12 to find a LoadBalancer address). \<^verbatim>\<open>Run\<close> and \<^verbatim>\<open>monitorLeadership\<close> are fed with the finite
  list of wake-ups their \<^verbatim>\<open>select\<close> delivered, of any length. Runs of the cluster are finite
  sequences of steps of any length; \<open>cycles_complete\<close> shows that each can be continued so that
  every pod completes another cycle.

  \<^bold>\<open>Not modelled.\<close> The text of log messages; the interleaving of the goroutines of one process and the
  mutexes (each handler and each cycle is one computation, goroutines are computations of their
  own, so a panic of one of them, which would end the process, is a result of its own definition
  and not of \<open>go_main\<close>; cycles of different pods do interleave); contexts and timeouts, beyond
  the environment's freedom to fail any call; command line parsing itself; the textual form of
  JSON and of RFC 3339 times, and percent-decoding of URLs; the no-op state machine given to the
  Raft library; the deployment files and scripts.

  \<^bold>\<open>Next.\<close> Convergence with unhealthy pods and with standby pods that are not the oldest; the labels
  of a converged cluster; interleaving of the HTTP handlers with a running cycle.
\<close>

end
